(* ===== verification/Prelude.thy ===== *)
theory Prelude
  imports Main "HOL-Library.AList" "HOL-Library.Sublist"
begin

text \<open>
  Shared material of the development: the collections of simplification rules that the
  component theories fill, the type names of the model, and generic facts about lists,
  association lists and options that several components use. Nothing here models a source
  line; the Go standard library functions are in \<open>Go_Strings\<close> and \<open>Go_Encoding\<close>.
\<close>

named_theorems response_defs \<open>the answers of the handlers, unfolded to status and document\<close>
named_theorems record_ok \<open>changes of an instance record that keep it in its place in the map\<close>

text \<open>A Go string is a sequence of bytes; a HOL \<open>char\<close> is one byte.\<close>

type_synonym bytes = string
type_synonym rune = nat
type_synonym instance_id = string
type_synonym ref = nat

abbreviation byte :: "char \<Rightarrow> nat" where
  "byte c \<equiv> of_char c"

abbreviation newline :: char where
  "newline \<equiv> CHR 0x0A"

section \<open>Lists\<close>

lemma dropWhile_not_hd: "dropWhile P xs \<noteq> [] \<Longrightarrow> \<not> P (hd (dropWhile P xs))"
  by (rule hd_dropWhile)

lemma set_dropWhile_subset: "set (dropWhile P xs) \<subseteq> set xs"
  by (auto dest: set_dropWhileD)

lemma length_dropWhile_le_length: "length (dropWhile P xs) \<le> length xs"
  by (rule length_dropWhile_le)

lemma filter_all_id: "\<forall>x\<in>set xs. P x \<Longrightarrow> filter P xs = xs"
  by (rule filter_True) simp

lemma concat_map_singleton: "\<forall>x\<in>set xs. g x = [f x] \<Longrightarrow> concat (map g xs) = map f xs"
  by (induction xs) auto

lemma append_eq_same_suffix:
  assumes "xs @ ys = us @ vs" and "length ys = length vs"
  shows "xs = us \<and> ys = vs"
  using assms by (metis append_eq_append_conv)

lemma list_update_map_eq: "map f xs = map f (xs[i := y])" if "i < length xs \<Longrightarrow> f y = f (xs ! i)"
  using that by (cases "i < length xs") (auto simp: map_update list_update_beyond nth_list_update intro!: nth_equalityI)

lemma mem_take: "x \<in> set (take n xs) \<Longrightarrow> x \<in> set xs"
  by (rule in_set_takeD)

section \<open>Association lists with distinct keys\<close>

text \<open>A Go map is an association list whose keys are distinct.\<close>

lemma map_of_update [simp]: "map_of (AList.update k v al) = (map_of al)(k \<mapsto> v)"
  by (rule update_conv')

lemma map_of_delete [simp]: "map_of (AList.delete k al) = (map_of al)(k := None)"
  by (rule delete_conv')

lemma distinct_update_keys [simp]:
  "distinct (map fst al) \<Longrightarrow> distinct (map fst (AList.update k v al))"
  by (rule distinct_update)

lemma distinct_delete_keys [simp]:
  "distinct (map fst al) \<Longrightarrow> distinct (map fst (AList.delete k al))"
  by (rule distinct_delete)

lemma update_fresh: "map_of al k = None \<Longrightarrow> AList.update k v al = al @ [(k, v)]"
  by (induction al) (auto split: if_splits)

lemma delete_fresh_append:
  "map_of al k = None \<Longrightarrow> AList.delete k (al @ [(k, v)]) = al"
  by (induction al) (auto simp: AList.delete_eq split: if_splits)

lemma map_of_mem_distinct:
  "distinct (map fst al) \<Longrightarrow> (k, v) \<in> set al \<longleftrightarrow> map_of al k = Some v"
  by (auto intro: map_of_is_SomeI dest: map_of_SomeD)

lemma delete_filter: "AList.delete k al = filter (\<lambda>e. fst e \<noteq> k) al"
  by (simp add: AList.delete_eq split_def eq_commute)

lemma option_eqI: "(\<And>v. x = Some v \<longleftrightarrow> y = Some v) \<Longrightarrow> x = y"
  by (cases x; cases y) auto

lemma map_of_sort_key:
  fixes al :: "('k :: linorder \<times> 'v) list"
  assumes "distinct (map fst al)"
  shows "map_of (sort_key fst al) = map_of al"
proof (rule ext, rule option_eqI)
  fix k v
  have "distinct (map fst (sort_key fst al))"
    using assms by (simp add: distinct_map)
  then show "map_of (sort_key fst al) k = Some v \<longleftrightarrow> map_of al k = Some v"
    using map_of_mem_distinct assms by (metis set_sort)
qed

end
