(* ===== verification/Go_Strings.thy ===== *)
theory Go_Strings
  imports Prelude
begin

text \<open>
  The functions of Go's \<^verbatim>\<open>strings\<close>, \<^verbatim>\<open>unicode/utf8\<close>, \<^verbatim>\<open>strconv\<close> and \<^verbatim>\<open>fmt\<close>
  packages that the broker calls, on byte strings. Separators and cut sets in the source are
  single ASCII bytes, so \<open>strings_Split\<close>, \<open>strings_ReplaceAll\<close> and the trimming functions
  take one character. \<open>strings.ToLower\<close> and \<open>strings.TrimSpace\<close> work on runes; the case table
  above U+007F is an argument \<open>tbl\<close>, so that a theorem holds whatever that table says.
\<close>

section \<open>Characters\<close>

definition is_digit :: "char \<Rightarrow> bool" where
  "is_digit c \<longleftrightarrow> 48 \<le> byte c \<and> byte c \<le> 57"

definition is_lower :: "char \<Rightarrow> bool" where
  "is_lower c \<longleftrightarrow> 97 \<le> byte c \<and> byte c \<le> 122"

definition is_upper :: "char \<Rightarrow> bool" where
  "is_upper c \<longleftrightarrow> 65 \<le> byte c \<and> byte c \<le> 90"

definition is_ascii :: "char \<Rightarrow> bool" where
  "is_ascii c \<longleftrightarrow> byte c < 128"

lemma char_class_ascii:
  "is_digit c \<Longrightarrow> is_ascii c" "is_lower c \<Longrightarrow> is_ascii c" "is_upper c \<Longrightarrow> is_ascii c"
  by (auto simp: is_digit_def is_lower_def is_upper_def is_ascii_def)

section \<open>UTF-8\<close>

text \<open>
  \<open>utf8_width s\<close> is the number of bytes \<^verbatim>\<open>utf8.DecodeRune\<close> takes from the front of a
  non-empty string, and \<open>None\<close> where it answers \<^verbatim>\<open>(RuneError, 1)\<close> for an invalid byte.
\<close>

definition cont :: "nat \<Rightarrow> nat \<Rightarrow> char \<Rightarrow> bool" where
  "cont lo hi c \<longleftrightarrow> lo \<le> byte c \<and> byte c \<le> hi"

definition rune_error :: rune where
  "rune_error = 0xFFFD"

fun utf8_decode :: "bytes \<Rightarrow> (rune \<times> nat) option" where
  "utf8_decode [] = None"
| "utf8_decode (c # cs) =
    (let b = byte c in
     if b < 0x80 then Some (b, 1)
     else if 0xC2 \<le> b \<and> b \<le> 0xDF then
       (case cs of
          c1 # _ \<Rightarrow> if cont 0x80 0xBF c1
            then Some ((b - 0xC0) * 64 + (byte c1 - 0x80), 2) else None
        | _ \<Rightarrow> None)
     else if 0xE0 \<le> b \<and> b \<le> 0xEF then
       (case cs of
          c1 # c2 # _ \<Rightarrow>
            if cont (if b = 0xE0 then 0xA0 else 0x80) (if b = 0xED then 0x9F else 0xBF) c1
               \<and> cont 0x80 0xBF c2
            then Some ((b - 0xE0) * 4096 + (byte c1 - 0x80) * 64 + (byte c2 - 0x80), 3)
            else None
        | _ \<Rightarrow> None)
     else if 0xF0 \<le> b \<and> b \<le> 0xF4 then
       (case cs of
          c1 # c2 # c3 # _ \<Rightarrow>
            if cont (if b = 0xF0 then 0x90 else 0x80) (if b = 0xF4 then 0x8F else 0xBF) c1
               \<and> cont 0x80 0xBF c2 \<and> cont 0x80 0xBF c3
            then Some ((b - 0xF0) * 262144 + (byte c1 - 0x80) * 4096
                       + (byte c2 - 0x80) * 64 + (byte c3 - 0x80), 4)
            else None
        | _ \<Rightarrow> None)
     else None)"

text \<open>\<^verbatim>\<open>utf8.AppendRune\<close>: surrogates and values above U+10FFFF become U+FFFD.\<close>

definition utf8_encode :: "rune \<Rightarrow> bytes" where
  "utf8_encode r =
    (if r < 0x80 then [char_of r]
     else if r < 0x800 then [char_of (0xC0 + r div 64), char_of (0x80 + r mod 64)]
     else if 0xD800 \<le> r \<and> r \<le> 0xDFFF \<or> 0x10FFFF < r
       then [CHR 0xEF, CHR 0xBF, CHR 0xBD]
     else if r < 0x10000
       then [char_of (0xE0 + r div 4096), char_of (0x80 + r div 64 mod 64),
             char_of (0x80 + r mod 64)]
     else [char_of (0xF0 + r div 262144), char_of (0x80 + r div 4096 mod 64),
           char_of (0x80 + r div 64 mod 64), char_of (0x80 + r mod 64)])"

text \<open>
  The \<^verbatim>\<open>range\<close> loop over a string: each rune with the bytes it came from. An invalid byte is
  a rune \<open>rune_error\<close> of one byte.
\<close>

function utf8_runes :: "bytes \<Rightarrow> (rune \<times> bytes) list" where
  "utf8_runes [] = []"
| "utf8_runes (c # cs) =
    (case utf8_decode (c # cs) of
       Some (r, n) \<Rightarrow> (r, take (max 1 n) (c # cs)) # utf8_runes (drop (max 1 n) (c # cs))
     | None \<Rightarrow> (rune_error, [c]) # utf8_runes cs)"
  by pat_completeness auto
termination
  by (relation "measure length") auto

declare utf8_decode.simps [simp del]

lemma utf8_runes_concat: "concat (map snd (utf8_runes s)) = s"
  by (induction s rule: utf8_runes.induct) (auto split: option.splits)

lemma utf8_decode_ascii [simp]: "is_ascii c \<Longrightarrow> utf8_decode (c # cs) = Some (byte c, 1)"
  by (simp add: is_ascii_def utf8_decode.simps Let_def)

lemma utf8_runes_ascii: "\<forall>c\<in>set s. is_ascii c \<Longrightarrow> utf8_runes s = map (\<lambda>c. (byte c, [c])) s"
  by (induction s) auto

section \<open>Package strings\<close>

text \<open>\<^verbatim>\<open>unicode.ToLower\<close>: ASCII is computed, the table answers for every other rune.\<close>

definition unicode_ToLower :: "(rune \<Rightarrow> rune) \<Rightarrow> rune \<Rightarrow> rune" where
  "unicode_ToLower tbl r =
    (if r < 128 then (if 65 \<le> r \<and> r \<le> 90 then r + 32 else r) else tbl r)"

definition strings_Map :: "(rune \<Rightarrow> rune) \<Rightarrow> string \<Rightarrow> string" where
  "strings_Map f s = concat (map (\<lambda>(r, _). utf8_encode (f r)) (utf8_runes s))"

definition strings_ToLower :: "(rune \<Rightarrow> rune) \<Rightarrow> string \<Rightarrow> string" where
  "strings_ToLower tbl s = strings_Map (unicode_ToLower tbl) s"

definition ascii_lower :: "char \<Rightarrow> char" where
  "ascii_lower c = (if is_upper c then char_of (byte c + 32) else c)"

lemma strings_ToLower_ascii:
  assumes "\<forall>c\<in>set s. is_ascii c"
  shows "strings_ToLower tbl s = map ascii_lower s"
proof -
  have one: "utf8_encode (unicode_ToLower tbl (byte c)) = [ascii_lower c]" if "is_ascii c" for c
    using that by (auto simp: unicode_ToLower_def utf8_encode_def ascii_lower_def is_upper_def
        is_ascii_def char_of_char)
  have "concat (map (\<lambda>c. utf8_encode (unicode_ToLower tbl (byte c))) s) = map ascii_lower s"
    using assms one by (intro concat_map_singleton) blast
  then show ?thesis
    by (simp add: strings_ToLower_def strings_Map_def utf8_runes_ascii [OF assms] o_def)
qed

lemma ascii_lower_id: "\<not> is_upper c \<Longrightarrow> ascii_lower c = c"
  by (simp add: ascii_lower_def)

text \<open>\<^verbatim>\<open>strings.Split\<close> on a one-byte separator never answers the empty list.\<close>

fun strings_Split :: "char \<Rightarrow> string \<Rightarrow> string list" where
  "strings_Split sep [] = [[]]"
| "strings_Split sep (c # cs) =
    (if c = sep then [] # strings_Split sep cs
     else (case strings_Split sep cs of
             [] \<Rightarrow> [[c]]
           | p # ps \<Rightarrow> (c # p) # ps))"

text \<open>\<^verbatim>\<open>strings.Join\<close>.\<close>

fun strings_Join :: "string \<Rightarrow> string list \<Rightarrow> string" where
  "strings_Join sep [] = []"
| "strings_Join sep [x] = x"
| "strings_Join sep (x # y # ys) = x @ sep @ strings_Join sep (y # ys)"

text \<open>\<^verbatim>\<open>strings.Cut\<close>: what precedes and what follows the first separator.\<close>

definition strings_Cut :: "char \<Rightarrow> string \<Rightarrow> string \<times> string \<times> bool" where
  "strings_Cut sep s =
    (let front = takeWhile (\<lambda>c. c \<noteq> sep) s in
     if front = s then (s, [], False) else (front, drop (Suc (length front)) s, True))"

text \<open>\<^verbatim>\<open>strings.ReplaceAll\<close> of a one-byte string.\<close>

definition strings_ReplaceAll :: "char \<Rightarrow> string \<Rightarrow> string \<Rightarrow> string" where
  "strings_ReplaceAll old new s = concat (map (\<lambda>c. if c = old then new else [c]) s)"

definition strings_TrimLeft :: "char \<Rightarrow> string \<Rightarrow> string" where
  "strings_TrimLeft x s = dropWhile (\<lambda>c. c = x) s"

definition strings_TrimRight :: "char \<Rightarrow> string \<Rightarrow> string" where
  "strings_TrimRight x s = rev (dropWhile (\<lambda>c. c = x) (rev s))"

definition strings_Trim :: "char \<Rightarrow> string \<Rightarrow> string" where
  "strings_Trim x s = strings_TrimRight x (strings_TrimLeft x s)"

text \<open>\<^verbatim>\<open>unicode.IsSpace\<close>.\<close>

definition unicode_IsSpace :: "rune \<Rightarrow> bool" where
  "unicode_IsSpace r \<longleftrightarrow>
     9 \<le> r \<and> r \<le> 13 \<or> r = 32 \<or> r = 0x85 \<or> r = 0xA0 \<or> r = 0x1680
     \<or> 0x2000 \<le> r \<and> r \<le> 0x200A \<or> r = 0x2028 \<or> r = 0x2029 \<or> r = 0x202F \<or> r = 0x205F
     \<or> r = 0x3000"

definition strings_TrimSpace :: "string \<Rightarrow> string" where
  "strings_TrimSpace s =
    (let sp = (\<lambda>p. unicode_IsSpace (fst p)) in
     concat (map snd (rev (dropWhile sp (rev (dropWhile sp (utf8_runes s)))))))"

text \<open>\<^verbatim>\<open>strings.Index\<close>, with \<open>None\<close> for \<open>-1\<close>.\<close>

fun strings_Index :: "string \<Rightarrow> string \<Rightarrow> nat option" where
  "strings_Index [] pat = (if pat = [] then Some 0 else None)"
| "strings_Index (c # cs) pat =
    (if take (length pat) (c # cs) = pat then Some 0 else map_option Suc (strings_Index cs pat))"

lemma strings_Split_ne [simp]: "strings_Split sep s \<noteq> []"
  by (induction s) (auto split: list.splits)

lemma strings_Split_no_sep: "p \<in> set (strings_Split sep s) \<Longrightarrow> sep \<notin> set p"
  by (induction s arbitrary: p) (auto split: list.splits if_splits)

lemma strings_Split_chars: "p \<in> set (strings_Split sep s) \<Longrightarrow> set p \<subseteq> set s"
  by (induction s arbitrary: p) (force split: list.splits if_splits)+

lemma strings_Split_single: "sep \<notin> set s \<Longrightarrow> strings_Split sep s = [s]"
  by (induction s) auto

lemma strings_Split_append:
  "sep \<notin> set s \<Longrightarrow> strings_Split sep (s @ sep # t) = s # strings_Split sep t"
  by (induction s) auto

lemma strings_Join_Cons: "ys \<noteq> [] \<Longrightarrow> strings_Join sep (x # ys) = x @ sep @ strings_Join sep ys"
  by (cases ys) auto

text \<open>\<^verbatim>\<open>Split\<close> and \<^verbatim>\<open>Join\<close> are inverse to each other.\<close>

lemma strings_Join_Split: "strings_Join [sep] (strings_Split sep s) = s"
proof (induction s)
  case Nil
  show ?case by simp
next
  case (Cons c cs)
  obtain p ps where ps: "strings_Split sep cs = p # ps"
    by (cases "strings_Split sep cs") auto
  show ?case
    using Cons ps by (cases ps) auto
qed

lemma strings_Split_Join:
  "xs \<noteq> [] \<Longrightarrow> \<forall>x\<in>set xs. sep \<notin> set x \<Longrightarrow> strings_Split sep (strings_Join [sep] xs) = xs"
proof (induction xs)
  case Nil
  then show ?case by simp
next
  case (Cons x xs)
  show ?case
  proof (cases "xs = []")
    case True
    with Cons.prems show ?thesis by (simp add: strings_Split_single)
  next
    case False
    with Cons show ?thesis by (simp add: strings_Join_Cons strings_Split_append)
  qed
qed

lemma set_strings_Join:
  "set (strings_Join sep xs) \<subseteq> set sep \<union> (\<Union>x\<in>set xs. set x)"
  by (induction sep xs rule: strings_Join.induct) auto

lemma set_strings_TrimLeft: "set (strings_TrimLeft x s) \<subseteq> set s"
  by (simp add: strings_TrimLeft_def set_dropWhile_subset)

lemma set_strings_TrimRight: "set (strings_TrimRight x s) \<subseteq> set s"
  using set_dropWhile_subset [of _ "rev s"] by (auto simp: strings_TrimRight_def)

lemma set_strings_Trim: "set (strings_Trim x s) \<subseteq> set s"
  unfolding strings_Trim_def using set_strings_TrimLeft set_strings_TrimRight by blast

lemma length_strings_TrimRight: "length (strings_TrimRight x s) \<le> length s"
  using length_dropWhile_le [of _ "rev s"] by (simp add: strings_TrimRight_def)

lemma hd_strings_TrimLeft: "strings_TrimLeft x s \<noteq> [] \<Longrightarrow> hd (strings_TrimLeft x s) \<noteq> x"
  unfolding strings_TrimLeft_def by (rule dropWhile_not_hd)

lemma last_strings_TrimRight: "strings_TrimRight x s \<noteq> [] \<Longrightarrow> last (strings_TrimRight x s) \<noteq> x"
  unfolding strings_TrimRight_def using dropWhile_not_hd [of "\<lambda>c. c = x" "rev s"]
  by (simp add: last_rev)

lemma strings_TrimRight_id: "s = [] \<or> last s \<noteq> x \<Longrightarrow> strings_TrimRight x s = s"
  by (cases s rule: rev_cases) (auto simp: strings_TrimRight_def)

lemma strings_TrimLeft_id: "s = [] \<or> hd s \<noteq> x \<Longrightarrow> strings_TrimLeft x s = s"
  by (cases s) (auto simp: strings_TrimLeft_def)

lemma strings_TrimRight_prefix: "\<exists>n. strings_TrimRight x s = take n s"
proof -
  have "suffix (dropWhile (\<lambda>c. c = x) (rev s)) (rev s)"
    by (rule suffix_dropWhile)
  then have "prefix (strings_TrimRight x s) s"
    by (simp add: strings_TrimRight_def suffix_to_prefix)
  then show ?thesis
    by (metis append_eq_conv_conj prefix_def)
qed

lemma hd_strings_TrimRight:
  "strings_TrimRight x s \<noteq> [] \<Longrightarrow> hd (strings_TrimRight x s) = hd s"
  using strings_TrimRight_prefix [of x s] by (metis hd_take take_eq_Nil neq0_conv)

lemma strings_TrimRight_ne: "s \<noteq> [] \<Longrightarrow> hd s \<noteq> x \<Longrightarrow> strings_TrimRight x s \<noteq> []"
  by (cases s) (auto simp: strings_TrimRight_def dropWhile_eq_Nil_conv)

lemma strings_Trim_ends:
  assumes "strings_Trim x s \<noteq> []"
  shows "hd (strings_Trim x s) \<noteq> x" "last (strings_Trim x s) \<noteq> x"
proof -
  have "strings_TrimLeft x s \<noteq> []"
    using assms by (auto simp: strings_Trim_def strings_TrimRight_def)
  then show "hd (strings_Trim x s) \<noteq> x"
    using assms hd_strings_TrimLeft hd_strings_TrimRight by (metis strings_Trim_def)
  show "last (strings_Trim x s) \<noteq> x"
    using assms last_strings_TrimRight by (simp add: strings_Trim_def)
qed

lemma strings_Trim_id:
  "s \<noteq> [] \<Longrightarrow> hd s \<noteq> x \<Longrightarrow> last s \<noteq> x \<Longrightarrow> strings_Trim x s = s"
  by (simp add: strings_Trim_def strings_TrimLeft_id strings_TrimRight_id)

lemma set_strings_ReplaceAll:
  "set (strings_ReplaceAll a b s) \<subseteq> (set s - {a}) \<union> set b"
  by (auto simp: strings_ReplaceAll_def split: if_splits)

lemma strings_ReplaceAll_append [simp]:
  "strings_ReplaceAll a b (s @ t) = strings_ReplaceAll a b s @ strings_ReplaceAll a b t"
  by (simp add: strings_ReplaceAll_def)

lemma strings_Index_Some:
  "strings_Index s pat = Some i \<Longrightarrow> take (length pat) (drop i s) = pat"
  by (induction s arbitrary: i) (auto split: if_splits)

lemma strings_Cut_before_no_sep: "sep \<notin> set (fst (strings_Cut sep s))"
  by (auto simp: strings_Cut_def Let_def dest: set_takeWhileD)

end
