(* ===== verification/Hostname.thy ===== *)
theory Hostname
  imports Go_Strings
begin

text \<open>
  Names derived from user input (\<^verbatim>\<open>broker/provision.go\<close>): the instance identifier check, the
  sanitised owner and the route host name of an agent. The specification is \<open>dns_label\<close>: one to
  63 characters among lower-case letters, digits and hyphens, with no hyphen at either end.
\<close>

section \<open>Model\<close>

definition is_alnum :: "char \<Rightarrow> bool" where
  "is_alnum c \<longleftrightarrow> is_lower c \<or> is_upper c \<or> is_digit c"

text \<open>The regular expression \<^verbatim>\<open>^[a-zA-Z0-9][a-zA-Z0-9_-]{0,63}$\<close>.\<close>

definition validInstanceID :: "string \<Rightarrow> bool" where
  "validInstanceID s =
    (case s of
       [] \<Rightarrow> False
     | c # cs \<Rightarrow> is_alnum c \<and> length cs \<le> 63
         \<and> list_all (\<lambda>d. is_alnum d \<or> d = CHR ''_'' \<or> d = CHR ''-'') cs)"

text \<open>
  \<^verbatim>\<open>invalidDNSChars.ReplaceAllString(s, "")\<close> with \<^verbatim>\<open>[^a-z0-9-]\<close>. Every byte of a rune above
  U+007F, and every invalid byte, is outside the class, so the bytewise filter is exact.
\<close>

definition dns_char :: "char \<Rightarrow> bool" where
  "dns_char c \<longleftrightarrow> is_lower c \<or> is_digit c \<or> c = CHR ''-''"

definition removeInvalidDNSChars :: "string \<Rightarrow> string" where
  "removeInvalidDNSChars s = filter dns_char s"

definition sanitizeHostname :: "(rune \<Rightarrow> rune) \<Rightarrow> string \<Rightarrow> string" where
  "sanitizeHostname tbl s =
    (let s = strings_ToLower tbl s;
         s = hd (strings_Split (CHR ''@'') s);
         s = strings_ReplaceAll (CHR ''.'') ''-'' s;
         s = strings_ReplaceAll (CHR ''_'') ''-'' s;
         s = removeInvalidDNSChars s
     in strings_Trim (CHR ''-'') s)"

definition uniqueRouteHostname :: "(rune \<Rightarrow> rune) \<Rightarrow> string \<Rightarrow> string \<Rightarrow> string" where
  "uniqueRouteHostname tbl sanitizedOwner instanceID =
    (let sanitizedID = removeInvalidDNSChars (strings_ToLower tbl instanceID);
         sanitizedID = strings_Trim (CHR ''-'') sanitizedID;
         maxOwnerLen = 63 - 4 - int (length sanitizedID);
         maxOwnerLen = (if maxOwnerLen < 1 then 1 else maxOwnerLen);
         owner = (if int (length sanitizedOwner) > maxOwnerLen
                  then strings_TrimRight (CHR ''-'') (take (nat maxOwnerLen) sanitizedOwner)
                  else sanitizedOwner);
         h = ''oc-'' @ owner @ ''-'' @ sanitizedID
     in if length h > 63 then strings_TrimRight (CHR ''-'') (take 63 h) else h)"

text \<open>The owner part Provision passes: the sanitised owner, \<^verbatim>\<open>agent\<close> when nothing is left.\<close>

definition route_owner :: "(rune \<Rightarrow> rune) \<Rightarrow> string \<Rightarrow> string" where
  "route_owner tbl owner =
    (let s = sanitizeHostname tbl owner in if s = [] then ''agent'' else s)"

section \<open>Specification\<close>

definition dns_label :: "string \<Rightarrow> bool" where
  "dns_label s \<longleftrightarrow> s \<noteq> [] \<and> length s \<le> 63 \<and> list_all dns_char s
     \<and> hd s \<noteq> CHR ''-'' \<and> last s \<noteq> CHR ''-''"

text \<open>Identifiers the host name keeps as they are: those of the shape of a lower-case UUID.\<close>

definition route_safe_id :: "string \<Rightarrow> bool" where
  "route_safe_id s \<longleftrightarrow> s \<noteq> [] \<and> length s \<le> 58 \<and> list_all dns_char s
     \<and> hd s \<noteq> CHR ''-'' \<and> last s \<noteq> CHR ''-''"

text \<open>What the owner part looks like once sanitised.\<close>

definition owner_part :: "string \<Rightarrow> bool" where
  "owner_part s \<longleftrightarrow> s \<noteq> [] \<and> list_all dns_char s \<and> hd s \<noteq> CHR ''-''"

section \<open>Lemmas\<close>

lemma dns_char_ascii: "dns_char c \<Longrightarrow> is_ascii c"
  using char_class_ascii by (auto simp: dns_char_def is_ascii_def)

lemma dns_char_not_upper: "dns_char c \<Longrightarrow> \<not> is_upper c"
  by (auto simp: dns_char_def is_lower_def is_upper_def is_digit_def)

lemma dns_char_hyphen [simp]: "dns_char (CHR ''-'')"
  by (simp add: dns_char_def)

lemma removeInvalidDNSChars_dns: "list_all dns_char (removeInvalidDNSChars s)"
  by (auto simp: list_all_iff removeInvalidDNSChars_def)

lemma list_all_mono_set: "list_all P s \<Longrightarrow> set t \<subseteq> set s \<Longrightarrow> list_all P t"
  by (auto simp: list_all_iff)

lemma sanitizeHostname_dns: "list_all dns_char (sanitizeHostname tbl s)"
  unfolding sanitizeHostname_def Let_def
  by (rule list_all_mono_set [OF removeInvalidDNSChars_dns set_strings_Trim])

lemma route_owner_part: "owner_part (route_owner tbl owner)"
proof (cases "sanitizeHostname tbl owner = []")
  case True
  then show ?thesis
    by (simp add: route_owner_def owner_part_def dns_char_def is_lower_def)
next
  case False
  then have "hd (sanitizeHostname tbl owner) \<noteq> CHR ''-''"
    unfolding sanitizeHostname_def Let_def by (rule strings_Trim_ends)
  with False show ?thesis
    by (simp add: route_owner_def owner_part_def sanitizeHostname_dns)
qed

lemma byte_ascii_lower: "byte (ascii_lower c) = (if is_upper c then byte c + 32 else byte c)"
  by (auto simp: ascii_lower_def is_upper_def)

lemma is_alnum_lower:
  assumes "is_alnum c"
  shows "dns_char (ascii_lower c) \<and> ascii_lower c \<noteq> CHR ''-''"
proof -
  have "is_lower (ascii_lower c) \<or> is_digit (ascii_lower c)"
    using assms
    by (auto simp: is_alnum_def is_upper_def is_lower_def is_digit_def byte_ascii_lower)
  then show ?thesis
    by (auto simp: dns_char_def is_lower_def is_digit_def)
qed

lemma is_alnum_ascii: "is_alnum c \<Longrightarrow> is_ascii c"
  using char_class_ascii by (auto simp: is_alnum_def)

lemma id_punct_ascii: "is_ascii (CHR ''_'')" "is_ascii (CHR ''-'')"
  by (simp_all add: is_ascii_def)

lemma validInstanceID_ascii: "validInstanceID s \<Longrightarrow> \<forall>c\<in>set s. is_ascii c"
  by (cases s) (auto simp: validInstanceID_def list_all_iff intro: is_alnum_ascii id_punct_ascii)

text \<open>The identifier part of a valid identifier is not empty and starts with a letter or digit.\<close>

lemma sanitizedID_valid:
  fixes tbl :: "rune \<Rightarrow> rune"
  assumes "validInstanceID s"
  defines "t \<equiv> strings_Trim (CHR ''-'') (removeInvalidDNSChars (strings_ToLower tbl s))"
  shows "t \<noteq> []" and "list_all dns_char t" and "last t \<noteq> CHR ''-''"
proof -
  from assms(1) obtain c cs where s: "s = c # cs" and c: "is_alnum c"
    by (cases s) (auto simp: validInstanceID_def)
  have low: "strings_ToLower tbl s = ascii_lower c # map ascii_lower cs"
    using strings_ToLower_ascii [OF validInstanceID_ascii [OF assms(1)]] s by simp
  then have "removeInvalidDNSChars (strings_ToLower tbl s)
      = ascii_lower c # removeInvalidDNSChars (map ascii_lower cs)"
    using is_alnum_lower [OF c] by (simp add: removeInvalidDNSChars_def)
  then have "t = strings_TrimRight (CHR ''-'')
      (ascii_lower c # removeInvalidDNSChars (map ascii_lower cs))"
    using is_alnum_lower [OF c] by (simp add: t_def strings_Trim_def strings_TrimLeft_id)
  then show "t \<noteq> []"
    using is_alnum_lower [OF c] by (simp add: strings_TrimRight_ne)
  then show "last t \<noteq> CHR ''-''"
    unfolding t_def by (rule strings_Trim_ends)
  show "list_all dns_char t"
    unfolding t_def by (rule list_all_mono_set [OF removeInvalidDNSChars_dns set_strings_Trim])
qed

lemma owner_part_trim:
  assumes "owner_part owner" and "0 < n"
  shows "owner_part (strings_TrimRight (CHR ''-'') (take n owner))"
proof -
  have t: "take n owner \<noteq> []" "hd (take n owner) \<noteq> CHR ''-''"
    using assms by (auto simp: owner_part_def)
  moreover have "set (strings_TrimRight (CHR ''-'') (take n owner)) \<subseteq> set owner"
    using set_strings_TrimRight set_take_subset by (metis order_trans)
  ultimately show ?thesis
    using assms(1) strings_TrimRight_ne [OF t] hd_strings_TrimRight
    by (auto simp: owner_part_def intro: list_all_mono_set)
qed

text \<open>The last step of \<open>uniqueRouteHostname\<close>, for any owner and identifier part.\<close>

lemma route_cut_dns_label:
  fixes owner sid :: string
  assumes "owner_part owner" "sid \<noteq> []" "list_all dns_char sid" "last sid \<noteq> CHR ''-''"
  defines "h \<equiv> ''oc-'' @ owner @ ''-'' @ sid"
  shows "dns_label (if length h > 63 then strings_TrimRight (CHR ''-'') (take 63 h) else h)"
proof -
  have h: "list_all dns_char h" "h \<noteq> []" "hd h \<noteq> CHR ''-''" "last h \<noteq> CHR ''-''"
    using assms by (auto simp: h_def owner_part_def dns_char_def is_lower_def)
  have ne: "strings_TrimRight (CHR ''-'') (take 63 h) \<noteq> []"
    using h by (simp add: strings_TrimRight_ne)
  have "set (strings_TrimRight (CHR ''-'') (take 63 h)) \<subseteq> set h"
    using set_strings_TrimRight set_take_subset by (metis order_trans)
  then show ?thesis
    using h ne last_strings_TrimRight [OF ne] hd_strings_TrimRight [OF ne]
      length_strings_TrimRight [of "CHR ''-''" "take 63 h"]
    by (auto simp: dns_label_def intro: list_all_mono_set)
qed

lemma dns_string_unchanged:
  assumes "list_all dns_char s" "s \<noteq> []" "hd s \<noteq> CHR ''-''" "last s \<noteq> CHR ''-''"
  shows "strings_Trim (CHR ''-'') (removeInvalidDNSChars (strings_ToLower tbl s)) = s"
proof -
  have d: "\<forall>c\<in>set s. dns_char c"
    using assms(1) by (simp add: list_all_iff)
  then have "strings_ToLower tbl s = map ascii_lower s"
    using dns_char_ascii by (simp add: strings_ToLower_ascii)
  also have "map ascii_lower s = s"
    using d dns_char_not_upper by (simp add: ascii_lower_id map_idI)
  finally show ?thesis
    using assms d by (simp add: removeInvalidDNSChars_def filter_all_id strings_Trim_id)
qed

text \<open>With an identifier of at most 58 characters nothing of the identifier is cut off.\<close>

lemma uniqueRouteHostname_safe:
  assumes "owner_part owner" and "route_safe_id i"
  shows "\<exists>p. uniqueRouteHostname tbl owner i = p @ i"
proof -
  have sid: "strings_Trim (CHR ''-'') (removeInvalidDNSChars (strings_ToLower tbl i)) = i"
    using assms(2) by (simp add: route_safe_id_def dns_string_unchanged)
  define n where "n = 59 - length i"
  define ow where "ow = (if length owner > n
     then strings_TrimRight (CHR ''-'') (take n owner) else owner)"
  have n: "63 - 4 - int (length i) = int n" "0 < n" "length i \<le> 58"
    using assms(2) by (auto simp: n_def route_safe_id_def)
  have "length ow \<le> n"
    using length_strings_TrimRight [of "CHR ''-''" "take n owner"] by (auto simp: ow_def)
  then have "length (''oc-'' @ ow @ ''-'' @ i) \<le> 63"
    using n by (simp add: n_def)
  then have "uniqueRouteHostname tbl owner i = (''oc-'' @ ow @ ''-'') @ i"
    using n unfolding uniqueRouteHostname_def Let_def sid ow_def by auto
  then show ?thesis ..
qed

section \<open>Properties\<close>

text \<open>
  C32. The route host name of every accepted instance identifier is a DNS label, whatever the
  owner string and whatever the Unicode case table: at most 63 characters, only lower-case
  letters, digits and hyphens, and no hyphen at either end, also when it had to be cut.
\<close>

theorem uniqueRouteHostname_dns_label:
  assumes "validInstanceID i"
  shows "dns_label (uniqueRouteHostname tbl (route_owner tbl owner) i)"
proof -
  note sid = sanitizedID_valid [OF assms, of tbl]
  have ow: "owner_part (if int (length (route_owner tbl owner)) > n
      then strings_TrimRight (CHR ''-'') (take (nat n) (route_owner tbl owner))
      else route_owner tbl owner)" if "1 \<le> n" for n
    using that route_owner_part owner_part_trim [OF route_owner_part, of "nat n"] by simp
  show ?thesis
    unfolding uniqueRouteHostname_def Let_def
    by (rule route_cut_dns_label [OF ow sid]) simp
qed

theorem uniqueRouteHostname_dns_label_witness:
  "dns_label (uniqueRouteHostname id (route_owner id ''Jane.Doe@example.com'') ''6f9b-A_1'')"
  by (rule uniqueRouteHostname_dns_label)
    (simp add: validInstanceID_def is_alnum_def is_lower_def is_upper_def is_digit_def)

text \<open>
  Host names do not clash for identifiers of one length made of lower-case letters, digits
  and inner hyphens (the UUIDs a platform sends), of at most 58 characters: two instances with
  the same host name have the same identifier, whoever owns them.
\<close>

theorem uniqueRouteHostname_injective:
  assumes "route_safe_id i" "route_safe_id j" "length i = length j"
    and "uniqueRouteHostname tbl (route_owner tbl a) i = uniqueRouteHostname tbl (route_owner tbl b) j"
  shows "i = j"
proof -
  obtain p where "uniqueRouteHostname tbl (route_owner tbl a) i = p @ i"
    using uniqueRouteHostname_safe [OF route_owner_part assms(1)] ..
  moreover obtain q where "uniqueRouteHostname tbl (route_owner tbl b) j = q @ j"
    using uniqueRouteHostname_safe [OF route_owner_part assms(2)] ..
  ultimately show ?thesis
    using assms(3,4) append_eq_same_suffix [of p i q j] by simp
qed

theorem uniqueRouteHostname_injective_witness:
  "uniqueRouteHostname id (route_owner id ''al'') ''a1-b2'' \<noteq>
   uniqueRouteHostname id (route_owner id ''bo'') ''a1-b3''"
proof
  assume "uniqueRouteHostname id (route_owner id ''al'') ''a1-b2'' =
   uniqueRouteHostname id (route_owner id ''bo'') ''a1-b3''"
  then have "''a1-b2'' = ''a1-b3''"
    by (rule uniqueRouteHostname_injective [rotated 3])
      (simp_all add: route_safe_id_def dns_char_def is_lower_def is_digit_def)
  then show False
    by simp
qed

text \<open>
  Outside that shape host names do clash: the two accepted identifiers \<^verbatim>\<open>a_b\<close> and \<^verbatim>\<open>AB\<close>
  get the same host name for every owner, because the identifier is lower-cased and its
  underscores are dropped.
\<close>

theorem uniqueRouteHostname_collision:
  "validInstanceID ''a_b'' \<and> validInstanceID ''AB''
   \<and> uniqueRouteHostname tbl owner ''a_b'' = uniqueRouteHostname tbl owner ''AB''"
proof -
  have "map ascii_lower ''a_b'' = ''a_b''" "map ascii_lower ''AB'' = ''ab''"
    by code_simp+
  then have low: "strings_ToLower tbl ''a_b'' = ''a_b''" "strings_ToLower tbl ''AB'' = ''ab''"
    by (simp_all add: strings_ToLower_ascii is_ascii_def)
  have "removeInvalidDNSChars ''a_b'' = removeInvalidDNSChars ''ab''"
    by (simp add: removeInvalidDNSChars_def dns_char_def is_lower_def is_digit_def)
  then show ?thesis
    by (simp add: uniqueRouteHostname_def low validInstanceID_def is_alnum_def is_lower_def
        is_upper_def is_digit_def)
qed

end
