(* ===== verification/Go_Encoding.thy ===== *)
theory Go_Encoding
  imports Go_Strings
begin

text \<open>
  The encodings the broker uses: decimal numbers (\<^verbatim>\<open>fmt %d\<close>, \<^verbatim>\<open>strconv.Atoi\<close> and the
  \<^verbatim>\<open>%d\<close> verb of \<^verbatim>\<open>fmt.Sscanf\<close>), \<^verbatim>\<open>encoding/hex\<close> and the two variants of
  \<^verbatim>\<open>encoding/base64\<close>. The interface \<open>codec\<close> states what a client relies on, that decoding
  undoes encoding, and gives injectivity; each encoding interprets it.
\<close>

section \<open>The interface of an encoding\<close>

locale codec =
  fixes enc :: "'a \<Rightarrow> string"
    and dec :: "string \<Rightarrow> 'a option"
    and dom_ok :: "'a \<Rightarrow> bool"
  assumes dec_enc: "dom_ok x \<Longrightarrow> dec (enc x) = Some x"
begin

lemma enc_inject: "dom_ok x \<Longrightarrow> dom_ok y \<Longrightarrow> enc x = enc y \<longleftrightarrow> x = y"
  by (metis dec_enc option.inject)

lemma prefixed_inject: "dom_ok x \<Longrightarrow> dom_ok y \<Longrightarrow> p @ enc x = p @ enc y \<longleftrightarrow> x = y"
  by (simp add: enc_inject)

end

text \<open>An encoding of byte strings whose output length and alphabet are known.\<close>

locale text_codec = codec enc dec dom_ok
  for enc :: "bytes \<Rightarrow> string" and dec and dom_ok +
  fixes out_len :: "nat \<Rightarrow> nat"
    and alphabet :: "char \<Rightarrow> bool"
  assumes enc_length: "length (enc x) = out_len (length x)"
    and enc_alphabet: "c \<in> set (enc x) \<Longrightarrow> alphabet c"
begin

lemma prefixed_length: "length (p @ enc x) = length p + out_len (length x)"
  by (simp add: enc_length)

lemma prefixed_alphabet: "list_all alphabet p \<Longrightarrow> list_all alphabet (p @ enc x)"
  using enc_alphabet by (auto simp: list_all_iff)

end

section \<open>Decimal numbers\<close>

definition digit_char :: "nat \<Rightarrow> char" where
  "digit_char d = char_of (48 + d)"

definition digit_val :: "char \<Rightarrow> nat" where
  "digit_val c = byte c - 48"

fun nat_digits :: "nat \<Rightarrow> string" where
  "nat_digits n = (if n < 10 then [digit_char n] else nat_digits (n div 10) @ [digit_char (n mod 10)])"

declare nat_digits.simps [simp del]

text \<open>\<^verbatim>\<open>%d\<close> of a Go \<^verbatim>\<open>int\<close>.\<close>

definition itoa :: "int \<Rightarrow> string" where
  "itoa i = (if i < 0 then CHR ''-'' # nat_digits (nat (- i)) else nat_digits (nat i))"

definition digits_value :: "string \<Rightarrow> nat" where
  "digits_value s = foldl (\<lambda>acc c. 10 * acc + digit_val c) 0 s"

definition int64_range :: "int \<Rightarrow> bool" where
  "int64_range i \<longleftrightarrow> - (2 ^ 63) \<le> i \<and> i < 2 ^ 63"

text \<open>Two's complement wrap-around of Go's \<^verbatim>\<open>int\<close> arithmetic (64 bits).\<close>

definition wrap64 :: "int \<Rightarrow> int" where
  "wrap64 i = (i + 2 ^ 63) mod 2 ^ 64 - 2 ^ 63"

datatype num_error = ErrSyntax | ErrRange

text \<open>
  \<^verbatim>\<open>strconv.Atoi\<close>: an optional sign, then one or more decimal digits and nothing else; a value
  outside 64 bits is \<open>ErrRange\<close>.
\<close>

definition strconv_Atoi :: "string \<Rightarrow> num_error + int" where
  "strconv_Atoi s =
    (let neg = (case s of c # _ \<Rightarrow> c = CHR ''-'' | [] \<Rightarrow> False);
         body = (case s of c # cs \<Rightarrow> if c = CHR ''-'' \<or> c = CHR ''+'' then cs else s | [] \<Rightarrow> [])
     in if body = [] \<or> \<not> list_all is_digit body then Inl ErrSyntax
        else let v = (if neg then - int (digits_value body) else int (digits_value body))
             in if int64_range v then Inr v else Inl ErrRange)"

text \<open>
  The \<^verbatim>\<open>%d\<close> verb of \<^verbatim>\<open>fmt.Sscanf\<close>: white space is skipped, a newline there is an error, then
  an optional sign and the longest run of digits; what follows the number is not looked at.
\<close>

fun scan_skip_space :: "(rune \<times> bytes) list \<Rightarrow> string option" where
  "scan_skip_space [] = None"
| "scan_skip_space ((r, b) # rest) =
    (if r = 10 then None
     else if unicode_IsSpace r then scan_skip_space rest
     else Some (concat (map snd ((r, b) # rest))))"

definition scan_int :: "string \<Rightarrow> int option" where
  "scan_int s =
    (case scan_skip_space (utf8_runes s) of
       None \<Rightarrow> None
     | Some t \<Rightarrow>
        (let neg = (case t of c # _ \<Rightarrow> c = CHR ''-'' | [] \<Rightarrow> False);
             body = (case t of c # cs \<Rightarrow> if c = CHR ''-'' \<or> c = CHR ''+'' then cs else t | [] \<Rightarrow> []);
             ds = takeWhile is_digit body
         in if ds = [] then None
            else let v = (if neg then - int (digits_value ds) else int (digits_value ds))
                 in if int64_range v then Some v else None))"

lemma digit_char_digit: "d < 10 \<Longrightarrow> is_digit (digit_char d)"
  by (simp add: is_digit_def digit_char_def)

lemma digit_val_char: "d < 10 \<Longrightarrow> digit_val (digit_char d) = d"
  by (simp add: digit_val_def digit_char_def)

lemma nat_digits_ne [simp]: "nat_digits n \<noteq> []"
  by (subst nat_digits.simps) simp

lemma nat_digits_digits: "c \<in> set (nat_digits n) \<Longrightarrow> is_digit c"
  by (induction n rule: nat_digits.induct)
    (subst (asm) (2) nat_digits.simps, auto simp: digit_char_digit split: if_splits)

lemma digits_value_snoc [simp]: "digits_value (s @ [c]) = 10 * digits_value s + digit_val c"
  by (simp add: digits_value_def)

lemma digits_value_nat_digits: "digits_value (nat_digits n) = n"
proof (induction n rule: nat_digits.induct)
  case (1 n)
  show ?case
  proof (cases "n < 10")
    case True
    then show ?thesis
      by (subst nat_digits.simps) (simp add: digits_value_def digit_val_char)
  next
    case False
    then show ?thesis
      using 1 by (subst nat_digits.simps) (simp add: digit_val_char)
  qed
qed

lemma not_digit_sign [simp]: "\<not> is_digit (CHR ''-'')" "\<not> is_digit (CHR ''+'')"
  by (simp_all add: is_digit_def)

lemma nat_digits_hd: "\<exists>c cs. nat_digits n = c # cs \<and> c \<noteq> CHR ''-'' \<and> c \<noteq> CHR ''+''"
proof -
  obtain c cs where "nat_digits n = c # cs"
    by (cases "nat_digits n") auto
  moreover then have "is_digit c"
    using nat_digits_digits [of c n] by simp
  ultimately show ?thesis
    using not_digit_sign by metis
qed

lemma list_all_nat_digits [simp]: "list_all is_digit (nat_digits n)"
  by (simp add: list_all_iff nat_digits_digits)

text \<open>Printing an \<^verbatim>\<open>int\<close> and reading it back.\<close>

lemma strconv_Atoi_itoa:
  assumes "int64_range i"
  shows "strconv_Atoi (itoa i) = Inr i"
proof (cases "i < 0")
  case True
  then show ?thesis
    using assms by (simp add: strconv_Atoi_def itoa_def digits_value_nat_digits)
next
  case False
  obtain c cs where c: "nat_digits (nat i) = c # cs" "c \<noteq> CHR ''-''" "c \<noteq> CHR ''+''"
    using nat_digits_hd by blast
  then have "list_all is_digit (c # cs)" "digits_value (c # cs) = nat i"
    using list_all_nat_digits [of "nat i"] digits_value_nat_digits [of "nat i"] by simp_all
  then show ?thesis
    using False assms c by (simp add: strconv_Atoi_def itoa_def)
qed

lemma itoa_chars: "c \<in> set (itoa i) \<Longrightarrow> c = CHR ''-'' \<or> is_digit c"
  by (auto simp: itoa_def nat_digits_digits split: if_splits)

interpretation decimal: codec itoa "\<lambda>s. case strconv_Atoi s of Inr i \<Rightarrow> Some i | Inl _ \<Rightarrow> None"
    int64_range
  by unfold_locales (simp add: strconv_Atoi_itoa)

lemma not_digit_space: "is_digit c \<Longrightarrow> \<not> unicode_IsSpace (byte c) \<and> byte c \<noteq> 10"
  by (auto simp: is_digit_def unicode_IsSpace_def)

lemma scan_skip_space_ascii:
  assumes "is_ascii c" and "\<not> unicode_IsSpace (byte c)" and "byte c \<noteq> 10"
  shows "scan_skip_space (utf8_runes (c # cs)) = Some (c # cs)"
  using assms by (simp add: utf8_runes_concat)

lemma takeWhile_digits_append:
  "list_all is_digit ds \<Longrightarrow> rest = [] \<or> \<not> is_digit (hd rest) \<Longrightarrow> takeWhile is_digit (ds @ rest) = ds"
  by (cases rest) (auto simp: list_all_iff takeWhile_append)

text \<open>A printed number followed by anything that is not a digit is read back by \<^verbatim>\<open>%d\<close>.\<close>

lemma scan_int_itoa:
  assumes "int64_range i" and "rest = [] \<or> \<not> is_digit (hd rest)"
  shows "scan_int (itoa i @ rest) = Some i"
proof (cases "i < 0")
  case True
  have "scan_skip_space (utf8_runes (itoa i @ rest)) = Some (itoa i @ rest)"
    using True by (simp add: itoa_def is_ascii_def unicode_IsSpace_def utf8_runes_concat)
  then show ?thesis
    using True assms
    by (simp add: scan_int_def itoa_def Let_def takeWhile_digits_append digits_value_nat_digits)
next
  case False
  obtain c cs where c: "nat_digits (nat i) = c # cs" "c \<noteq> CHR ''-''" "c \<noteq> CHR ''+''"
    using nat_digits_hd by blast
  then have "is_digit c"
    using nat_digits_digits [of c "nat i"] by simp
  then have skip: "scan_skip_space (utf8_runes (itoa i @ rest)) = Some (itoa i @ rest)"
    using False c not_digit_space [of c] char_class_ascii(1) [of c] scan_skip_space_ascii [of c]
    by (simp add: itoa_def del: utf8_runes.simps)
  have "takeWhile is_digit (c # cs @ rest) = c # cs"
    using takeWhile_digits_append [of "c # cs" rest] assms(2) list_all_nat_digits [of "nat i"] c
    by simp
  moreover have "digits_value (c # cs) = nat i"
    using digits_value_nat_digits [of "nat i"] c by simp
  moreover have "itoa i @ rest = c # cs @ rest"
    using False c by (simp add: itoa_def)
  ultimately show ?thesis
    using False assms(1) c(2,3) skip
    by (simp add: scan_int_def del: takeWhile.simps utf8_runes.simps)
qed

lemma scan_int_range: "scan_int s = Some i \<Longrightarrow> int64_range i"
  by (auto simp: scan_int_def Let_def split: option.splits if_splits)

section \<open>Hexadecimal\<close>

definition hex_char :: "nat \<Rightarrow> char" where
  "hex_char n = (if n < 10 then char_of (48 + n) else char_of (87 + n))"

definition hex_val :: "char \<Rightarrow> nat" where
  "hex_val c = (if is_digit c then byte c - 48 else byte c - 87)"

definition is_hex :: "char \<Rightarrow> bool" where
  "is_hex c \<longleftrightarrow> is_digit c \<or> 97 \<le> byte c \<and> byte c \<le> 102"

text \<open>\<^verbatim>\<open>hex.EncodeToString\<close> and its inverse.\<close>

fun hex_EncodeToString :: "bytes \<Rightarrow> string" where
  "hex_EncodeToString [] = []"
| "hex_EncodeToString (c # cs) =
     hex_char (byte c div 16) # hex_char (byte c mod 16) # hex_EncodeToString cs"

fun hex_DecodeString :: "string \<Rightarrow> bytes option" where
  "hex_DecodeString [] = Some []"
| "hex_DecodeString [_] = None"
| "hex_DecodeString (a # b # cs) =
    (if is_hex a \<and> is_hex b
     then map_option (\<lambda>t. char_of (hex_val a * 16 + hex_val b) # t) (hex_DecodeString cs)
     else None)"

lemma hex_char_ok: "n < 16 \<Longrightarrow> is_hex (hex_char n) \<and> hex_val (hex_char n) = n"
  by (auto simp: is_hex_def hex_char_def hex_val_def is_digit_def)

lemma nibble_bounds: "byte c div 16 < 16" "byte c mod 16 < 16"
  using nat_of_char_less_256 [of c] by (simp_all add: less_mult_imp_div_less)

lemma hex_decode_encode: "hex_DecodeString (hex_EncodeToString s) = Some s"
  by (induction s) (auto simp: hex_char_ok nibble_bounds char_of_char)

lemma hex_length: "length (hex_EncodeToString s) = 2 * length s"
  by (induction s) auto

lemma hex_alphabet: "c \<in> set (hex_EncodeToString s) \<Longrightarrow> is_hex c"
  by (induction s) (auto simp: hex_char_ok nibble_bounds)

interpretation hex: text_codec hex_EncodeToString hex_DecodeString "\<lambda>_. True" "\<lambda>n. 2 * n" is_hex
  by unfold_locales (simp_all add: hex_decode_encode hex_length hex_alphabet)

section \<open>Base64\<close>

text \<open>The URL-safe alphabet (\<^verbatim>\<open>base64.RawURLEncoding\<close>, no padding).\<close>

definition b64url_char :: "nat \<Rightarrow> char" where
  "b64url_char n =
    (if n < 26 then char_of (65 + n) else if n < 52 then char_of (71 + n)
     else if n < 62 then char_of (n - 4) else if n = 62 then CHR ''-'' else CHR ''_'')"

definition b64url_val :: "char \<Rightarrow> nat option" where
  "b64url_val c =
    (if is_upper c then Some (byte c - 65) else if is_lower c then Some (byte c - 71)
     else if is_digit c then Some (byte c + 4) else if c = CHR ''-'' then Some 62
     else if c = CHR ''_'' then Some 63 else None)"

definition is_b64url :: "char \<Rightarrow> bool" where
  "is_b64url c \<longleftrightarrow> is_upper c \<or> is_lower c \<or> is_digit c \<or> c = CHR ''-'' \<or> c = CHR ''_''"

fun b64_RawURL :: "bytes \<Rightarrow> string" where
  "b64_RawURL [] = []"
| "b64_RawURL [a] = [b64url_char (byte a div 4), b64url_char (byte a mod 4 * 16)]"
| "b64_RawURL [a, b] =
    [b64url_char (byte a div 4), b64url_char (byte a mod 4 * 16 + byte b div 16),
     b64url_char (byte b mod 16 * 4)]"
| "b64_RawURL (a # b # c # r) =
    b64url_char (byte a div 4) # b64url_char (byte a mod 4 * 16 + byte b div 16)
    # b64url_char (byte b mod 16 * 4 + byte c div 64) # b64url_char (byte c mod 64) # b64_RawURL r"

fun b64_RawURL_decode :: "string \<Rightarrow> bytes option" where
  "b64_RawURL_decode [] = Some []"
| "b64_RawURL_decode [_] = None"
| "b64_RawURL_decode [w, x] =
    (case (b64url_val w, b64url_val x) of
       (Some i, Some j) \<Rightarrow> Some [char_of (i * 4 + j div 16)]
     | _ \<Rightarrow> None)"
| "b64_RawURL_decode [w, x, y] =
    (case (b64url_val w, b64url_val x, b64url_val y) of
       (Some i, Some j, Some k) \<Rightarrow> Some [char_of (i * 4 + j div 16), char_of (j mod 16 * 16 + k div 4)]
     | _ \<Rightarrow> None)"
| "b64_RawURL_decode (w # x # y # z # r) =
    (case (b64url_val w, b64url_val x, b64url_val y, b64url_val z) of
       (Some i, Some j, Some k, Some l) \<Rightarrow>
         map_option (\<lambda>t. char_of (i * 4 + j div 16) # char_of (j mod 16 * 16 + k div 4)
                          # char_of (k mod 4 * 64 + l) # t) (b64_RawURL_decode r)
     | _ \<Rightarrow> None)"

lemma b64url_val_char: "n < 64 \<Longrightarrow> b64url_val (b64url_char n) = Some n"
  by (auto simp: b64url_val_def b64url_char_def is_upper_def is_lower_def is_digit_def)

lemma b64url_char_alphabet: "n < 64 \<Longrightarrow> is_b64url (b64url_char n)"
  by (auto simp: is_b64url_def b64url_char_def is_upper_def is_lower_def is_digit_def)

lemma byte_div:
  "byte c div 4 < 64" "byte c div 16 < 16" "byte c div 64 < 4"
  "byte c div 16 div 16 = 0" "byte c div 64 div 4 = 0"
  "byte c div 16 mod 16 = byte c div 16" "byte c div 64 mod 4 = byte c div 64"
  using nat_of_char_less_256 [of c]
  by (simp_all add: less_mult_imp_div_less flip: div_mult2_eq)

lemma sextet_bounds:
  "byte a div 4 < 64" "byte a mod 4 * 16 < 64" "byte a mod 4 * 16 + byte b div 16 < 64"
  "byte b mod 16 * 4 < 64" "byte b mod 16 * 4 + byte c div 64 < 64" "byte c mod 64 < 64"
  using byte_div(1) [of a] byte_div(2) [of b] byte_div(3) [of c]
    mod_less_divisor [of 4 "byte a"] mod_less_divisor [of 16 "byte b"] by simp_all

lemma b64_decode_encode: "b64_RawURL_decode (b64_RawURL s) = Some s"
  by (induction s rule: b64_RawURL.induct)
    (simp_all add: b64url_val_char sextet_bounds char_of_char byte_div)

lemma b64_alphabet: "c \<in> set (b64_RawURL s) \<Longrightarrow> is_b64url c"
  by (induction s rule: b64_RawURL.induct) (auto simp: b64url_char_alphabet sextet_bounds)

lemma b64_length: "length (b64_RawURL s) = (4 * length s + 2) div 3"
  by (induction s rule: b64_RawURL.induct) auto

interpretation b64: text_codec b64_RawURL b64_RawURL_decode "\<lambda>_. True" "\<lambda>n. (4 * n + 2) div 3"
    is_b64url
  by unfold_locales (simp_all add: b64_decode_encode b64_length b64_alphabet)

end
