(* ===== verification/Manifest.thy ===== *)
theory Manifest
  imports Go_Encoding
begin

text \<open>
  The deployment manifest of an agent (\<^verbatim>\<open>bosh/manifest.go\<close>). The text template is a function
  from the parameters to the list of lines it renders, one definition per block of the template;
  \<^verbatim>\<open>{{- if\<close> and \<^verbatim>\<open>{{- range\<close> trim the line break before them, so a conditional block adds whole
  lines or none. The specification is how YAML reads a double-quoted scalar (\<open>yaml_dq\<close>): a
  sanitised value is one scalar and cannot add a line.
\<close>

section \<open>Model\<close>

abbreviation quote :: char where
  "quote \<equiv> CHR 0x22"

abbreviation backslash :: char where
  "backslash \<equiv> CHR 0x5C"

text \<open>\<^verbatim>\<open>ManifestParams\<close>; the fields carry the prefix \<open>m_\<close>.\<close>

record ManifestParams =
  m_DeploymentName :: string
  m_ID :: string
  m_Owner :: string
  m_PlanName :: string
  m_GatewayToken :: string
  m_NodeSeed :: string
  m_RouteHostname :: string
  m_VMType :: string
  m_DiskType :: string
  m_SSOEnabled :: bool
  m_OpenClawVersion :: string
  m_SandboxMode :: string
  m_Network :: string
  m_AZs :: "string list"
  m_StemcellOS :: string
  m_StemcellVersion :: string
  m_CFDeploymentName :: string
  m_OpenClawReleaseVersion :: string
  m_BPMReleaseVersion :: string
  m_RoutingReleaseVersion :: string
  m_AppsDomain :: string
  m_SSOClientID :: string
  m_SSOClientSecret :: string
  m_SSOCookieSecret :: string
  m_SSOOIDCIssuerURL :: string
  m_LLMProvider :: string
  m_LLMEndpoint :: string
  m_LLMAPIKey :: string
  m_LLMModel :: string
  m_LLMPreferredModel :: string
  m_LLMAPIEndpoint :: string
  m_BrowserEnabled :: bool
  m_BlockedCommands :: "string list"
  m_NATSTLSClientCert :: string
  m_NATSTLSClientKey :: string
  m_NATSTLSCACert :: string
  m_SSOAllowedEmailDomains :: string
  m_SSOSessionTimeoutHours :: int

definition AZsYAML :: "ManifestParams \<Rightarrow> string" where
  "AZsYAML p = strings_Join '', '' (m_AZs p)"

text \<open>
  \<^verbatim>\<open>unsafeYAMLChars\<close> is \<^verbatim>\<open>[^\x20-\x7E]\<close>; every byte of a non-ASCII rune is outside the class, so
  the removal is a bytewise filter.
\<close>

definition yaml_printable :: "char \<Rightarrow> bool" where
  "yaml_printable c \<longleftrightarrow> 0x20 \<le> byte c \<and> byte c \<le> 0x7E"

definition sanitizeForYAML :: "string \<Rightarrow> string" where
  "sanitizeForYAML s =
    (let s = strings_ReplaceAll backslash [backslash, backslash] s;
         s = strings_ReplaceAll quote [backslash, quote] s
     in filter yaml_printable s)"

definition indentPEM :: "nat \<Rightarrow> string \<Rightarrow> string" where
  "indentPEM spaces s =
    (if s = [] then []
     else let pad = replicate spaces (CHR '' '');
              lines = strings_Split newline (strings_TrimRight newline s)
          in strings_Join [newline] (map (\<lambda>l. pad @ l) lines))"

text \<open>A value between double quotes, and a line that is there under a condition.\<close>

definition dq :: "string \<Rightarrow> string" where
  "dq s = quote # s @ [quote]"

definition lines_if :: "bool \<Rightarrow> string list \<Rightarrow> string list" where
  "lines_if b ls = (if b then ls else [])"

definition show_bool :: "bool \<Rightarrow> string" where
  "show_bool b = (if b then ''true'' else ''false'')"

definition manifest_head :: "ManifestParams \<Rightarrow> string list" where
  "manifest_head p =
    [''---'',
     ''name: '' @ m_DeploymentName p,
     '''',
     ''instance_groups:'',
     ''  - name: agent'',
     ''    instances: 1'',
     ''    jobs:'',
     ''      - name: bpm'',
     ''        release: bpm'',
     '''',
     ''      - name: openclaw-agent'',
     ''        release: openclaw'',
     ''        properties:'',
     ''          openclaw:'',
     ''            version: '' @ dq (m_OpenClawVersion p),
     ''            gateway:'',
     ''              token: '' @ dq (m_GatewayToken p),
     ''            security:'',
     ''              sandbox_mode: '' @ m_SandboxMode p]
    @ lines_if (m_BlockedCommands p \<noteq> [])
        (''              blocked_commands:''
         # map (\<lambda>c. ''                - '' @ dq c) (m_BlockedCommands p))"

definition manifest_llm :: "ManifestParams \<Rightarrow> string list" where
  "manifest_llm p =
    (let hasEndpoint = m_LLMEndpoint p \<noteq> [] \<or> m_LLMAPIEndpoint p \<noteq> [] in
     lines_if (m_LLMProvider p \<noteq> [])
      ([''            llm:'',
        ''              provider: '' @ dq (m_LLMProvider p)]
       @ lines_if hasEndpoint
          ([''              genai:'']
           @ (if m_LLMEndpoint p \<noteq> []
              then [''                endpoint: '' @ dq (m_LLMEndpoint p)]
              else lines_if (m_LLMAPIEndpoint p \<noteq> [])
                     [''                endpoint: '' @ dq (m_LLMAPIEndpoint p)])
           @ lines_if (m_LLMAPIKey p \<noteq> []) [''                api_key: '' @ dq (m_LLMAPIKey p)]
           @ lines_if (m_LLMModel p \<noteq> []) [''                model: '' @ dq (m_LLMModel p)])
       @ lines_if (\<not> hasEndpoint)
          (lines_if (m_LLMAPIKey p \<noteq> [])
            ([''              genai:'',
              ''                api_key: '' @ dq (m_LLMAPIKey p)]
             @ lines_if (m_LLMModel p \<noteq> []) [''                model: '' @ dq (m_LLMModel p)]))
       @ lines_if (m_LLMPreferredModel p \<noteq> [])
          [''              model_override: '' @ dq (m_LLMPreferredModel p)]))"

text \<open>The lines from the browser setting to the instance identifier, before the owner line.\<close>

definition manifest_instance :: "ManifestParams \<Rightarrow> string list" where
  "manifest_instance p =
    [''            browser:'',
     ''              enabled: '' @ show_bool (m_BrowserEnabled p),
     ''            node:'',
     ''              enabled: true'',
     ''              seed: '' @ dq (m_NodeSeed p),
     ''            instance:'',
     ''              id: '' @ dq (m_ID p)]"

definition manifest_owner :: "string \<Rightarrow> string" where
  "manifest_owner owner = ''              owner: '' @ dq owner"

definition manifest_route :: "ManifestParams \<Rightarrow> string list" where
  "manifest_route p =
    [''              plan: '' @ dq (m_PlanName p),
     ''            route:'',
     ''              hostname: '' @ dq (m_RouteHostname p),
     ''              domain: '' @ dq (m_AppsDomain p)]
    @ lines_if (m_SSOEnabled p)
       [''            sso:'',
        ''              enabled: true'']"

definition manifest_sso :: "ManifestParams \<Rightarrow> string list" where
  "manifest_sso p =
    '''' # lines_if (m_SSOEnabled p)
     ([''      - name: openclaw-sso-proxy'',
       ''        release: openclaw'',
       ''        properties:'',
       ''          openclaw:'',
       ''            sso_proxy:'',
       ''              listen_port: 8080'',
       ''              upstream_port: 8081'',
       ''              client_id: '' @ dq (m_SSOClientID p),
       ''              client_secret: '' @ dq (m_SSOClientSecret p),
       ''              cookie_secret: '' @ dq (m_SSOCookieSecret p),
       ''              redirect_url: ''
         @ dq (''https://'' @ m_RouteHostname p @ ''.'' @ m_AppsDomain p @ ''/oauth2/callback'')]
      @ lines_if (m_SSOOIDCIssuerURL p \<noteq> [])
         [''              oidc_issuer_url: '' @ dq (m_SSOOIDCIssuerURL p)]
      @ lines_if (m_SSOSessionTimeoutHours p \<noteq> 0)
         [''              session_timeout: '' @ dq (itoa (m_SSOSessionTimeoutHours p) @ ''h'')]
      @ [''''])"

definition manifest_registrar :: "ManifestParams \<Rightarrow> string list" where
  "manifest_registrar p =
    [''      - name: route_registrar'',
     ''        release: routing'',
     ''        consumes:'',
     ''          nats-tls:'',
     ''            from: nats-tls'',
     ''            deployment: '' @ m_CFDeploymentName p,
     ''        properties:'',
     ''          nats:'',
     ''            tls:'',
     ''              enabled: true'']
    @ lines_if (m_NATSTLSClientCert p \<noteq> [])
       [''              client_cert: |'', indentPEM 16 (m_NATSTLSClientCert p)]
    @ lines_if (m_NATSTLSClientKey p \<noteq> [])
       [''              client_key: |'', indentPEM 16 (m_NATSTLSClientKey p)]
    @ lines_if (m_NATSTLSCACert p \<noteq> [])
       [''              ca_cert: |'', indentPEM 16 (m_NATSTLSCACert p)]
    @ [''          route_registrar:'',
       ''            routes:'',
       ''              - name: '' @ dq (''openclaw-'' @ m_ID p),
       ''                registration_interval: 20s'',
       ''                port: 8080'',
       ''                uris:'',
       ''                  - '' @ dq (m_RouteHostname p @ ''.'' @ m_AppsDomain p)]"

definition manifest_tail :: "ManifestParams \<Rightarrow> string list" where
  "manifest_tail p =
    ['''',
     ''    vm_type: '' @ m_VMType p,
     ''    stemcell: default'',
     ''    azs: ['' @ AZsYAML p @ '']'',
     ''    persistent_disk_type: '' @ m_DiskType p,
     ''    networks:'',
     ''      - name: '' @ m_Network p,
     '''',
     ''stemcells:'',
     ''  - alias: default'',
     ''    os: '' @ m_StemcellOS p,
     ''    version: '' @ dq (m_StemcellVersion p),
     '''',
     ''releases:'',
     ''  - name: openclaw'',
     ''    version: '' @ dq (m_OpenClawReleaseVersion p),
     ''  - name: bpm'',
     ''    version: '' @ dq (m_BPMReleaseVersion p),
     ''  - name: routing'',
     ''    version: '' @ dq (m_RoutingReleaseVersion p),
     '''',
     ''update:'',
     ''  canaries: 1'',
     ''  max_in_flight: 1'',
     ''  canary_watch_time: 30000-120000'',
     ''  update_watch_time: 30000-120000'',
     '''']"

text \<open>\<^verbatim>\<open>agentManifestTemplate\<close> applied to the parameters, as lines.\<close>

definition manifest_lines :: "ManifestParams \<Rightarrow> string list" where
  "manifest_lines p =
     manifest_head p @ manifest_llm p @ manifest_instance p @ [manifest_owner (m_Owner p)]
     @ manifest_route p @ manifest_sso p @ manifest_registrar p @ manifest_tail p"

text \<open>The fields \<^verbatim>\<open>RenderAgentManifest\<close> sanitises before it renders.\<close>

definition sanitize_params :: "ManifestParams \<Rightarrow> ManifestParams" where
  "sanitize_params p = p\<lparr>
     m_Owner := sanitizeForYAML (m_Owner p),
     m_RouteHostname := sanitizeForYAML (m_RouteHostname p),
     m_SSOClientID := sanitizeForYAML (m_SSOClientID p),
     m_SSOClientSecret := sanitizeForYAML (m_SSOClientSecret p),
     m_SSOCookieSecret := sanitizeForYAML (m_SSOCookieSecret p),
     m_SSOOIDCIssuerURL := sanitizeForYAML (m_SSOOIDCIssuerURL p),
     m_LLMProvider := sanitizeForYAML (m_LLMProvider p),
     m_LLMEndpoint := sanitizeForYAML (m_LLMEndpoint p),
     m_LLMAPIKey := sanitizeForYAML (m_LLMAPIKey p),
     m_LLMModel := sanitizeForYAML (m_LLMModel p),
     m_LLMPreferredModel := sanitizeForYAML (m_LLMPreferredModel p),
     m_LLMAPIEndpoint := sanitizeForYAML (m_LLMAPIEndpoint p),
     m_BlockedCommands := map sanitizeForYAML (m_BlockedCommands p)\<rparr>"

text \<open>
  \<^verbatim>\<open>RenderAgentManifest\<close>. The template is a constant that parses and every field it names exists,
  so neither \<^verbatim>\<open>Parse\<close> nor \<^verbatim>\<open>Execute\<close> can fail; the result keeps Go's \<^verbatim>\<open>([]byte, error)\<close> shape.
\<close>

definition RenderAgentManifest :: "ManifestParams \<Rightarrow> string + bytes" where
  "RenderAgentManifest p = Inr (strings_Join [newline] (manifest_lines (sanitize_params p)))"

section \<open>Specification: YAML double-quoted scalars\<close>

text \<open>
  \<open>yaml_dq s\<close> reads a scalar after its opening quote: the value up to the closing quote, and the
  text behind it. Only the two escapes the sanitiser writes are read; a character that is not
  printable ASCII (a line break among them) is refused.
\<close>

fun yaml_dq :: "string \<Rightarrow> (string \<times> string) option" where
  "yaml_dq [] = None"
| "yaml_dq (c # cs) =
    (if c = quote then Some ([], cs)
     else if c = backslash then
       (case cs of
          [] \<Rightarrow> None
        | d # ds \<Rightarrow> if d = quote \<or> d = backslash
            then map_option (\<lambda>(v, r). (d # v, r)) (yaml_dq ds) else None)
     else if yaml_printable c then map_option (\<lambda>(v, r). (c # v, r)) (yaml_dq cs)
     else None)"

section \<open>Lemmas\<close>

lemma lines_if_simps [simp]: "lines_if True ls = ls" "lines_if False ls = []"
  by (simp_all add: lines_if_def)

lemma printable_escapes [simp]: "yaml_printable quote" "yaml_printable backslash"
  by (simp_all add: yaml_printable_def)

lemma newline_not_printable [simp]: "\<not> yaml_printable newline"
  by (simp add: yaml_printable_def)

lemma sanitizeForYAML_Nil [simp]: "sanitizeForYAML [] = []"
  by (simp add: sanitizeForYAML_def strings_ReplaceAll_def)

lemma sanitizeForYAML_Cons:
  "sanitizeForYAML (c # cs) =
    (if c = backslash then [backslash, backslash]
     else if c = quote then [backslash, quote]
     else if yaml_printable c then [c] else []) @ sanitizeForYAML cs"
  by (simp add: sanitizeForYAML_def strings_ReplaceAll_def)

lemma sanitizeForYAML_printable: "c \<in> set (sanitizeForYAML s) \<Longrightarrow> yaml_printable c"
  by (simp add: sanitizeForYAML_def Let_def)

lemma sanitizeForYAML_no_newline: "newline \<notin> set (sanitizeForYAML s)"
  using sanitizeForYAML_printable newline_not_printable by blast

lemma strings_Split_append_sep:
  "strings_Split sep (s @ sep # t) = strings_Split sep s @ strings_Split sep t"
proof (induction s)
  case (Cons c cs)
  then show ?case
    by (cases "strings_Split sep cs") auto
qed simp

lemma strings_Split_Join_concat:
  "xs \<noteq> [] \<Longrightarrow> strings_Split sep (strings_Join [sep] xs) = concat (map (strings_Split sep) xs)"
proof (induction xs)
  case (Cons x xs)
  then show ?case
    by (cases "xs = []") (simp_all add: strings_Join_Cons strings_Split_append_sep)
qed simp

lemma manifest_lines_ne [simp]: "manifest_lines p \<noteq> []"
  by (simp add: manifest_lines_def manifest_head_def)

text \<open>The lines of the rendered text: each template line, split where a value holds a line break.\<close>

lemma RenderAgentManifest_lines:
  "\<exists>m. RenderAgentManifest p = Inr m \<and>
   strings_Split newline m = concat (map (strings_Split newline) (manifest_lines (sanitize_params p)))"
  by (simp add: RenderAgentManifest_def strings_Split_Join_concat)

lemma dq_no_newline: "newline \<notin> set s \<Longrightarrow> newline \<notin> set (dq s)"
  by (simp add: dq_def)

lemmas manifest_blocks =
  manifest_head_def manifest_llm_def manifest_instance_def manifest_route_def
  manifest_sso_def manifest_registrar_def manifest_tail_def AZsYAML_def

section \<open>Properties\<close>

text \<open>
  The YAML sanitiser: between double quotes, a sanitised string is read as one scalar that ends
  at the quote the template wrote, whatever the input holds, and its value is the input with the
  characters outside printable ASCII removed. No input can close the quotes early.
\<close>

theorem sanitizeForYAML_scalar:
  "yaml_dq (sanitizeForYAML s @ quote # rest) = Some (filter yaml_printable s, rest)"
  by (induction s) (auto simp: sanitizeForYAML_Cons)


end
