(* ===== verification/Security.thy ===== *)
theory Security
  imports Go_Encoding
begin

text \<open>
  Package \<^verbatim>\<open>security\<close> (\<^verbatim>\<open>token.go\<close>, \<^verbatim>\<open>policy.go\<close>): the credentials of an agent, the minimum
  version gate for CVE-2026-25253 and the WebSocket origin check. Go errors are values of a
  datatype that carries what the error text is formatted from. The version gate compares three
  integers; its specification is a linear order on versions, which the type \<open>version\<close>
  instantiates.
\<close>

section \<open>Credentials\<close>

text \<open>The text of a credential as a function of the 32 random bytes read for it.\<close>

definition gateway_token :: "bytes \<Rightarrow> string" where
  "gateway_token b = ''oc_tok_'' @ b64_RawURL b"

definition node_seed :: "bytes \<Rightarrow> string" where
  "node_seed b = ''seed_'' @ b64_RawURL b"

text \<open>
  The exported functions: \<^verbatim>\<open>rand.Read\<close> answers an error or the bytes, an error panics
  (\<open>Inl\<close> holds the panic message).
\<close>

definition GenerateGatewayToken :: "string + bytes \<Rightarrow> string + string" where
  "GenerateGatewayToken rd =
    (case rd of Inl e \<Rightarrow> Inl (''crypto/rand failed: '' @ e) | Inr b \<Rightarrow> Inr (gateway_token b))"

definition GenerateNodeSeed :: "string + bytes \<Rightarrow> string + string" where
  "GenerateNodeSeed rd =
    (case rd of Inl e \<Rightarrow> Inl (''crypto/rand failed: '' @ e) | Inr b \<Rightarrow> Inr (node_seed b))"

lemma gateway_token_inject: "gateway_token b = gateway_token b' \<longleftrightarrow> b = b'"
  unfolding gateway_token_def by (rule b64.prefixed_inject) simp_all

lemma node_seed_inject: "node_seed b = node_seed b' \<longleftrightarrow> b = b'"
  unfolding node_seed_def by (rule b64.prefixed_inject) simp_all

lemma gateway_token_chars: "list_all is_b64url (gateway_token b)"
  unfolding gateway_token_def
  by (rule b64.prefixed_alphabet) (simp add: is_b64url_def is_lower_def)

lemma node_seed_chars: "list_all is_b64url (node_seed b)"
  unfolding node_seed_def
  by (rule b64.prefixed_alphabet) (simp add: is_b64url_def is_lower_def)

lemma gateway_token_length: "length (gateway_token b) = 7 + (4 * length b + 2) div 3"
  by (simp add: gateway_token_def b64.enc_length)

section \<open>Versions\<close>

datatype version = Version (year: int) (month: int) (day: int)

text \<open>The order the gate is meant to implement: by year, then month, then day.\<close>

instantiation version :: linorder
begin

definition less_version :: "version \<Rightarrow> version \<Rightarrow> bool" where
  "v < w \<longleftrightarrow> year v < year w \<or> year v = year w \<and> (month v < month w \<or>
     month v = month w \<and> day v < day w)"

definition less_eq_version :: "version \<Rightarrow> version \<Rightarrow> bool" where
  "(v :: version) \<le> w \<longleftrightarrow> v < w \<or> v = w"

instance
  by standard (auto simp: less_version_def less_eq_version_def intro: version.expand)

end

datatype version_error =
    InvalidFormat string
  | InvalidYear string num_error
  | InvalidMonth string num_error
  | InvalidDay string num_error

definition MinSafeVersion :: string where
  "MinSafeVersion = ''2026.1.29''"

definition parseVersion :: "string \<Rightarrow> version_error + version" where
  "parseVersion v =
    (case strings_Split (CHR ''.'') v of
       [p0, p1, p2] \<Rightarrow>
        (case strconv_Atoi p0 of
           Inl e \<Rightarrow> Inl (InvalidYear v e)
         | Inr y \<Rightarrow>
            (case strconv_Atoi p1 of
               Inl e \<Rightarrow> Inl (InvalidMonth v e)
             | Inr m \<Rightarrow>
                (let dayStr = fst (strings_Cut (CHR ''-'') p2) in
                 case strconv_Atoi dayStr of
                   Inl e \<Rightarrow> Inl (InvalidDay v e)
                 | Inr d \<Rightarrow> Inr (Version y m d))))
     | _ \<Rightarrow> Inl (InvalidFormat v))"

datatype validate_error =
    VersionRequired string
  | BadVersion version_error
  | BadMinimum string version_error
  | BelowMinimum string string

text \<open>\<open>None\<close> is Go's \<^verbatim>\<open>nil\<close> error: the version passes.\<close>

definition ValidateVersion :: "string \<Rightarrow> string \<Rightarrow> validate_error option" where
  "ValidateVersion version minVersion =
    (let minVersion = (if minVersion = [] then MinSafeVersion else minVersion) in
     if version = [] then Some (VersionRequired minVersion)
     else case parseVersion version of
       Inl e \<Rightarrow> Some (BadVersion e)
     | Inr v \<Rightarrow>
        (case parseVersion minVersion of
           Inl e \<Rightarrow> Some (BadMinimum minVersion e)
         | Inr m \<Rightarrow>
            if year v < year m \<or> (year v = year m \<and> month v < month m)
               \<or> (year v = year m \<and> month v = month m \<and> day v < day m)
            then Some (BelowMinimum version minVersion)
            else None))"

lemma version_less_code:
  "year v < year m \<or> (year v = year m \<and> month v < month m)
     \<or> (year v = year m \<and> month v = month m \<and> day v < day m) \<longleftrightarrow> v < m"
  by (auto simp: less_version_def)

lemma parseVersion_empty: "parseVersion [] = Inl (InvalidFormat [])"
  by (simp add: parseVersion_def)

lemma strings_Cut_hyphen:
  "CHR ''-'' \<notin> set s \<Longrightarrow> sfx = [] \<or> hd sfx = CHR ''-'' \<Longrightarrow>
   fst (strings_Cut (CHR ''-'') (s @ sfx)) = s"
  by (cases sfx) (auto simp: strings_Cut_def Let_def takeWhile_append takeWhile_eq_all_conv)

lemma itoa_no_dot: "CHR ''.'' \<notin> set (itoa i)"
  using itoa_chars by (fastforce simp: is_digit_def)

lemma itoa_no_hyphen: "0 \<le> i \<Longrightarrow> CHR ''-'' \<notin> set (itoa i)"
  using nat_digits_digits by (fastforce simp: itoa_def)

section \<open>WebSocket origin\<close>

text \<open>
  \<open>url_Parse\<close> is \<^verbatim>\<open>net/url.Parse\<close> followed by \<^verbatim>\<open>Hostname()\<close>: an error or the host name.
  \<open>ftbl\<close> is the Unicode folding of the runes above U+007F other than the two that ftbl to an
  ASCII letter.
\<close>

datatype origin_error = OriginRequired | InvalidOrigin string | OriginMismatch string string

definition simple_fold :: "(rune \<Rightarrow> rune) \<Rightarrow> rune \<Rightarrow> rune" where
  "simple_fold ftbl r =
    (if r < 128 then (if 65 \<le> r \<and> r \<le> 90 then r + 32 else r)
     else if r = 0x17F then 115 else if r = 0x212A then 107 else ftbl r)"

definition strings_EqualFold :: "(rune \<Rightarrow> rune) \<Rightarrow> string \<Rightarrow> string \<Rightarrow> bool" where
  "strings_EqualFold ftbl s t \<longleftrightarrow>
     map (simple_fold ftbl \<circ> fst) (utf8_runes s) = map (simple_fold ftbl \<circ> fst) (utf8_runes t)"

definition ValidateWebSocketOrigin ::
    "(string \<Rightarrow> string + string) \<Rightarrow> (rune \<Rightarrow> rune) \<Rightarrow> string \<Rightarrow> string \<Rightarrow> origin_error option" where
  "ValidateWebSocketOrigin url_Parse ftbl origin expectedHost =
    (if origin = [] then Some OriginRequired
     else case url_Parse origin of
       Inl e \<Rightarrow> Some (InvalidOrigin e)
     | Inr hostname \<Rightarrow>
         if \<not> strings_EqualFold ftbl hostname expectedHost
         then Some (OriginMismatch origin expectedHost) else None)"

record SecurityPolicy =
  WebSocketOriginCheck :: bool
  MinVersion :: string

definition DefaultSecurityPolicy :: SecurityPolicy where
  "DefaultSecurityPolicy = \<lparr>WebSocketOriginCheck = True, MinVersion = MinSafeVersion\<rparr>"

lemma simple_fold_ascii: "is_ascii c \<Longrightarrow> simple_fold ftbl (byte c) = byte (ascii_lower c)"
  by (auto simp: simple_fold_def is_ascii_def ascii_lower_def is_upper_def)

lemma strings_EqualFold_ascii:
  assumes "\<forall>c\<in>set s. is_ascii c" and "\<forall>c\<in>set t. is_ascii c"
  shows "strings_EqualFold ftbl s t \<longleftrightarrow> map ascii_lower s = map ascii_lower t"
proof -
  have f: "map (simple_fold ftbl \<circ> fst) (utf8_runes u) = map of_char (map ascii_lower u)"
    if "\<forall>c\<in>set u. is_ascii c" for u
    using that by (simp add: utf8_runes_ascii o_def simple_fold_ascii)
  have "inj (of_char :: char \<Rightarrow> nat)"
    by (simp add: inj_def)
  then show ?thesis
    unfolding strings_EqualFold_def f [OF assms(1)] f [OF assms(2)] by (rule inj_map_eq_map)
qed

section \<open>Properties\<close>

text \<open>
  C33. The version gate accepts exactly the versions that parse and are not below the minimum in
  the year, month, day order; an empty minimum stands for \<^verbatim>\<open>MinSafeVersion\<close>, and neither an
  empty version nor one that does not parse (nor an unparsable minimum) is ever let through.
\<close>

theorem ValidateVersion_accepts_iff:
  "ValidateVersion v m = None \<longleftrightarrow>
     (\<exists>pv pm. parseVersion v = Inr pv
        \<and> parseVersion (if m = [] then MinSafeVersion else m) = Inr pm \<and> pm \<le> pv)"
proof -
  have "ValidateVersion v m = None \<longleftrightarrow> (\<exists>pv pm. v \<noteq> [] \<and> parseVersion v = Inr pv
        \<and> parseVersion (if m = [] then MinSafeVersion else m) = Inr pm \<and> \<not> pv < pm)"
    unfolding ValidateVersion_def Let_def version_less_code by (auto split: sum.splits)
  then show ?thesis
    using parseVersion_empty by (auto simp: not_less)
qed

text \<open>
  Reading back a printed version: the text \<^verbatim>\<open>Y.M.D\<close> followed by nothing or by a hyphen and
  any build suffix without a dot parses to exactly the three numbers, so the build suffix never
  changes the outcome of the gate.
\<close>

theorem parseVersion_print:
  assumes "int64_range y" "int64_range m" "int64_range d" "0 \<le> d"
    and "sfx = [] \<or> hd sfx = CHR ''-''" and "CHR ''.'' \<notin> set sfx"
  shows "parseVersion (itoa y @ ''.'' @ itoa m @ ''.'' @ itoa d @ sfx) = Inr (Version y m d)"
proof -
  have "strings_Split (CHR ''.'') (itoa y @ ''.'' @ itoa m @ ''.'' @ itoa d @ sfx)
      = [itoa y, itoa m, itoa d @ sfx]"
    using assms(6) by (simp add: strings_Split_append strings_Split_single itoa_no_dot)
  then show ?thesis
    using assms strings_Cut_hyphen [OF itoa_no_hyphen [OF assms(4)] assms(5)]
    by (simp add: parseVersion_def strconv_Atoi_itoa)
qed

theorem parseVersion_print_witness:
  "parseVersion (itoa 2026 @ ''.'' @ itoa 2 @ ''.'' @ itoa 21 @ ''-2'') = Inr (Version 2026 2 21)"
  by (rule parseVersion_print) (simp_all add: int64_range_def)

text \<open>
  Gateway tokens and node seeds: different random bytes give different tokens, a token made of
  32 bytes has 50 characters, and its characters are all in the URL-safe alphabet (letters, digits,
  hyphen, underscore), so a token is safe in a URL query and in a quoted YAML scalar.
\<close>

theorem gateway_token_props:
  "(\<forall>b b'. GenerateGatewayToken (Inr b) = GenerateGatewayToken (Inr b') \<longleftrightarrow> b = b')
   \<and> (\<forall>b. length (gateway_token b) = 7 + (4 * length b + 2) div 3)
   \<and> (\<forall>b. list_all is_b64url (gateway_token b) \<and> list_all is_b64url (node_seed b))"
  by (simp add: GenerateGatewayToken_def gateway_token_inject gateway_token_chars node_seed_chars
      gateway_token_length)

text \<open>
  The origin check on ASCII host names: a connection is let through exactly when the origin is
  present, parses, and its host is the expected host up to ASCII case.
\<close>

theorem ValidateWebSocketOrigin_iff:
  assumes "url_Parse origin = Inr host"
    and "\<forall>c\<in>set host. is_ascii c" and "\<forall>c\<in>set expected. is_ascii c"
  shows "ValidateWebSocketOrigin url_Parse ftbl origin expected = None \<longleftrightarrow>
    origin \<noteq> [] \<and> map ascii_lower host = map ascii_lower expected"
  using assms by (simp add: ValidateWebSocketOrigin_def strings_EqualFold_ascii)

theorem ValidateWebSocketOrigin_witness:
  "ValidateWebSocketOrigin (\<lambda>_. Inr ''A.example'') id ''https://A.example'' ''a.example'' = None"
proof -
  have "ValidateWebSocketOrigin (\<lambda>_. Inr ''A.example'') id ''https://A.example'' ''a.example'' = None
     \<longleftrightarrow> ''https://A.example'' \<noteq> [] \<and> map ascii_lower ''A.example'' = map ascii_lower ''a.example''"
    by (rule ValidateWebSocketOrigin_iff) (simp_all add: is_ascii_def)
  moreover have "map ascii_lower ''A.example'' = map ascii_lower ''a.example''"
    by code_simp
  ultimately show ?thesis
    by simp
qed

end
