(* ===== verification/Json.thy ===== *)
theory Json
  imports Go_Encoding
begin

text \<open>
  JSON values as \<^verbatim>\<open>encoding/json\<close> exchanges them with the broker, and the rules by which
  \<^verbatim>\<open>json.Unmarshal\<close> fills the fields of a struct: members are visited in order, a member name
  matches a field tag up to case folding, \<^verbatim>\<open>null\<close> leaves the field as it is, and a value of
  another type makes the whole call fail. A number that is not an integer literal, or is minus zero,
  keeps its text (\<open>JFloat\<close>). What a reader obtains for a written string is \<open>json_text\<close> of it: every
  invalid UTF-8 byte replaced by U+FFFD. The text of documents is in \<open>Json_Text\<close>.
\<close>

datatype json =
    JNull
  | JBool bool
  | JInt int
  | JFloat string
  | JStr string
  | JArr "json list"
  | JObj "(string \<times> json) list"

section \<open>Writing\<close>

definition json_text :: "string \<Rightarrow> string" where
  "json_text s = concat (map (\<lambda>(r, _). utf8_encode r) (utf8_runes s))"

text \<open>Strings that survive being written: valid UTF-8.\<close>

definition utf8_valid :: "string \<Rightarrow> bool" where
  "utf8_valid s \<longleftrightarrow> json_text s = s"

lemma json_text_ascii: "\<forall>c\<in>set s. is_ascii c \<Longrightarrow> json_text s = s"
proof -
  assume a: "\<forall>c\<in>set s. is_ascii c"
  have "concat (map (\<lambda>c. utf8_encode (byte c)) s) = map id s"
    using a by (intro concat_map_singleton) (simp add: utf8_encode_def is_ascii_def char_of_char)
  then show ?thesis
    by (simp add: json_text_def utf8_runes_ascii [OF a] o_def)
qed

lemma utf8_valid_ascii: "\<forall>c\<in>set s. is_ascii c \<Longrightarrow> utf8_valid s"
  by (simp add: utf8_valid_def json_text_ascii)

section \<open>Reading a struct\<close>

text \<open>
  Case folding of member names: ASCII letters fold to upper case, and the two non-ASCII runes in
  the same folding class as an ASCII letter (U+017F and U+212A) fold to it; every other rune
  stays outside ASCII and can match no tag.
\<close>

definition fold_rune :: "rune \<Rightarrow> rune" where
  "fold_rune r =
    (if 97 \<le> r \<and> r \<le> 122 then r - 32 else if r = 0x17F then 83 else if r = 0x212A then 75 else r)"

definition fold_name :: "string \<Rightarrow> rune list" where
  "fold_name s = map (fold_rune \<circ> fst) (utf8_runes s)"

definition key_match :: "string \<Rightarrow> string \<Rightarrow> bool" where
  "key_match tag key \<longleftrightarrow> fold_name key = fold_name tag"

fun field_string :: "string \<Rightarrow> (string \<times> json) list \<Rightarrow> string \<Rightarrow> string option" where
  "field_string tag [] cur = Some cur"
| "field_string tag ((k, v) # ms) cur =
    (if key_match tag k
     then (case v of
             JStr s \<Rightarrow> field_string tag ms s
           | JNull \<Rightarrow> field_string tag ms cur
           | _ \<Rightarrow> None)
     else field_string tag ms cur)"

fun field_int :: "string \<Rightarrow> (string \<times> json) list \<Rightarrow> int \<Rightarrow> int option" where
  "field_int tag [] cur = Some cur"
| "field_int tag ((k, v) # ms) cur =
    (if key_match tag k
     then (case v of
             JInt i \<Rightarrow> if int64_range i then field_int tag ms i else None
           | JFloat s \<Rightarrow> if s = ''-0'' then field_int tag ms 0 else None
           | JNull \<Rightarrow> field_int tag ms cur
           | _ \<Rightarrow> None)
     else field_int tag ms cur)"

fun field_bool :: "string \<Rightarrow> (string \<times> json) list \<Rightarrow> bool \<Rightarrow> bool option" where
  "field_bool tag [] cur = Some cur"
| "field_bool tag ((k, v) # ms) cur =
    (if key_match tag k
     then (case v of
             JBool b \<Rightarrow> field_bool tag ms b
           | JNull \<Rightarrow> field_bool tag ms cur
           | _ \<Rightarrow> None)
     else field_bool tag ms cur)"

text \<open>The members of the value a struct is read from; \<^verbatim>\<open>null\<close> has none.\<close>

fun json_members :: "json \<Rightarrow> (string \<times> json) list option" where
  "json_members (JObj ms) = Some ms"
| "json_members JNull = Some []"
| "json_members _ = None"

lemma key_match_refl [simp]: "key_match t t"
  by (simp add: key_match_def)

lemma int64_range_zero [simp]: "int64_range 0"
  by (simp add: int64_range_def)

lemma field_int_range: "field_int tag ms cur = Some i \<Longrightarrow> int64_range cur \<Longrightarrow> int64_range i"
  by (induction ms arbitrary: cur) (auto split: if_splits json.splits)

end
