(* ===== verification/Json_Text.thy ===== *)
theory Json_Text
  imports Json "HOL-Library.List_Lexorder" "HOL-Library.Char_ord"
begin

text \<open>
  The text of a JSON document: what \<^verbatim>\<open>encoding/json\<close> writes for a value (\<^verbatim>\<open>json.Marshal\<close>,
  \<^verbatim>\<open>json.MarshalIndent\<close>, \<^verbatim>\<open>Encoder.Encode\<close>) and how it reads one (\<^verbatim>\<open>json.Unmarshal\<close>, \<^verbatim>\<open>Decoder.Decode\<close>).
  The reader is the scanner of that package: a state (\<open>scan_step\<close>) and a stack of open arrays and
  objects (\<open>frame\<close>), one token at a time, with its bound on the depth. The main lemma says that what
  is written is read back, with every invalid byte of a string replaced by U+FFFD.
\<close>

section \<open>Writing\<close>

text \<open>One rune of a string with its bytes, as \<^verbatim>\<open>appendString\<close> writes it (HTML characters escaped).\<close>

abbreviation backslash :: char where
  "backslash \<equiv> CHR 0x5C"

abbreviation dquote :: char where
  "dquote \<equiv> CHR 0x22"

definition short_escapes :: "(rune \<times> char) list" where
  "short_escapes = [(0x22, dquote), (0x5C, backslash), (8, CHR ''b''), (12, CHR ''f''), (10, CHR ''n''),
     (13, CHR ''r''), (9, CHR ''t'')]"

definition json_escape :: "rune \<times> bytes \<Rightarrow> string" where
  "json_escape = (\<lambda>(r, b).
    if r = rune_error \<and> length b = 1 then backslash # ''ufffd''
    else case map_of short_escapes r of
      Some c \<Rightarrow> [backslash, c]
    | None \<Rightarrow>
        if r < 0x20 \<or> r = 0x3C \<or> r = 0x3E \<or> r = 0x26
        then backslash # ''u00'' @ [hex_char (r div 16), hex_char (r mod 16)]
        else if r = 0x2028 \<or> r = 0x2029 then backslash # ''u202'' @ [hex_char (r mod 16)]
        else b)"

definition json_quote :: "string \<Rightarrow> string" where
  "json_quote s = dquote # concat (map json_escape (utf8_runes s)) @ [dquote]"

text \<open>
  The layout is given by the line break before an element at some depth (\<open>nl\<close>) and the text between
  a member's name and its value (\<open>colon\<close>).
\<close>

fun json_print :: "(nat \<Rightarrow> string) \<Rightarrow> string \<Rightarrow> nat \<Rightarrow> json \<Rightarrow> string"
and print_elems :: "(nat \<Rightarrow> string) \<Rightarrow> string \<Rightarrow> nat \<Rightarrow> json list \<Rightarrow> string"
and print_members :: "(nat \<Rightarrow> string) \<Rightarrow> string \<Rightarrow> nat \<Rightarrow> (string \<times> json) list \<Rightarrow> string" where
  "json_print nl colon d JNull = ''null''"
| "json_print nl colon d (JBool b) = (if b then ''true'' else ''false'')"
| "json_print nl colon d (JInt i) = itoa i"
| "json_print nl colon d (JFloat s) = s"
| "json_print nl colon d (JStr s) = json_quote s"
| "json_print nl colon d (JArr js) =
    (if js = [] then ''[]'' else CHR ''['' # nl (Suc d) @ print_elems nl colon (Suc d) js @ nl d @ '']'')"
| "json_print nl colon d (JObj ms) =
    (if ms = [] then ''{}'' else CHR ''{'' # nl (Suc d) @ print_members nl colon (Suc d) ms @ nl d @ ''}'')"
| "print_elems nl colon d [] = []"
| "print_elems nl colon d (j # js) =
    json_print nl colon d j @ (if js = [] then [] else CHR '','' # nl d @ print_elems nl colon d js)"
| "print_members nl colon d [] = []"
| "print_members nl colon d ((k, j) # ms) =
    json_quote k @ colon @ json_print nl colon d j
    @ (if ms = [] then [] else CHR '','' # nl d @ print_members nl colon d ms)"

definition json_Marshal :: "json \<Rightarrow> string" where
  "json_Marshal = json_print (\<lambda>_. []) '':'' 0"

text \<open>\<^verbatim>\<open>json.MarshalIndent(v, "", "  ")\<close>.\<close>

definition json_MarshalIndent :: "json \<Rightarrow> string" where
  "json_MarshalIndent = json_print (\<lambda>d. newline # replicate (2 * d) CHR '' '') '': '' 0"

text \<open>\<^verbatim>\<open>Encoder.Encode\<close> ends the document with a newline.\<close>

definition json_Encode :: "json \<Rightarrow> string" where
  "json_Encode j = json_Marshal j @ [newline]"

section \<open>Reading\<close>

definition json_space :: "char \<Rightarrow> bool" where
  "json_space c \<longleftrightarrow> c \<in> {CHR '' '', CHR 0x09, CHR 0x0D, CHR 0x0A}"

text \<open>The value of a hexadecimal digit of either case.\<close>

definition hex_digit :: "rune \<Rightarrow> nat option" where
  "hex_digit r =
    (if 48 \<le> r \<and> r \<le> 57 then Some (r - 48)
     else if 97 \<le> r \<and> r \<le> 102 then Some (r - 87)
     else if 65 \<le> r \<and> r \<le> 70 then Some (r - 55) else None)"

text \<open>The bytes of a string literal up to the closing quote, with every escape checked.\<close>

function scan_string :: "string \<Rightarrow> (string \<times> string) option" where
  "scan_string [] = None"
| "scan_string (c # cs) =
    (if c = dquote then Some ([], cs)
     else if c = backslash then
       (case cs of
          [] \<Rightarrow> None
        | e # cs' \<Rightarrow>
            if e \<in> set (dquote # backslash # ''/bfnrt'')
            then map_option (\<lambda>(s, r). (c # e # s, r)) (scan_string cs')
            else if e = CHR ''u'' \<and> 4 \<le> length cs' \<and> (\<forall>h\<in>set (take 4 cs'). hex_digit (byte h) \<noteq> None)
            then map_option (\<lambda>(s, r). (c # e # take 4 cs' @ s, r)) (scan_string (drop 4 cs'))
            else None)
     else if byte c < 0x20 then None
     else map_option (\<lambda>(s, r). (c # s, r)) (scan_string cs))"
  by pat_completeness auto
termination
  by (relation "measure length") auto

definition surrogate :: "rune \<Rightarrow> bool" where
  "surrogate r \<longleftrightarrow> 0xD800 \<le> r \<and> r \<le> 0xDFFF"

text \<open>\<^verbatim>\<open>getu4\<close>: the value of a leading \<^verbatim>\<open>\\uXXXX\<close>.\<close>

fun getu4 :: "rune list \<Rightarrow> rune option" where
  "getu4 (b # u # h1 # h2 # h3 # h4 # rs) =
    (if b = 0x5C \<and> u = 0x75
     then (case (hex_digit h1, hex_digit h2, hex_digit h3, hex_digit h4) of
             (Some v1, Some v2, Some v3, Some v4) \<Rightarrow> Some (v1 * 4096 + v2 * 256 + v3 * 16 + v4)
           | _ \<Rightarrow> None)
     else None)"
| "getu4 _ = None"

text \<open>\<^verbatim>\<open>utf16.DecodeRune\<close>; \<open>None\<close> is U+FFFD.\<close>

definition utf16_DecodeRune :: "rune \<Rightarrow> rune option \<Rightarrow> rune option" where
  "utf16_DecodeRune r1 r2 =
    (case r2 of
       Some r2 \<Rightarrow>
         if 0xD800 \<le> r1 \<and> r1 < 0xDC00 \<and> 0xDC00 \<le> r2 \<and> r2 < 0xE000
         then Some ((r1 - 0xD800) * 1024 + (r2 - 0xDC00) + 0x10000) else None
     | None \<Rightarrow> None)"

text \<open>
  \<^verbatim>\<open>unquote\<close> on the runes of a literal. The scanner has checked the escapes, so an escape that is cut
  short does not occur.
\<close>

definition escape_value :: "rune \<Rightarrow> rune" where
  "escape_value c =
    (if c = 0x62 then 8 else if c = 0x66 then 12 else if c = 0x6E then 10 else if c = 0x72 then 13
     else if c = 0x74 then 9 else c)"

function unescape :: "rune list \<Rightarrow> rune list" where
  "unescape [] = []"
| "unescape (c # rs) =
    (if c \<noteq> 0x5C then c # unescape rs
     else case getu4 (c # rs) of
       Some v \<Rightarrow>
         if surrogate v then
           (case utf16_DecodeRune v (getu4 (drop 5 rs)) of
              Some p \<Rightarrow> p # unescape (drop 11 rs)
            | None \<Rightarrow> rune_error # unescape (drop 5 rs))
         else v # unescape (drop 5 rs)
     | None \<Rightarrow> (case rs of [] \<Rightarrow> [] | e # rs' \<Rightarrow> escape_value e # unescape rs'))"
  by pat_completeness auto
termination
  by (relation "measure length") auto

definition json_unquote :: "string \<Rightarrow> string" where
  "json_unquote s = concat (map utf8_encode (unescape (map fst (utf8_runes s))))"

text \<open>
  A number: the longest text of the grammar. One without fraction and exponent is an integer;
  minus zero is kept as text because its floating point value has a sign.
\<close>

definition digits_after :: "string \<Rightarrow> string \<Rightarrow> (string \<times> string) option" where
  "digits_after lead s =
    (if takeWhile is_digit s = [] then None else Some (lead @ takeWhile is_digit s, dropWhile is_digit s))"

definition scan_frac :: "string \<Rightarrow> (string \<times> string) option" where
  "scan_frac s = (case s of c # cs \<Rightarrow> if c = CHR ''.'' then digits_after [c] cs else Some ([], s) | [] \<Rightarrow> Some ([], []))"

definition scan_exp :: "string \<Rightarrow> (string \<times> string) option" where
  "scan_exp s =
    (case s of
       c # cs \<Rightarrow>
         if c = CHR ''e'' \<or> c = CHR ''E''
         then (case cs of
                 d # ds \<Rightarrow> if d = CHR ''+'' \<or> d = CHR ''-'' then digits_after [c, d] ds else digits_after [c] cs
               | [] \<Rightarrow> None)
         else Some ([], s)
     | [] \<Rightarrow> Some ([], []))"

definition scan_int_part :: "string \<Rightarrow> (string \<times> string) option" where
  "scan_int_part s =
    (case s of
       c # cs \<Rightarrow> if c = CHR ''0'' then Some ([c], cs) else digits_after [] s
     | [] \<Rightarrow> None)"

definition number_value :: "bool \<Rightarrow> string \<Rightarrow> string \<Rightarrow> json" where
  "number_value neg ds frac_exp =
    (if frac_exp = [] \<and> \<not> (neg \<and> ds = ''0'')
     then JInt (if neg then - int (digits_value ds) else int (digits_value ds))
     else JFloat ((if neg then ''-'' else []) @ ds @ frac_exp))"

definition scan_number :: "string \<Rightarrow> (json \<times> string) option" where
  "scan_number s =
    (let neg = (s \<noteq> [] \<and> hd s = CHR ''-'') in
     case scan_int_part (if neg then tl s else s) of
       None \<Rightarrow> None
     | Some (ds, s) \<Rightarrow>
        (case scan_frac s of
           None \<Rightarrow> None
         | Some (f, s) \<Rightarrow>
            map_option (\<lambda>(x, r). (number_value neg ds (f @ x), r)) (scan_exp s)))"

datatype jtok = TOpenObj | TCloseObj | TOpenArr | TCloseArr | TComma | TColon | TLit json

definition punctuation :: "(char \<times> jtok) list" where
  "punctuation = [(CHR ''{'', TOpenObj), (CHR ''}'', TCloseObj), (CHR ''['', TOpenArr), (CHR '']'', TCloseArr),
     (CHR '','', TComma), (CHR '':'', TColon)]"

definition keywords_of :: "(char \<times> string \<times> json) list" where
  "keywords_of = [(CHR ''n'', ''ull'', JNull), (CHR ''t'', ''rue'', JBool True), (CHR ''f'', ''alse'', JBool False)]"

definition next_token :: "string \<Rightarrow> (jtok \<times> string) option" where
  "next_token s =
    (case dropWhile json_space s of
       [] \<Rightarrow> None
     | c # cs \<Rightarrow>
        (case map_of punctuation c of
           Some t \<Rightarrow> Some (t, cs)
         | None \<Rightarrow>
            if c = dquote then map_option (\<lambda>(raw, r). (TLit (JStr (json_unquote raw)), r)) (scan_string cs)
            else (case map_of keywords_of c of
                    Some (t, v) \<Rightarrow> if prefix t cs then Some (TLit v, drop (length t) cs) else None
                  | None \<Rightarrow> map_option (\<lambda>(v, r). (TLit v, r)) (scan_number (c # cs)))))"

text \<open>The scanner: states as in \<^verbatim>\<open>scanner.go\<close>, a frame per open array or object with what it has so far.\<close>

datatype scan_step = BeginValue | BeginValueOrEmpty | BeginStringOrEmpty | BeginString | EndValue

datatype frame =
    ArrayValue "json list"
  | ObjectKey "(string \<times> json) list" string
  | ObjectValue "(string \<times> json) list" string

datatype action = Fail | More scan_step "frame list" | Accept json

definition maxNestingDepth :: nat where
  "maxNestingDepth = 10000"

definition push_frame :: "scan_step \<Rightarrow> frame \<Rightarrow> frame list \<Rightarrow> action" where
  "push_frame st f fs = (if length fs < maxNestingDepth then More st (f # fs) else Fail)"

fun deliver :: "json \<Rightarrow> frame list \<Rightarrow> action" where
  "deliver j [] = Accept j"
| "deliver j (ArrayValue vs # fs) = More EndValue (ArrayValue (j # vs) # fs)"
| "deliver j (ObjectValue ms k # fs) = More EndValue (ObjectValue ((k, j) # ms) k # fs)"
| "deliver j (ObjectKey ms k # fs) = Fail"

fun begin_value :: "jtok \<Rightarrow> frame list \<Rightarrow> action" where
  "begin_value TOpenObj fs = push_frame BeginStringOrEmpty (ObjectKey [] []) fs"
| "begin_value TOpenArr fs = push_frame BeginValueOrEmpty (ArrayValue []) fs"
| "begin_value (TLit j) fs = deliver j fs"
| "begin_value _ fs = Fail"

fun begin_string :: "jtok \<Rightarrow> frame list \<Rightarrow> action" where
  "begin_string (TLit (JStr s)) (ObjectKey ms k # fs) = More EndValue (ObjectKey ms s # fs)"
| "begin_string _ _ = Fail"

fun end_value :: "jtok \<Rightarrow> frame list \<Rightarrow> action" where
  "end_value TColon (ObjectKey ms k # fs) = More BeginValue (ObjectValue ms k # fs)"
| "end_value TComma (ObjectValue ms k # fs) = More BeginString (ObjectKey ms k # fs)"
| "end_value TCloseObj (ObjectValue ms k # fs) = deliver (JObj (rev ms)) fs"
| "end_value TComma (ArrayValue vs # fs) = More BeginValue (ArrayValue vs # fs)"
| "end_value TCloseArr (ArrayValue vs # fs) = deliver (JArr (rev vs)) fs"
| "end_value _ _ = Fail"

definition scan_token :: "scan_step \<Rightarrow> jtok \<Rightarrow> frame list \<Rightarrow> action" where
  "scan_token st t fs =
    (case st of
       BeginValue \<Rightarrow> begin_value t fs
     | BeginValueOrEmpty \<Rightarrow> if t = TCloseArr then deliver (JArr []) (tl fs) else begin_value t fs
     | BeginStringOrEmpty \<Rightarrow> if t = TCloseObj then deliver (JObj []) (tl fs) else begin_string t fs
     | BeginString \<Rightarrow> begin_string t fs
     | EndValue \<Rightarrow> end_value t fs)"

text \<open>Every token takes at least one byte, so the scanner stops.\<close>

lemma scan_string_length: "scan_string s = Some (raw, r) \<Longrightarrow> length r < length s"
  by (induction s arbitrary: raw r rule: scan_string.induct)
    (fastforce split: if_splits list.splits)+

lemma digits_after_length: "digits_after lead s = Some (ds, r) \<Longrightarrow> length r < length s"
  by (cases s) (auto simp: digits_after_def le_imp_less_Suc length_dropWhile_le split: if_splits)

lemma scan_int_part_length: "scan_int_part s = Some (ds, r) \<Longrightarrow> length r < length s"
  by (auto simp: scan_int_part_def dest: digits_after_length split: list.splits if_splits)

lemma scan_frac_length: "scan_frac s = Some (f, r) \<Longrightarrow> length r \<le> length s"
  by (auto simp: scan_frac_def dest: digits_after_length split: list.splits if_splits)

lemma scan_exp_length: "scan_exp s = Some (x, r) \<Longrightarrow> length r \<le> length s"
  by (auto simp: scan_exp_def dest!: digits_after_length split: list.splits if_splits)

lemma scan_number_length: "scan_number s = Some (v, r) \<Longrightarrow> length r < length s"
  by (cases s)
    (auto simp: scan_number_def Let_def split: if_splits option.splits
      dest!: scan_int_part_length scan_frac_length scan_exp_length)

lemma next_token_length:
  assumes "next_token s = Some (t, r)"
  shows "length r < length s"
proof -
  obtain c cs where c: "dropWhile json_space s = c # cs"
    using assms by (cases "dropWhile json_space s") (auto simp: next_token_def)
  then have "length r < length (c # cs)"
    using assms by (auto simp: next_token_def le_imp_less_Suc dest: scan_string_length scan_number_length
        split: option.splits if_splits)
  then show ?thesis
    using length_dropWhile_le [of json_space s] c by simp
qed

function json_scan :: "scan_step \<Rightarrow> frame list \<Rightarrow> string \<Rightarrow> (json \<times> string) option" where
  "json_scan st fs s =
    (case next_token s of
       None \<Rightarrow> None
     | Some (t, r) \<Rightarrow>
        (case scan_token st t fs of
           Fail \<Rightarrow> None
         | Accept j \<Rightarrow> Some (j, r)
         | More st' fs' \<Rightarrow> json_scan st' fs' r))"
  by pat_completeness auto
termination
  by (relation "measure (\<lambda>(_, _, s). length s)") (auto dest: next_token_length)

declare json_scan.simps [simp del]

text \<open>\<^verbatim>\<open>Decoder.Decode\<close> reads the first value, \<^verbatim>\<open>json.Unmarshal\<close> wants nothing but space after it.\<close>

definition json_Decode :: "string \<Rightarrow> json option" where
  "json_Decode s = map_option fst (json_scan BeginValue [] s)"

definition json_Unmarshal :: "string \<Rightarrow> json option" where
  "json_Unmarshal s =
    (case json_scan BeginValue [] s of
       Some (j, r) \<Rightarrow> if list_all json_space r then Some j else None
     | None \<Rightarrow> None)"

text \<open>
  Reading into an \<^verbatim>\<open>interface{}\<close>: a number becomes a \<^verbatim>\<open>float64\<close>, and one that rounds to infinity is an
  error. \<open>float_parts\<close> gives the digits and the decimal exponent of a literal.
\<close>

definition float_parts :: "string \<Rightarrow> nat \<times> int" where
  "float_parts lit =
    (let s = (if lit \<noteq> [] \<and> hd lit = CHR ''-'' then tl lit else lit);
         rest = dropWhile is_digit s;
         fr = (if rest \<noteq> [] \<and> hd rest = CHR ''.'' then takeWhile is_digit (tl rest) else []);
         ex = (if fr = [] then rest else drop (Suc (length fr)) rest);
         e = (case ex of
                [] \<Rightarrow> 0
              | _ # cs \<Rightarrow>
                 (if cs \<noteq> [] \<and> hd cs = CHR ''-'' then - int (digits_value (tl cs))
                  else if cs \<noteq> [] \<and> hd cs = CHR ''+'' then int (digits_value (tl cs))
                  else int (digits_value cs)))
     in (digits_value (takeWhile is_digit s @ fr), e - int (length fr)))"

definition float64_limit :: nat where
  "float64_limit = 2 ^ 1024 - 2 ^ 970"

fun float64_finite :: "json \<Rightarrow> bool" where
  "float64_finite (JInt i) = (nat \<bar>i\<bar> < float64_limit)"
| "float64_finite (JFloat s) =
    (case float_parts s of
       (m, e) \<Rightarrow> if 0 \<le> e then m * 10 ^ nat e < float64_limit else m < float64_limit * 10 ^ nat (- e))"
| "float64_finite (JArr js) = (\<forall>j\<in>set js. float64_finite j)"
| "float64_finite (JObj ms) = (\<forall>(k, j)\<in>set ms. float64_finite j)"
| "float64_finite _ = True"

text \<open>A nested object becomes a map: the last member of a name counts, and names come in order.\<close>

fun interface_map :: "json \<Rightarrow> json" where
  "interface_map (JArr js) = JArr (map interface_map js)"
| "interface_map (JObj ms) =
     JObj (sort_key fst (fold (\<lambda>(k, v) al. AList.update k v al) (map (\<lambda>(k, j). (k, interface_map j)) ms) []))"
| "interface_map j = j"

definition interface_value :: "json \<Rightarrow> json option" where
  "interface_value j = (if float64_finite j then Some (interface_map j) else None)"

section \<open>Strings read back\<close>

text \<open>A rune with its bytes as \<open>utf8_runes\<close> gives them: an invalid byte, or a complete encoding.\<close>

definition rune_bytes :: "rune \<times> bytes \<Rightarrow> bool" where
  "rune_bytes = (\<lambda>(r, b). r = rune_error \<and> length b = 1
     \<or> b \<noteq> [] \<and> (\<forall>t. utf8_decode (b @ t) = Some (r, length b)))"

lemma utf8_decode_width:
  assumes "utf8_decode (c # cs) = Some (r, n)"
  shows "0 < n" "n \<le> length (c # cs)" "utf8_decode (take n (c # cs) @ t) = Some (r, n)"
  using assms by (auto simp: utf8_decode.simps Let_def split: if_splits list.splits)

lemma utf8_decode_bytes:
  assumes "utf8_decode (c # cs) = Some (r, n)"
  shows "r < 128 \<and> n = 1 \<and> byte c = r \<or> 128 \<le> r \<and> (\<forall>x\<in>set (take n (c # cs)). 128 \<le> byte x)"
  using assms by (auto simp: utf8_decode.simps Let_def cont_def split: if_splits list.splits)

lemma utf8_runes_bytes: "x \<in> set (utf8_runes s) \<Longrightarrow> rune_bytes x"
proof (induction s rule: utf8_runes.induct)
  case (2 c cs)
  show ?case
  proof (cases "utf8_decode (c # cs)")
    case None
    then show ?thesis
      using 2 by (auto simp: rune_bytes_def)
  next
    case (Some p)
    obtain r n where p: "p = (r, n)"
      by (cases p)
    have "rune_bytes (r, take n (c # cs))"
      using utf8_decode_width [of c cs r n] Some p by (auto simp: rune_bytes_def)
    then show ?thesis
      using 2 Some p utf8_decode_width [of c cs r n] by (auto simp: max_def)
  qed
qed simp

lemma utf8_runes_front:
  assumes "b \<noteq> []" and "utf8_decode (b @ t) = Some (r, length b)"
  shows "utf8_runes (b @ t) = (r, b) # utf8_runes t"
  using assms by (cases b) (auto simp: max_def)

lemma hex_digit_char: "n < 16 \<Longrightarrow> hex_digit (byte (hex_char n)) = Some n"
  by (auto simp: hex_digit_def hex_char_def)

lemma hex_char_ascii [simp]: "n < 16 \<Longrightarrow> is_ascii (hex_char n)"
  by (auto simp: hex_char_def is_ascii_def)

text \<open>The cases of \<open>json_escape\<close>: one escape of ASCII characters, or the bytes themselves.\<close>

lemma json_escape_cases:
  assumes "rune_bytes (r, b)"
  obtains (short) c where "json_escape (r, b) = [backslash, c]" "c \<in> set (dquote # backslash # ''bfnrt'')"
      "escape_value (byte c) = r"
    | (hex) h1 h2 h3 h4 where "json_escape (r, b) = [backslash, CHR ''u'', h1, h2, h3, h4]"
      "\<forall>h\<in>{h1, h2, h3, h4}. is_ascii h \<and> hex_digit (byte h) \<noteq> None"
      "\<And>t. getu4 (map byte [backslash, CHR ''u'', h1, h2, h3, h4] @ t) = Some r" "\<not> surrogate r"
    | (plain) "json_escape (r, b) = b" "b \<noteq> []" "\<And>t. utf8_decode (b @ t) = Some (r, length b)" "r \<noteq> 0x5C"
      "\<forall>c\<in>set b. c \<noteq> dquote \<and> c \<noteq> backslash \<and> 0x20 \<le> byte c"
proof -
  consider (bad) "r = rune_error" "length b = 1"
    | (esc) c where "map_of short_escapes r = Some c" "\<not> (r = rune_error \<and> length b = 1)"
    | (low) "r < 0x20 \<or> r = 0x3C \<or> r = 0x3E \<or> r = 0x26" "map_of short_escapes r = None"
    | (sep) "r = 0x2028 \<or> r = 0x2029"
    | (other) "map_of short_escapes r = None" "\<not> (r = rune_error \<and> length b = 1)"
        "\<not> (r < 0x20 \<or> r = 0x3C \<or> r = 0x3E \<or> r = 0x26)" "\<not> (r = 0x2028 \<or> r = 0x2029)"
    by (cases "map_of short_escapes r") auto
  then show thesis
  proof cases
    case bad
    then show thesis
      by (intro hex [of "CHR ''f''" "CHR ''f''" "CHR ''f''" "CHR ''d''"])
        (auto simp: json_escape_def rune_error_def is_ascii_def hex_digit_def surrogate_def)
  next
    case esc
    then show thesis
      by (intro short [of c]) (auto simp: json_escape_def short_escapes_def escape_value_def split: if_splits)
  next
    case low
    then have r: "r div 16 < 16" "r mod 16 < 16" "r < 0xFF"
      by auto
    have "r div 16 * 16 + r mod 16 = r"
      by simp
    then have g: "getu4 (map byte [backslash, CHR ''u'', CHR ''0'', CHR ''0'', hex_char (r div 16), hex_char (r mod 16)] @ t)
        = Some r" for t
      using r by (simp add: hex_digit_char) (simp add: hex_digit_def)
    show thesis
    proof (rule hex)
      show "json_escape (r, b) = [backslash, CHR ''u'', CHR ''0'', CHR ''0'', hex_char (r div 16), hex_char (r mod 16)]"
        using low by (auto simp: json_escape_def rune_error_def)
      show "\<forall>h\<in>{CHR ''0'', CHR ''0'', hex_char (r div 16), hex_char (r mod 16)}. is_ascii h \<and> hex_digit (byte h) \<noteq> None"
        using r by (simp add: hex_digit_char) (simp add: hex_digit_def is_ascii_def)
    qed (use r g in \<open>auto simp: surrogate_def\<close>)
  next
    case sep
    then show thesis
      by (intro hex [of "CHR ''2''" "CHR ''0''" "CHR ''2''" "hex_char (r mod 16)"])
        (auto simp: json_escape_def rune_error_def short_escapes_def is_ascii_def hex_digit_def surrogate_def hex_char_def)
  next
    case other
    then have d: "b \<noteq> []" "\<And>t. utf8_decode (b @ t) = Some (r, length b)"
      using assms by (auto simp: rune_bytes_def)
    then obtain c cs where b: "b = c # cs"
      by (cases b) auto
    have r: "r \<noteq> 0x22" "r \<noteq> 0x5C"
      using other(1) by (auto simp: short_escapes_def split: if_splits)
    have "\<forall>c\<in>set b. c \<noteq> dquote \<and> c \<noteq> backslash \<and> 0x20 \<le> byte c"
      using utf8_decode_bytes [of c cs r "length b"] d(2) [of "[]"] b r other(3) by fastforce
    then show thesis
      using other d r by (intro plain) (auto simp: json_escape_def)
  qed
qed

lemma scan_string_plain:
  "\<forall>c\<in>set b. c \<noteq> dquote \<and> c \<noteq> backslash \<and> 0x20 \<le> byte c \<Longrightarrow>
   scan_string (b @ t) = map_option (\<lambda>(s, r). (b @ s, r)) (scan_string t)"
  by (induction b) (auto simp: option.map_comp o_def split_def option.map_ident)

lemma scan_string_escape:
  assumes "rune_bytes (r, b)"
  shows "scan_string (json_escape (r, b) @ t) = map_option (\<lambda>(s, u). (json_escape (r, b) @ s, u)) (scan_string t)"
  using assms
proof (cases r b rule: json_escape_cases)
  case (short c)
  then show ?thesis
    by auto
next
  case (hex h1 h2 h3 h4)
  then show ?thesis
    by (simp add: split_def)
next
  case plain
  then show ?thesis
    by (simp add: scan_string_plain)
qed

lemma scan_string_body:
  "\<forall>x\<in>set rs. rune_bytes x \<Longrightarrow>
   scan_string (concat (map json_escape rs) @ dquote # t) = Some (concat (map json_escape rs), t)"
  by (induction rs) (auto simp: scan_string_escape)

lemma unescape_escape:
  assumes "rune_bytes (r, b)"
  shows "unescape (map fst (utf8_runes (json_escape (r, b) @ t))) = r # unescape (map fst (utf8_runes t))"
  using assms
proof (cases r b rule: json_escape_cases)
  case (short c)
  then have "is_ascii c" "byte c \<noteq> 0x75"
    by (auto simp: is_ascii_def)
  moreover have "getu4 (0x5C # byte c # rs) = None" for rs
    using calculation by (cases "0x5C # byte c # rs" rule: getu4.cases) auto
  moreover have "is_ascii backslash"
    by (simp add: is_ascii_def)
  ultimately show ?thesis
    using short by simp
next
  case (hex h1 h2 h3 h4)
  have "is_ascii backslash" "is_ascii (CHR ''u'')"
    by (simp_all add: is_ascii_def)
  then have "map fst (utf8_runes (json_escape (r, b) @ t))
      = map byte [backslash, CHR ''u'', h1, h2, h3, h4] @ map fst (utf8_runes t)"
    using hex by simp
  then show ?thesis
    using hex(3) [of "map fst (utf8_runes t)"] hex(4) by simp
next
  case plain
  then show ?thesis
    by (simp add: utf8_runes_front)
qed

lemma unescape_body:
  "\<forall>x\<in>set rs. rune_bytes x \<Longrightarrow>
   unescape (map fst (utf8_runes (concat (map json_escape rs)))) = map fst rs"
  by (induction rs) (auto simp: unescape_escape)

text \<open>A written string is read back with its invalid bytes replaced.\<close>

lemma scan_quoted:
  "\<exists>raw. scan_string (tl (json_quote s) @ t) = Some (raw, t) \<and> json_unquote raw = json_text s"
proof -
  have "\<forall>x\<in>set (utf8_runes s). rune_bytes x"
    by (simp add: utf8_runes_bytes)
  then show ?thesis
    by (simp add: json_quote_def scan_string_body unescape_body json_unquote_def json_text_def split_def o_def)
qed


section \<open>Documents read back\<close>

definition ends_number :: "string \<Rightarrow> bool" where
  "ends_number r \<longleftrightarrow> r = [] \<or> \<not> is_digit (hd r) \<and> hd r \<notin> set ''.eE''"

lemma nat_digits_zero: "nat_digits 0 = ''0''"
  by code_simp

lemma nat_digits_first: "n \<noteq> 0 \<Longrightarrow> hd (nat_digits n) \<noteq> CHR ''0''"
proof (induction n rule: nat_digits.induct)
  case (1 n)
  show ?case
  proof (cases "n < 10")
    case True
    have "byte (digit_char n) \<noteq> byte (CHR ''0'')"
      using 1(2) True by (simp add: digit_char_def)
    then show ?thesis
      using True by (subst nat_digits.simps) auto
  next
    case False
    then have "hd (nat_digits n) = hd (nat_digits (n div 10))"
      by (subst nat_digits.simps) simp
    then show ?thesis
      using 1(1) False by simp
  qed
qed

lemma scan_int_part_digits:
  assumes "ends_number r"
  shows "scan_int_part (nat_digits n @ r) = Some (nat_digits n, r)"
proof (cases "n = 0")
  case False
  obtain c cs where c: "nat_digits n = c # cs"
    by (cases "nat_digits n") auto
  then have "c \<noteq> CHR ''0''" "is_digit c"
    using nat_digits_first [OF False] nat_digits_digits [of c n] by auto
  moreover have "takeWhile is_digit (nat_digits n @ r) = nat_digits n" "dropWhile is_digit (nat_digits n @ r) = r"
    using assms nat_digits_digits [of _ n]
    by (cases r; simp add: ends_number_def takeWhile_append dropWhile_append)+
  ultimately show ?thesis
    using c by (simp add: scan_int_part_def digits_after_def)
qed (use assms in \<open>simp add: nat_digits_zero scan_int_part_def\<close>)

lemma scan_number_itoa:
  assumes "ends_number r"
  shows "scan_number (itoa i @ r) = Some (JInt i, r)"
proof -
  have e: "scan_frac r = Some ([], r)" "scan_exp r = Some ([], r)"
    using assms by (auto simp: ends_number_def scan_frac_def scan_exp_def split: list.splits)
  have z: "nat_digits n = ''0'' \<longleftrightarrow> n = 0" for n
    using nat_digits_first [of n] nat_digits_zero by (cases "n = 0") auto
  obtain c cs where "nat_digits (nat i) = c # cs" "c \<noteq> CHR ''-''"
    using nat_digits_hd by blast
  then show ?thesis
    using scan_int_part_digits [OF assms, of "nat i"] scan_int_part_digits [OF assms, of "nat (- i)"] e z [of "nat (- i)"]
      digits_value_nat_digits [of "nat i"] digits_value_nat_digits [of "nat (- i)"]
    by (simp add: scan_number_def itoa_def number_value_def)
qed

lemma next_token_space [simp]: "\<forall>c\<in>set ws. json_space c \<Longrightarrow> next_token (ws @ s) = next_token s"
  by (simp add: next_token_def)

lemma next_token_quote: "next_token (json_quote s @ t) = Some (TLit (JStr (json_text s)), t)"
proof -
  obtain raw where "scan_string (tl (json_quote s) @ t) = Some (raw, t)" "json_unquote raw = json_text s"
    using scan_quoted by blast
  moreover obtain q where "json_quote s = dquote # q"
    by (simp add: json_quote_def)
  ultimately show ?thesis
    by (simp add: next_token_def json_space_def punctuation_def)
qed

lemma next_token_itoa:
  assumes "ends_number r"
  shows "next_token (itoa i @ r) = Some (TLit (JInt i), r)"
proof -
  obtain c cs where c: "itoa i = c # cs"
    by (cases "itoa i") (auto simp: itoa_def split: if_splits)
  then have "c = CHR ''-'' \<or> is_digit c"
    using itoa_chars [of c i] by simp
  then have "\<not> json_space c" "map_of punctuation c = None" "c \<noteq> dquote" "map_of keywords_of c = None"
    by (auto simp: json_space_def punctuation_def keywords_of_def is_digit_def)
  then show ?thesis
    using scan_number_itoa [OF assms, of i] c by (simp add: next_token_def)
qed

text \<open>What is read for a written value: strings with their invalid bytes replaced.\<close>

fun json_norm :: "json \<Rightarrow> json" where
  "json_norm (JStr s) = JStr (json_text s)"
| "json_norm (JArr js) = JArr (map json_norm js)"
| "json_norm (JObj ms) = JObj (map (\<lambda>(k, j). (json_text k, json_norm j)) ms)"
| "json_norm j = j"

text \<open>Values without floating point numbers, of which the broker writes none, and of bounded depth.\<close>

fun json_fits :: "nat \<Rightarrow> json \<Rightarrow> bool" where
  "json_fits d (JFloat _) = False"
| "json_fits 0 (JArr js) = False"
| "json_fits (Suc d) (JArr js) = (\<forall>j\<in>set js. json_fits d j)"
| "json_fits 0 (JObj ms) = False"
| "json_fits (Suc d) (JObj ms) = (\<forall>(k, j)\<in>set ms. json_fits d j)"
| "json_fits _ _ = True"

fun proceed :: "action \<Rightarrow> string \<Rightarrow> (json \<times> string) option" where
  "proceed Fail r = None"
| "proceed (Accept j) r = Some (j, r)"
| "proceed (More st fs) r = json_scan st fs r"

lemma json_scan_step:
  "json_scan st fs s =
    (case next_token s of None \<Rightarrow> None | Some (t, r) \<Rightarrow> proceed (scan_token st t fs) r)"
  by (subst json_scan.simps) (auto split: option.splits action.splits)

lemma next_token_punct [simp]:
  "next_token (CHR ''{'' # r) = Some (TOpenObj, r)" "next_token (CHR ''}'' # r) = Some (TCloseObj, r)"
  "next_token (CHR ''['' # r) = Some (TOpenArr, r)" "next_token (CHR '']'' # r) = Some (TCloseArr, r)"
  "next_token (CHR '','' # r) = Some (TComma, r)" "next_token (CHR '':'' # r) = Some (TColon, r)"
  by (simp_all add: next_token_def json_space_def punctuation_def)

lemma next_token_keyword:
  "next_token (''null'' @ r) = Some (TLit JNull, r)" "next_token (''true'' @ r) = Some (TLit (JBool True), r)"
  "next_token (''false'' @ r) = Some (TLit (JBool False), r)"
  by (simp_all add: next_token_def json_space_def punctuation_def keywords_of_def)


text \<open>
  Reading a written value, in whatever state a value may begin, leaves the scanner where it would be
  had the value been handed to it, with the rest of the text before it.
\<close>

definition value_step :: "scan_step \<Rightarrow> bool" where
  "value_step st \<longleftrightarrow> st = BeginValue \<or> st = BeginValueOrEmpty"

definition key_step :: "scan_step \<Rightarrow> bool" where
  "key_step st \<longleftrightarrow> st = BeginString \<or> st = BeginStringOrEmpty"

text \<open>Layouts that add nothing but space.\<close>

definition layout :: "(nat \<Rightarrow> string) \<Rightarrow> string \<Rightarrow> bool" where
  "layout nl colon \<longleftrightarrow> (\<forall>d. \<forall>c\<in>set (nl d). json_space c)
     \<and> (\<exists>ws. colon = CHR '':'' # ws \<and> (\<forall>c\<in>set ws. json_space c))"

lemma ends_number_Cons: "c \<in> set '',]}'' \<or> json_space c \<Longrightarrow> ends_number (c # r)"
  by (simp add: ends_number_def json_space_def is_digit_def) (elim disjE; simp)

lemma layout_ends [simp]:
  assumes "c \<in> set '',]}''"
  shows "layout nl colon \<Longrightarrow> ends_number (nl d @ c # r)" "ends_number (c # r)"
proof -
  show c: "ends_number (c # r)"
    using assms by (intro ends_number_Cons disjI1)
  assume "layout nl colon"
  then have "json_space x" if "x \<in> set (nl d)" for x
    using that by (auto simp: layout_def)
  then show "ends_number (nl d @ c # r)"
    using c ends_number_Cons by (cases "nl d") auto
qed

lemma layout_token [simp]: "layout nl colon \<Longrightarrow> next_token (nl d @ s) = next_token s"
  by (simp add: layout_def)

lemma layout_scan [simp]: "layout nl colon \<Longrightarrow> json_scan st fs (nl d @ s) = json_scan st fs s"
  by (simp add: json_scan_step)

lemma layout_colon:
  assumes "layout nl colon"
  shows "json_scan EndValue (ObjectKey ms k # fs) (colon @ s) = json_scan BeginValue (ObjectValue ms k # fs) s"
proof -
  obtain ws where "colon = CHR '':'' # ws" "\<forall>c\<in>set ws. json_space c"
    using assms by (auto simp: layout_def)
  then show ?thesis
    by (simp add: json_scan_step [of EndValue] scan_token_def) (simp add: json_scan_step)
qed

text \<open>What the scanner does at a bracket, at a comma and at the key of a member.\<close>

lemma scan_open:
  assumes "Suc (length fs) \<le> maxNestingDepth" and "value_step st"
  shows "json_scan st fs (CHR ''['' # s) = json_scan BeginValueOrEmpty (ArrayValue [] # fs) s"
    "json_scan st fs (CHR ''{'' # s) = json_scan BeginStringOrEmpty (ObjectKey [] [] # fs) s"
  using assms by (auto simp: json_scan_step [of _ _ "_ # _"] scan_token_def value_step_def push_frame_def)

lemma scan_close:
  "json_scan BeginValueOrEmpty (ArrayValue [] # fs) (CHR '']'' # s) = proceed (deliver (JArr []) fs) s"
  "json_scan BeginStringOrEmpty (ObjectKey [] k # fs) (CHR ''}'' # s) = proceed (deliver (JObj []) fs) s"
  "json_scan EndValue (ArrayValue vs # fs) (CHR '']'' # s) = proceed (deliver (JArr (rev vs)) fs) s"
  "json_scan EndValue (ObjectValue ms k # fs) (CHR ''}'' # s) = proceed (deliver (JObj (rev ms)) fs) s"
  by (auto simp: json_scan_step scan_token_def)

lemma scan_comma:
  "json_scan EndValue (ArrayValue vs # fs) (CHR '','' # s) = json_scan BeginValue (ArrayValue vs # fs) s"
  "json_scan EndValue (ObjectValue ms k # fs) (CHR '','' # s) = json_scan BeginString (ObjectKey ms k # fs) s"
  by (simp_all add: json_scan_step [of _ _ "_ # _"] scan_token_def)

lemma scan_key:
  assumes "layout nl colon" and "key_step st"
  shows "json_scan st (ObjectKey ms k # fs) (json_quote x @ colon @ s) = json_scan BeginValue (ObjectValue ms (json_text x) # fs) s"
  using assms by (auto simp: json_scan_step [of _ _ "json_quote x @ _"] next_token_quote layout_colon scan_token_def key_step_def)

lemma scan_print:
  "layout nl colon \<Longrightarrow> json_fits n j \<Longrightarrow> n + length fs \<le> maxNestingDepth \<Longrightarrow> value_step st \<Longrightarrow> ends_number r \<Longrightarrow>
   json_scan st fs (json_print nl colon d j @ r) = proceed (deliver (json_norm j) fs) r"
and scan_print_elems:
  "layout nl colon \<Longrightarrow> \<forall>j\<in>set js. json_fits n j \<Longrightarrow> js \<noteq> [] \<Longrightarrow> n + Suc (length fs) \<le> maxNestingDepth \<Longrightarrow> value_step st \<Longrightarrow>
   json_scan st (ArrayValue vs # fs) (print_elems nl colon d js @ nl d' @ CHR '']'' # r)
     = proceed (deliver (JArr (rev vs @ map json_norm js)) fs) r"
and scan_print_members:
  "layout nl colon \<Longrightarrow> \<forall>(k, j)\<in>set ms. json_fits n j \<Longrightarrow> ms \<noteq> [] \<Longrightarrow> n + Suc (length fs) \<le> maxNestingDepth \<Longrightarrow> key_step st \<Longrightarrow>
   json_scan st (ObjectKey as k # fs) (print_members nl colon d ms @ nl d' @ CHR ''}'' # r)
     = proceed (deliver (JObj (rev as @ map (\<lambda>(k, j). (json_text k, json_norm j)) ms)) fs) r"
proof (induction nl colon d j and nl colon d js and nl colon d ms arbitrary: n fs st r and n fs st vs d' r and n fs st as k d' r
    rule: json_print_print_elems_print_members.induct)
  case (6 nl colon d js)
  then show ?case
    by (cases n; cases "js = []") (simp_all add: scan_open scan_close value_step_def)
next
  case (7 nl colon d ms)
  then show ?case
    by (cases n; cases "ms = []") (simp_all add: scan_open scan_close key_step_def)
next
  case (9 nl colon d j js)
  have "json_scan st (ArrayValue vs # fs) (json_print nl colon d j @ u)
      = json_scan EndValue (ArrayValue (json_norm j # vs) # fs) u" if "ends_number u" for u
    using 9(3-) that 9(1) [of n "ArrayValue vs # fs" st u] by simp
  then show ?case
    using 9(2) [of n fs BeginValue "json_norm j # vs" d' r] 9(3-)
    by (cases "js = []") (simp_all add: scan_close scan_comma value_step_def)
next
  case (11 nl colon d x j ms)
  have "json_scan st (ObjectKey as k # fs) (json_quote x @ colon @ json_print nl colon d j @ u)
      = json_scan EndValue (ObjectValue ((json_text x, json_norm j) # as) (json_text x) # fs) u" if "ends_number u" for u
    using 11(3-) that 11(1) [of n "ObjectValue as (json_text x) # fs" BeginValue u] by (simp add: scan_key value_step_def)
  then show ?case
    using 11(2) [of n fs BeginString "(json_text x, json_norm j) # as" "json_text x" d' r] 11(3-)
    by (cases "ms = []") (simp_all add: scan_close scan_comma key_step_def)
qed (auto simp: json_scan_step next_token_keyword [simplified] next_token_quote next_token_itoa scan_token_def value_step_def)

text \<open>Every document the package writes is read back, by both readers.\<close>

lemma json_read_written:
  assumes "layout nl colon" and "json_fits maxNestingDepth j" and "\<forall>c\<in>set ws. json_space c"
  shows "json_Unmarshal (json_print nl colon d j @ ws) = Some (json_norm j)"
    "json_Decode (json_print nl colon d j @ ws) = Some (json_norm j)"
proof -
  have "ends_number ws"
    using assms(3) ends_number_Cons by (cases ws) (auto simp: ends_number_def)
  then have "json_scan BeginValue [] (json_print nl colon d j @ ws) = Some (json_norm j, ws)"
    using scan_print [OF assms(1,2), of "[]" BeginValue ws d] by (simp add: value_step_def)
  then show "json_Unmarshal (json_print nl colon d j @ ws) = Some (json_norm j)"
    "json_Decode (json_print nl colon d j @ ws) = Some (json_norm j)"
    using assms(3) by (simp_all add: json_Unmarshal_def json_Decode_def list_all_iff)
qed

lemma layouts: "layout (\<lambda>_. []) '':''" "layout (\<lambda>d. newline # replicate (2 * d) CHR '' '') '': ''"
  by (auto simp: layout_def json_space_def)

text \<open>An object needs no space or punctuation after it, but nothing else may follow in a document.\<close>

lemma scan_print_object:
  assumes "layout nl colon" and "json_fits maxNestingDepth (JObj ms)"
  shows "json_scan BeginValue [] (json_print nl colon d (JObj ms) @ r) = Some (json_norm (JObj ms), r)"
proof -
  obtain n where n: "maxNestingDepth = Suc n"
    by (simp add: maxNestingDepth_def)
  have "json_scan BeginStringOrEmpty [ObjectKey [] []] (print_members nl colon (Suc d) ms @ nl d @ CHR ''}'' # r)
      = Some (json_norm (JObj ms), r)" if "ms \<noteq> []"
    using scan_print_members [OF assms(1) _ that, of n "[]" BeginStringOrEmpty "[]" "[]" "Suc d" d r] assms(2)
    by (simp add: n key_step_def)
  then show ?thesis
    using assms(1) by (auto simp: json_scan_step [of BeginValue] json_scan_step [of _ _ "CHR ''}'' # _"] scan_token_def push_frame_def n)
qed

lemma json_object_trailing:
  assumes "layout nl colon" and "json_fits maxNestingDepth (JObj ms)" and "\<not> list_all json_space r"
  shows "json_Unmarshal (json_print nl colon d (JObj ms) @ r) = None"
  using scan_print_object [OF assms(1,2)] assms(3) by (simp add: json_Unmarshal_def)

lemma json_read_back:
  assumes "json_fits maxNestingDepth j"
  shows "json_Unmarshal (json_Marshal j) = Some (json_norm j)" "json_Decode (json_Marshal j) = Some (json_norm j)"
    "json_Unmarshal (json_MarshalIndent j) = Some (json_norm j)" "json_Decode (json_Encode j) = Some (json_norm j)"
  using json_read_written [OF layouts(1) assms, of "[]" 0] json_read_written [OF layouts(2) assms, of "[]" 0]
    json_read_written [OF layouts(1) assms, of "[newline]" 0]
  by (simp_all add: json_Marshal_def json_MarshalIndent_def json_Encode_def json_space_def)

text \<open>Documents that are read back as they are: shallow enough and with valid UTF-8 in every string.\<close>

definition json_stable :: "json \<Rightarrow> bool" where
  "json_stable j \<longleftrightarrow> json_fits maxNestingDepth j \<and> json_norm j = j"

text \<open>An object whose members are scalars.\<close>

definition json_flat :: "(string \<times> json) list \<Rightarrow> bool" where
  "json_flat ms \<longleftrightarrow> list_all (\<lambda>(k, j). json_fits 0 j \<and> json_text k = k \<and> json_norm j = j) ms"

lemma json_fits_scalar: "json_fits 0 j \<Longrightarrow> json_fits d j"
  by (cases j) auto

lemma json_flat_stable: "json_flat ms \<Longrightarrow> json_stable (JObj ms)"
proof -
  assume a: "json_flat ms"
  then have "map (\<lambda>(k, j). (json_text k, json_norm j)) ms = ms"
    by (induction ms) (auto simp: json_flat_def)
  moreover have fits: "json_fits (Suc n) (JObj ms)" for n
    using a json_fits_scalar by (fastforce simp: json_flat_def list_all_iff)
  have "maxNestingDepth = Suc 9999"
    by (simp add: maxNestingDepth_def)
  then have "json_fits maxNestingDepth (JObj ms)"
    using fits by metis
  ultimately show ?thesis
    by (simp add: json_stable_def)
qed

interpretation state_text: codec json_MarshalIndent json_Unmarshal json_stable
  by unfold_locales (simp add: json_stable_def json_read_back)

interpretation answer_text: codec json_Encode json_Decode json_stable
  by unfold_locales (simp add: json_stable_def json_read_back)

end
