(* ===== verification/Http.thy ===== *)
theory Http
  imports Json_Text
begin

text \<open>
  The broker's environment. Everything outside the process is the record \<open>ext\<close> of functions on an
  abstract world \<open>'w\<close>: the network (\<^verbatim>\<open>http.Client.Do\<close>), the clock, the random source, the file
  system's verdicts, the Unicode case table, the \<^verbatim>\<open>%v\<close> text of a JSON number, and the order in
  which \<^verbatim>\<open>range\<close> visits a map. No property fixes these
  functions; where one needs documented behaviour of them it is a named hypothesis. The random
  source always fills the buffer, as \<^verbatim>\<open>crypto/rand.Read\<close> does since Go 1.24 (the version \<^verbatim>\<open>go.mod\<close>
  requires).
\<close>

type_synonym file_system = "string \<Rightarrow> bytes option"

datatype request_body = NoBody | TextBody bytes

record http_request =
  r_Method :: string
  r_URL :: string
  r_Header :: "(string \<times> string) list"
  r_Body :: request_body

record http_response =
  StatusCode :: int
  Location :: string
  Body :: bytes

text \<open>\<^verbatim>\<open>os.WriteFile\<close>: success, or an error after which the file holds what was written so far.\<close>

datatype write_result = Written | WriteFailed "bytes option"

record 'w ext =
  httpDo :: "http_request \<Rightarrow> 'w \<Rightarrow> (string + http_response) \<times> 'w"
  urlOK :: "string \<Rightarrow> bool"
  timeNow :: "'w \<Rightarrow> int \<times> 'w"
  randRead :: "nat \<Rightarrow> 'w \<Rightarrow> bytes \<times> 'w"
  lowerTable :: "rune \<Rightarrow> rune"
  sprintFloat :: "json \<Rightarrow> string"
  mapOrder :: "string list \<Rightarrow> 'w \<Rightarrow> string list \<times> 'w"
  writeFile :: "'w \<Rightarrow> write_result \<times> 'w"
  renameOK :: "'w \<Rightarrow> bool \<times> 'w"

text \<open>Documented behaviour of the random source and of \<^verbatim>\<open>range\<close> over a map, as hypotheses.\<close>

definition rand_fills :: "('w, 'e) ext_scheme \<Rightarrow> bool" where
  "rand_fills e \<longleftrightarrow> (\<forall>n w. length (fst (randRead e n w)) = n)"

definition range_visits_once :: "('w, 'e) ext_scheme \<Rightarrow> bool" where
  "range_visits_once e \<longleftrightarrow> (\<forall>ks w. distinct ks \<longrightarrow>
     distinct (fst (mapOrder e ks w)) \<and> set (fst (mapOrder e ks w)) = set ks)"

section \<open>Package net/url\<close>

definition upper_hex :: "nat \<Rightarrow> char" where
  "upper_hex n = (if n < 10 then char_of (48 + n) else char_of (55 + n))"

definition percent :: "char \<Rightarrow> string" where
  "percent c = [CHR ''%'', upper_hex (byte c div 16), upper_hex (byte c mod 16)]"

definition url_unreserved :: "char \<Rightarrow> bool" where
  "url_unreserved c \<longleftrightarrow> is_lower c \<or> is_upper c \<or> is_digit c \<or> c \<in> set ''-_.~''"

definition url_PathEscape :: "string \<Rightarrow> string" where
  "url_PathEscape s =
     concat (map (\<lambda>c. if url_unreserved c \<or> c \<in> set ''$&+=:@'' then [c] else percent c) s)"

definition url_QueryEscape :: "string \<Rightarrow> string" where
  "url_QueryEscape s =
     concat (map (\<lambda>c. if url_unreserved c then [c] else if c = CHR '' '' then ''+'' else percent c) s)"

text \<open>\<^verbatim>\<open>url.Values.Encode\<close> of the client credentials grant: the keys in sorted order.\<close>

definition credentials_form :: "string \<Rightarrow> string \<Rightarrow> string" where
  "credentials_form client_id client_secret =
     ''client_id='' @ url_QueryEscape client_id @ ''&client_secret='' @ url_QueryEscape client_secret
     @ ''&grant_type=client_credentials''"

text \<open>\<^verbatim>\<open>Request.SetBasicAuth\<close>: standard base64 with padding of \<^verbatim>\<open>user:password\<close>.\<close>

definition b64_Std :: "bytes \<Rightarrow> string" where
  "b64_Std s =
    (let t = map (\<lambda>c. if c = CHR ''-'' then CHR ''+'' else if c = CHR ''_'' then CHR ''/'' else c)
               (b64_RawURL s)
     in t @ replicate ((4 - length t mod 4) mod 4) (CHR ''=''))"

definition basic_auth :: "string \<Rightarrow> string \<Rightarrow> string" where
  "basic_auth user password = ''Basic '' @ b64_Std (user @ '':'' @ password)"

lemma upper_hex_class: "n < 16 \<Longrightarrow> is_upper (upper_hex n) \<or> is_digit (upper_hex n)"
  by (cases "n < 10") (auto simp: upper_hex_def is_upper_def is_digit_def)

lemma percent_chars: "c \<in> set (percent d) \<Longrightarrow> c = CHR ''%'' \<or> is_upper c \<or> is_digit c"
  using upper_hex_class [OF nibble_bounds(1), of d] upper_hex_class [OF nibble_bounds(2), of d]
  by (auto simp: percent_def)

text \<open>An escaped path segment has no separator of a URL.\<close>

lemma url_PathEscape_segment: "c \<in> set (url_PathEscape s) \<Longrightarrow> c \<notin> set ''/?#''"
proof -
  assume "c \<in> set (url_PathEscape s)"
  then have "url_unreserved c \<or> c \<in> set ''$&+=:@'' \<or> c = CHR ''%'' \<or> is_upper c \<or> is_digit c"
    using percent_chars by (auto simp: url_PathEscape_def split: if_splits)
  then show ?thesis
    by (auto simp: url_unreserved_def is_upper_def is_lower_def is_digit_def)
qed

section \<open>A scripted environment\<close>

text \<open>
  A concrete environment at which properties are evaluated: the network answers from a list of
  prepared replies and records the requests it was sent, the clock stands still, random bytes
  count up, and the file system never fails.
\<close>

record script =
  replies :: "(string + http_response) list"
  sent :: "http_request list"
  clock :: int
  seed :: nat

definition script_ext :: "script ext" where
  "script_ext =
    \<lparr>httpDo = (\<lambda>req w. case replies w of
         [] \<Rightarrow> (Inl ''connection refused'', w\<lparr>sent := sent w @ [req]\<rparr>)
       | r # rs \<Rightarrow> (r, w\<lparr>replies := rs, sent := sent w @ [req]\<rparr>)),
     urlOK = (\<lambda>s. list_all (\<lambda>c. 32 < byte c \<and> byte c \<noteq> 127) s),
     timeNow = (\<lambda>w. (clock w, w)),
     randRead = (\<lambda>n w. (replicate n (char_of (seed w)), w\<lparr>seed := Suc (seed w)\<rparr>)),
     lowerTable = id,
     sprintFloat = (\<lambda>j. case j of JInt i \<Rightarrow> itoa i | JFloat s \<Rightarrow> s | _ \<Rightarrow> []),
     mapOrder = (\<lambda>ks w. (ks, w)),
     writeFile = (\<lambda>w. (Written, w)),
     renameOK = (\<lambda>w. (True, w))\<rparr>"

definition script_start :: "(string + http_response) list \<Rightarrow> script" where
  "script_start rs = \<lparr>replies = rs, sent = [], clock = 0, seed = 1\<rparr>"

definition found_at :: "string \<Rightarrow> string + http_response" where
  "found_at loc = Inr \<lparr>StatusCode = 302, Location = loc, Body = []\<rparr>"

definition json_reply :: "int \<Rightarrow> (string \<times> json) list \<Rightarrow> string + http_response" where
  "json_reply status ms = Inr \<lparr>StatusCode = status, Location = [], Body = json_Encode (JObj ms)\<rparr>"

lemma json_reply_body: "json_flat ms \<Longrightarrow> json_Decode (json_Encode (JObj ms)) = Some (JObj ms)"
  by (rule answer_text.dec_enc [OF json_flat_stable])

lemma script_rand_fills: "rand_fills script_ext"
  by (simp add: rand_fills_def script_ext_def)

lemma script_range_visits_once: "range_visits_once script_ext"
  by (simp add: range_visits_once_def script_ext_def)

text \<open>A world in which the Director accepts every request at once.\<close>

definition accepting_ext :: "script ext" where
  "accepting_ext = script_ext\<lparr>httpDo := (\<lambda>req w. (found_at ''/tasks/7'', w\<lparr>sent := sent w @ [req]\<rparr>))\<rparr>"

text \<open>A world without a network.\<close>

definition offline_ext :: "script ext" where
  "offline_ext = script_ext\<lparr>httpDo := (\<lambda>req w. (Inl ''connection refused'', w))\<rparr>"

end
