(* ===== verification/Bosh_Client.thy ===== *)
theory Bosh_Client
  imports Http
begin

text \<open>
  The BOSH Director client (\<^verbatim>\<open>bosh/client.go\<close>): the token cache, the two asynchronous operations
  \<^verbatim>\<open>Deploy\<close> and \<^verbatim>\<open>DeleteDeployment\<close>, the task identifier in their answers and the task status
  query. The client's only mutable state is its cached token. The TLS configuration of \<^verbatim>\<open>NewClient\<close>
  is transport and not modelled. The interface \<open>director_ops\<close> is what the broker relies on: every
  operation leaves the client's address and credentials alone.
\<close>

section \<open>Model\<close>

record uaaToken =
  accessToken :: string
  expiresAt :: int

record Client =
  directorURL :: string
  clientID :: string
  clientSecret :: string
  uaaURL :: string
  token :: "uaaToken option"

datatype bosh_error =
    BadRequest
  | TokenRequestFailed string
  | TokenStatus int
  | TokenDecode
  | AuthFailed bosh_error
  | SendFailed string
  | NoTaskInLocation string string
  | TaskDecode string
  | TaskIDZero string
  | OperationStatus string int
  | TaskStatusCode int
  | TaskStateDecode
  | EmptyTaskState int

definition NewClient :: "string \<Rightarrow> string \<Rightarrow> string \<Rightarrow> string \<Rightarrow> Client" where
  "NewClient directorURL' clientID' clientSecret' uaaURL' =
    \<lparr>directorURL = strings_TrimRight (CHR ''/'') directorURL', clientID = clientID',
     clientSecret = clientSecret', uaaURL = strings_TrimRight (CHR ''/'') uaaURL', token = None\<rparr>"

text \<open>Time is in nanoseconds; \<^verbatim>\<open>time.Duration\<close> arithmetic is 64 bits wide.\<close>

definition token_margin :: "int \<Rightarrow> int" where
  "token_margin expiresIn = (let margin = wrap64 (expiresIn - 60) in if margin < 0 then 0 else margin)"

definition decode_token :: "json option \<Rightarrow> (string \<times> int) option" where
  "decode_token body =
    (case body of
       None \<Rightarrow> None
     | Some j \<Rightarrow>
        (case json_members j of
           None \<Rightarrow> None
         | Some ms \<Rightarrow>
            (case (field_string ''access_token'' ms [], field_int ''expires_in'' ms 0) of
               (Some t, Some n) \<Rightarrow> Some (t, n)
             | _ \<Rightarrow> None)))"

definition token_request :: "Client \<Rightarrow> http_request" where
  "token_request c =
    \<lparr>r_Method = ''POST'', r_URL = uaaURL c @ ''/oauth/token'',
     r_Header = [(''Content-Type'', ''application/x-www-form-urlencoded'')],
     r_Body = TextBody (credentials_form (clientID c) (clientSecret c))\<rparr>"

text \<open>The part of \<^verbatim>\<open>getToken\<close> behind the cache: request a token and store it.\<close>

definition fetchToken :: "('w, 'e) ext_scheme \<Rightarrow> Client \<Rightarrow> 'w \<Rightarrow> (bosh_error + string) \<times> Client \<times> 'w" where
  "fetchToken e c w =
    (if \<not> urlOK e (r_URL (token_request c)) then (Inl (TokenRequestFailed ''parse''), c, w)
     else case httpDo e (token_request c) w of
       (Inl err, w) \<Rightarrow> (Inl (TokenRequestFailed err), c, w)
     | (Inr resp, w) \<Rightarrow>
        if StatusCode resp \<noteq> 200 then (Inl (TokenStatus (StatusCode resp)), c, w)
        else case decode_token (json_Decode (Body resp)) of
          None \<Rightarrow> (Inl TokenDecode, c, w)
        | Some (tok, expiresIn) \<Rightarrow>
           (let (now, w) = timeNow e w;
                t = \<lparr>accessToken = tok,
                     expiresAt = now + wrap64 (token_margin expiresIn * 1000000000)\<rparr>
            in (Inr (accessToken t), c\<lparr>token := Some t\<rparr>, w)))"

definition getToken :: "('w, 'e) ext_scheme \<Rightarrow> Client \<Rightarrow> 'w \<Rightarrow> (bosh_error + string) \<times> Client \<times> 'w" where
  "getToken e c w =
    (case token c of
       None \<Rightarrow> fetchToken e c w
     | Some t \<Rightarrow>
        (let (now, w) = timeNow e w in
         if now < expiresAt t then (Inr (accessToken t), c, w) else fetchToken e c w))"

text \<open>The value of the \<^verbatim>\<open>Authorization\<close> header \<^verbatim>\<open>setAuth\<close> sets.\<close>

definition setAuth :: "('w, 'e) ext_scheme \<Rightarrow> Client \<Rightarrow> 'w \<Rightarrow> (bosh_error + string) \<times> Client \<times> 'w" where
  "setAuth e c w =
    (if uaaURL c \<noteq> [] then
       (case getToken e c w of
          (Inl err, c, w) \<Rightarrow> (Inl err, c, w)
        | (Inr tok, c, w) \<Rightarrow> (Inr (''Bearer '' @ tok), c, w))
     else (Inr (basic_auth (clientID c) (clientSecret c)), c, w))"

definition decode_task_id :: "json option \<Rightarrow> int option" where
  "decode_task_id body =
    (case body of
       None \<Rightarrow> None
     | Some j \<Rightarrow> (case json_members j of None \<Rightarrow> None | Some ms \<Rightarrow> field_int ''id'' ms 0))"

definition extractTaskID :: "http_response \<Rightarrow> string \<Rightarrow> bosh_error + int" where
  "extractTaskID resp operation =
    (if StatusCode resp = 302 then
       (case strings_Index (Location resp) ''/tasks/'' of
          Some idx \<Rightarrow>
            (case scan_int (drop (idx + 7) (Location resp)) of
               Some taskID \<Rightarrow> Inr taskID
             | None \<Rightarrow> Inl (NoTaskInLocation operation (Location resp)))
        | None \<Rightarrow> Inl (NoTaskInLocation operation (Location resp)))
     else if StatusCode resp = 200 then
       (case decode_task_id (json_Decode (Body resp)) of
          None \<Rightarrow> Inl (TaskDecode operation)
        | Some n \<Rightarrow> if n > 0 then Inr n else Inl (TaskIDZero operation))
     else Inl (OperationStatus operation (StatusCode resp)))"

text \<open>
  The shape all three operations share: build the request, authenticate, send. The answer is the
  error or the response.
\<close>

definition authorized_do ::
    "('w, 'e) ext_scheme \<Rightarrow> Client \<Rightarrow> http_request \<Rightarrow> 'w \<Rightarrow> (bosh_error + http_response) \<times> Client \<times> 'w" where
  "authorized_do e c req w =
    (if \<not> urlOK e (r_URL req) then (Inl BadRequest, c, w)
     else case setAuth e c w of
       (Inl err, c, w) \<Rightarrow> (Inl (AuthFailed err), c, w)
     | (Inr auth, c, w) \<Rightarrow>
        (case httpDo e (req\<lparr>r_Header := r_Header req @ [(''Authorization'', auth)]\<rparr>) w of
           (Inl err, w) \<Rightarrow> (Inl (SendFailed err), c, w)
         | (Inr resp, w) \<Rightarrow> (Inr resp, c, w)))"

definition deploy_request :: "Client \<Rightarrow> bytes \<Rightarrow> http_request" where
  "deploy_request c manifest =
    \<lparr>r_Method = ''POST'', r_URL = directorURL c @ ''/deployments'',
     r_Header = [(''Content-Type'', ''text/yaml'')], r_Body = TextBody manifest\<rparr>"

definition Deploy :: "('w, 'e) ext_scheme \<Rightarrow> Client \<Rightarrow> bytes \<Rightarrow> 'w \<Rightarrow> (bosh_error + int) \<times> Client \<times> 'w" where
  "Deploy e c manifest w =
    (case authorized_do e c (deploy_request c manifest) w of
       (Inl err, c, w) \<Rightarrow> (Inl err, c, w)
     | (Inr resp, c, w) \<Rightarrow> (extractTaskID resp ''deploy'', c, w))"

definition delete_request :: "Client \<Rightarrow> string \<Rightarrow> http_request" where
  "delete_request c name =
    \<lparr>r_Method = ''DELETE'', r_URL = directorURL c @ ''/deployments/'' @ name, r_Header = [], r_Body = NoBody\<rparr>"

definition DeleteDeployment ::
    "('w, 'e) ext_scheme \<Rightarrow> Client \<Rightarrow> string \<Rightarrow> 'w \<Rightarrow> (bosh_error + int) \<times> Client \<times> 'w" where
  "DeleteDeployment e c name w =
    (case authorized_do e c (delete_request c name) w of
       (Inl err, c, w) \<Rightarrow> (Inl err, c, w)
     | (Inr resp, c, w) \<Rightarrow> (extractTaskID resp ''delete'', c, w))"

definition decode_task_state :: "int \<Rightarrow> json option \<Rightarrow> bosh_error + string" where
  "decode_task_state taskID body =
    (case body of
       None \<Rightarrow> Inl TaskStateDecode
     | Some j \<Rightarrow>
        (case json_members j of
           None \<Rightarrow> Inl TaskStateDecode
         | Some ms \<Rightarrow>
            (case field_string ''state'' ms [] of
               None \<Rightarrow> Inl TaskStateDecode
             | Some s \<Rightarrow> if s = [] then Inl (EmptyTaskState taskID) else Inr s)))"

definition task_request :: "Client \<Rightarrow> int \<Rightarrow> http_request" where
  "task_request c taskID =
    \<lparr>r_Method = ''GET'', r_URL = directorURL c @ ''/tasks/'' @ itoa taskID, r_Header = [], r_Body = NoBody\<rparr>"

definition TaskStatus ::
    "('w, 'e) ext_scheme \<Rightarrow> Client \<Rightarrow> int \<Rightarrow> 'w \<Rightarrow> (bosh_error + string) \<times> Client \<times> 'w" where
  "TaskStatus e c taskID w =
    (case authorized_do e c (task_request c taskID) w of
       (Inl err, c, w) \<Rightarrow> (Inl err, c, w)
     | (Inr resp, c, w) \<Rightarrow>
        (if StatusCode resp \<noteq> 200 then (Inl (TaskStatusCode (StatusCode resp)), c, w)
         else (decode_task_state taskID (json_Decode (Body resp)), c, w)))"

section \<open>The interface the broker relies on\<close>

text \<open>
  Three operations on a client \<open>'c\<close> in a world \<open>'w\<close>, and the part \<open>ident\<close> of the client that no
  operation changes.
\<close>

locale director_ops =
  fixes ident :: "'c \<Rightarrow> 'i"
    and deploy :: "'c \<Rightarrow> bytes \<Rightarrow> 'w \<Rightarrow> ('x + int) \<times> 'c \<times> 'w"
    and delete :: "'c \<Rightarrow> string \<Rightarrow> 'w \<Rightarrow> ('x + int) \<times> 'c \<times> 'w"
    and task_status :: "'c \<Rightarrow> int \<Rightarrow> 'w \<Rightarrow> ('x + string) \<times> 'c \<times> 'w"
  assumes deploy_ident: "deploy c m w = (res, c', w') \<Longrightarrow> ident c' = ident c"
    and delete_ident: "delete c n w = (res, c', w') \<Longrightarrow> ident c' = ident c"
    and status_ident: "task_status c t w = (st, c', w') \<Longrightarrow> ident c' = ident c"
    and status_nonempty: "task_status c t w = (Inr s, c', w') \<Longrightarrow> s \<noteq> []"
begin

lemmas idents = deploy_ident delete_ident status_ident

text \<open>Polling a list of tasks, one after the other, keeps the client's identity.\<close>

fun poll :: "'c \<Rightarrow> int list \<Rightarrow> 'w \<Rightarrow> ('x + string) list \<times> 'c \<times> 'w" where
  "poll c [] w = ([], c, w)"
| "poll c (t # ts) w =
    (case task_status c t w of (r, c, w) \<Rightarrow>
      (case poll c ts w of (rs, c, w) \<Rightarrow> (r # rs, c, w)))"

lemma poll_ident: "poll c ts w = (rs, c', w') \<Longrightarrow> ident c' = ident c"
  by (induction ts arbitrary: c w rs) (auto split: prod.splits dest: status_ident)

end

definition client_ident :: "Client \<Rightarrow> string \<times> string \<times> string \<times> string" where
  "client_ident c = (directorURL c, clientID c, clientSecret c, uaaURL c)"

section \<open>Lemmas\<close>

lemma client_ident_token [simp]: "client_ident (c\<lparr>token := t\<rparr>) = client_ident c"
  by (simp add: client_ident_def)

lemma fetchToken_ident: "fetchToken e c w = (res, c', w') \<Longrightarrow> client_ident c' = client_ident c"
  by (auto simp: fetchToken_def Let_def split: if_splits prod.splits sum.splits option.splits)

lemma getToken_ident: "getToken e c w = (res, c', w') \<Longrightarrow> client_ident c' = client_ident c"
  by (auto simp: getToken_def Let_def fetchToken_ident split: if_splits prod.splits option.splits)

lemma setAuth_ident: "setAuth e c w = (res, c', w') \<Longrightarrow> client_ident c' = client_ident c"
  by (auto simp: setAuth_def dest: getToken_ident split: if_splits prod.splits sum.splits)

lemma authorized_do_ident: "authorized_do e c req w = (res, c', w') \<Longrightarrow> client_ident c' = client_ident c"
  by (auto simp: authorized_do_def dest: setAuth_ident split: if_splits prod.splits sum.splits)

lemma decode_task_state_nonempty: "decode_task_state t b = Inr s \<Longrightarrow> s \<noteq> []"
  by (auto simp: decode_task_state_def split: option.splits if_splits)

interpretation director: director_ops client_ident "Deploy e" "DeleteDeployment e" "TaskStatus e"
  for e :: "('w, 'e) ext_scheme"
proof unfold_locales
  fix c m w res c' w'
  show "Deploy e c m w = (res, c', w') \<Longrightarrow> client_ident c' = client_ident c"
    by (auto simp: Deploy_def dest: authorized_do_ident split: prod.splits sum.splits)
next
  fix c n w res c' w'
  show "DeleteDeployment e c n w = (res, c', w') \<Longrightarrow> client_ident c' = client_ident c"
    by (auto simp: DeleteDeployment_def dest: authorized_do_ident split: prod.splits sum.splits)
next
  fix c t w st c' w'
  show "TaskStatus e c t w = (st, c', w') \<Longrightarrow> client_ident c' = client_ident c"
    by (auto simp: TaskStatus_def dest: authorized_do_ident split: prod.splits sum.splits if_splits)
next
  fix c t w s c' w'
  show "TaskStatus e c t w = (Inr s, c', w') \<Longrightarrow> s \<noteq> []"
    by (auto simp: TaskStatus_def dest: decode_task_state_nonempty
        split: prod.splits sum.splits if_splits)
qed

text \<open>The first \<^verbatim>\<open>/tasks/\<close> of a location is where the text in front of it has none.\<close>

lemma strings_Index_first:
  assumes "\<forall>i < length pre. take (length pat) (drop i (pre @ pat @ rest)) \<noteq> pat"
  shows "strings_Index (pre @ pat @ rest) pat = Some (length pre)"
  using assms
proof (induction pre)
  case Nil
  have "take (length pat) (pat @ rest) = pat"
    by simp
  then show ?case
    by (cases "pat @ rest") (auto simp del: take_append)
next
  case (Cons c pre)
  have "take (length pat) (c # pre @ pat @ rest) \<noteq> pat"
    using Cons.prems by force
  moreover have "\<forall>i < length pre. take (length pat) (drop i (pre @ pat @ rest)) \<noteq> pat"
    using Cons.prems by (metis Suc_less_eq append_Cons drop_Suc_Cons length_Cons)
  ultimately show ?case
    using Cons.IH by simp
qed

lemma wrap64_id: "int64_range i \<Longrightarrow> wrap64 i = i"
  by (simp add: wrap64_def int64_range_def)

text \<open>Whatever it is asked to deploy, the Director accepts it.\<close>

definition director_accepts :: "('w, 'e) ext_scheme \<Rightarrow> Client \<Rightarrow> bool" where
  "director_accepts e c \<longleftrightarrow> (\<forall>m w. \<exists>t c' w'. Deploy e c m w = (Inr t, c', w'))"

definition director_refuses :: "('w, 'e) ext_scheme \<Rightarrow> Client \<Rightarrow> bool" where
  "director_refuses e c \<longleftrightarrow> (\<forall>m w. \<exists>err c' w'. Deploy e c m w = (Inl err, c', w'))"

text \<open>A task the Director has given for some deployment.\<close>

definition task_given :: "('w, 'e) ext_scheme \<Rightarrow> Client \<Rightarrow> int \<Rightarrow> bool" where
  "task_given e c t \<longleftrightarrow> (\<exists>m w c' w'. Deploy e c m w = (Inr t, c', w'))"

lemma offline_director_refuses: "uaaURL c = [] \<Longrightarrow> director_refuses offline_ext c"
  by (simp add: director_refuses_def Deploy_def authorized_do_def setAuth_def offline_ext_def)

lemma accepting_do:
  "uaaURL c = [] \<Longrightarrow> urlOK script_ext (r_URL req) \<Longrightarrow>
   \<exists>w'. authorized_do accepting_ext c req w =
     (Inr \<lparr>StatusCode = 302, Location = ''/tasks/7'', Body = []\<rparr>, c, w')"
  by (simp add: authorized_do_def setAuth_def accepting_ext_def found_at_def script_ext_def)

lemma task_seven: "extractTaskID \<lparr>StatusCode = 302, Location = ''/tasks/7'', Body = []\<rparr> op = Inr 7"
  by code_simp

lemma accepting_task_given:
  assumes "uaaURL c = []" and "urlOK script_ext (directorURL c @ ''/deployments'')"
    and "task_given accepting_ext c t"
  shows "t = 7"
proof -
  obtain m w c' w' where d: "Deploy accepting_ext c m w = (Inr t, c', w')"
    using assms(3) by (auto simp: task_given_def)
  obtain w1 where "authorized_do accepting_ext c (deploy_request c m) w =
     (Inr \<lparr>StatusCode = 302, Location = ''/tasks/7'', Body = []\<rparr>, c, w1)"
    using accepting_do [OF assms(1), of "deploy_request c m"] assms(2) by (auto simp: deploy_request_def)
  then show ?thesis
    using d by (simp add: Deploy_def task_seven)
qed

lemma accepting_director_accepts:
  assumes "uaaURL c = []" and "urlOK script_ext (directorURL c @ ''/deployments'')"
  shows "director_accepts accepting_ext c"
  unfolding director_accepts_def
proof (intro allI)
  fix m w
  obtain w' where "authorized_do accepting_ext c (deploy_request c m) w =
     (Inr \<lparr>StatusCode = 302, Location = ''/tasks/7'', Body = []\<rparr>, c, w')"
    using accepting_do [OF assms(1), of "deploy_request c m"] assms(2) by (auto simp: deploy_request_def)
  then show "\<exists>t c' w'. Deploy accepting_ext c m w = (Inr t, c', w')"
    by (simp add: Deploy_def task_seven)
qed

text \<open>A Director that reports a task as done.\<close>

abbreviation done_members :: "(string \<times> json) list" where
  "done_members \<equiv> [(''state'', JStr ''done'')]"

lemma done_decoded: "decode_task_state t (json_Decode (json_Encode (JObj done_members))) = Inr ''done''"
proof -
  have "json_flat done_members" "field_string ''state'' done_members [] = Some ''done''"
    by code_simp+
  then show ?thesis
    by (simp add: json_reply_body decode_task_state_def del: field_string.simps)
qed

lemma script_TaskStatus_done:
  assumes "uaaURL c = []" and "urlOK script_ext (directorURL c @ ''/tasks/'' @ itoa t)"
  shows "\<exists>w. TaskStatus script_ext c t (script_start [json_reply 200 done_members]) = (Inr ''done'', c, w)"
  using assms by (simp add: TaskStatus_def authorized_do_def setAuth_def task_request_def script_start_def)
    (simp add: script_ext_def json_reply_def done_decoded)

section \<open>Properties\<close>

text \<open>
  The task identifier of an asynchronous answer: a 302 whose \<^verbatim>\<open>Location\<close> ends its first
  \<^verbatim>\<open>/tasks/\<close> with a printed number, be it a relative path or a full URL and whatever follows the
  number, yields exactly that number.
\<close>

theorem extractTaskID_location:
  assumes "StatusCode resp = 302"
    and "Location resp = pre @ ''/tasks/'' @ itoa n @ rest"
    and "\<forall>i < length pre. take 7 (drop i (Location resp)) \<noteq> ''/tasks/''"
    and "int64_range n" and "rest = [] \<or> \<not> is_digit (hd rest)"
  shows "extractTaskID resp operation = Inr n"
proof -
  obtain pat where pat: "pat = ''/tasks/''" "length pat = 7"
    by simp
  have "strings_Index (Location resp) ''/tasks/'' = Some (length pre)"
    using strings_Index_first [of pre pat "itoa n @ rest"] assms(3)
    unfolding assms(2) pat(1) [symmetric] pat(2) by blast
  moreover have "drop (length pre + 7) (Location resp) = itoa n @ rest"
    using assms(2) by simp
  ultimately show ?thesis
    using assms(1,4,5) by (simp add: extractTaskID_def scan_int_itoa)
qed

theorem extractTaskID_location_witness:
  "extractTaskID \<lparr>StatusCode = 302, Location = ''https://10.0.0.6'' @ ''/tasks/'' @ itoa 42 @ ''?x'',
     Body = []\<rparr> ''deploy'' = Inr 42"
  by (rule extractTaskID_location [where rest = "''?x''" and pre = "''https://10.0.0.6''"])
    (simp_all add: int64_range_def is_digit_def less_Suc_eq numeral_eq_Suc All_less_Suc)

text \<open>
  C35. The token cache of the Director client: a token of lifetime \<open>L\<close> seconds fetched at time
  \<open>now\<close> is reused, without contacting the UAA, by exactly the later requests made before
  \<open>now + L - 60\<close> seconds (not at all when \<open>L\<close> is below a minute); from then on every request
  fetches a new one.
\<close>

theorem getToken_cache:
  assumes "urlOK e (uaaURL c @ ''/oauth/token'')"
    and "httpDo e (token_request c) w = (Inr resp, w1)" and "StatusCode resp = 200"
    and "decode_token (json_Decode (Body resp)) = Some (tok, L)" and "timeNow e w1 = (now, w2)"
    and "0 \<le> L" "L < 2 ^ 32"
  shows "\<exists>c'. fetchToken e c w = (Inr tok, c', w2) \<and>
    (\<forall>v. getToken e c' v =
       (if fst (timeNow e v) < now + max 0 (L - 60) * 1000000000
        then (Inr tok, c', snd (timeNow e v)) else fetchToken e c' (snd (timeNow e v))))"
proof -
  have "wrap64 (L - 60) = L - 60"
    using assms(6,7) by (intro wrap64_id) (simp add: int64_range_def)
  then have m: "token_margin L = max 0 (L - 60)"
    by (simp add: token_margin_def)
  have w: "wrap64 (max 0 (L - 60) * 1000000000) = max 0 (L - 60) * 1000000000"
    using assms(6,7) by (intro wrap64_id) (simp add: int64_range_def max_def)
  let ?c' = "c\<lparr>token := Some \<lparr>accessToken = tok,
     expiresAt = now + max 0 (L - 60) * 1000000000\<rparr>\<rparr>"
  have "fetchToken e c w = (Inr tok, ?c', w2)"
    using assms(1-5) by (simp add: fetchToken_def m w) (simp add: token_request_def)
  moreover have "getToken e ?c' v =
       (if fst (timeNow e v) < now + max 0 (L - 60) * 1000000000
        then (Inr tok, ?c', snd (timeNow e v)) else fetchToken e ?c' (snd (timeNow e v)))" for v
    by (simp add: getToken_def split_def Let_def)
  ultimately show ?thesis
    by blast
qed

theorem getToken_cache_witness:
  "\<exists>c'. getToken script_ext c' (script_start []) = (Inr ''tk'', c', script_start [])"
proof -
  let ?c = "NewClient ''https://d'' ''id'' ''sec'' ''https://u/''"
  let ?ms = "[(''access_token'', JStr ''tk''), (''expires_in'', JInt 600)]"
  let ?r = "\<lparr>StatusCode = 200, Location = [], Body = json_Encode (JObj ?ms)\<rparr>"
  let ?w = "script_start [Inr ?r]"
  let ?w1 = "(script_start [])\<lparr>sent := [token_request ?c]\<rparr>"
  have url: "urlOK script_ext (uaaURL ?c @ ''/oauth/token'')"
    by code_simp
  have "json_flat ?ms" "decode_token (Some (JObj ?ms)) = Some (''tk'', 600)"
    by code_simp+
  then have tok: "decode_token (json_Decode (Body ?r)) = Some (''tk'', 600)"
    by (simp add: json_reply_body)
  have "httpDo script_ext (token_request ?c) ?w = (Inr ?r, ?w1)" "timeNow script_ext ?w1 = (0, ?w1)"
    by (simp_all add: script_ext_def script_start_def)
  from getToken_cache [OF url this(1) _ tok this(2)] obtain c' where
    "\<forall>v. getToken script_ext c' v = (if fst (timeNow script_ext v) < 0 + max 0 (600 - 60) * 1000000000
        then (Inr ''tk'', c', snd (timeNow script_ext v))
        else fetchToken script_ext c' (snd (timeNow script_ext v)))"
    by auto
  then have "getToken script_ext c' (script_start []) = (Inr ''tk'', c', script_start [])"
    by (simp add: script_ext_def script_start_def)
  then show ?thesis ..
qed

end
