(* ===== verification/Uaa_Client.thy ===== *)
theory Uaa_Client
  imports Http
begin

text \<open>
  The UAA client (\<^verbatim>\<open>uaa/client.go\<close>): per-instance OAuth2 clients for single sign-on. The client
  keeps no state between calls, every operation first obtains an admin token. The secrets are
  functions of the random bytes read for them, as in \<open>Security\<close>; reading them cannot fail
  (\<open>Http\<close>).
\<close>

section \<open>Model\<close>

record UaaClient =
  u_uaaURL :: string
  u_adminID :: string
  u_adminSecret :: string

text \<open>\<^verbatim>\<open>NewClient\<close>; the flag that disables certificate checks is transport and left out.\<close>

definition NewUaaClient :: "string \<Rightarrow> string \<Rightarrow> string \<Rightarrow> UaaClient" where
  "NewUaaClient uaaURL' adminID adminSecret =
    \<lparr>u_uaaURL = strings_TrimRight (CHR ''/'') uaaURL', u_adminID = adminID,
     u_adminSecret = adminSecret\<rparr>"

datatype uaa_error =
    UaaBadRequest
  | UaaSend string
  | UaaTokenStatus int
  | UaaTokenDecode
  | UaaAuth uaa_error
  | CreateStatus int
  | DeleteStatus int

record tokenResponse =
  t_AccessToken :: string
  t_TokenType :: string
  t_ExpiresIn :: int

definition decode_tokenResponse :: "json option \<Rightarrow> tokenResponse option" where
  "decode_tokenResponse body =
    (case body of
       None \<Rightarrow> None
     | Some j \<Rightarrow>
        (case json_members j of
           None \<Rightarrow> None
         | Some ms \<Rightarrow>
            (case (field_string ''access_token'' ms [], field_string ''token_type'' ms [],
                   field_int ''expires_in'' ms 0) of
               (Some t, Some ty, Some n) \<Rightarrow>
                 Some \<lparr>t_AccessToken = t, t_TokenType = ty, t_ExpiresIn = n\<rparr>
             | _ \<Rightarrow> None)))"

definition admin_token_request :: "UaaClient \<Rightarrow> http_request" where
  "admin_token_request c =
    \<lparr>r_Method = ''POST'', r_URL = u_uaaURL c @ ''/oauth/token'',
     r_Header = [(''Content-Type'', ''application/x-www-form-urlencoded''),
                 (''Accept'', ''application/json'')],
     r_Body = TextBody (credentials_form (u_adminID c) (u_adminSecret c))\<rparr>"

definition getAdminToken :: "('w, 'e) ext_scheme \<Rightarrow> UaaClient \<Rightarrow> 'w \<Rightarrow> (uaa_error + string) \<times> 'w" where
  "getAdminToken e c w =
    (if \<not> urlOK e (r_URL (admin_token_request c)) then (Inl UaaBadRequest, w)
     else case httpDo e (admin_token_request c) w of
       (Inl err, w) \<Rightarrow> (Inl (UaaSend err), w)
     | (Inr resp, w) \<Rightarrow>
        if StatusCode resp \<noteq> 200 then (Inl (UaaTokenStatus (StatusCode resp)), w)
        else (case decode_tokenResponse (json_Unmarshal (Body resp)) of
                None \<Rightarrow> (Inl UaaTokenDecode, w)
              | Some tok \<Rightarrow> (Inr (t_AccessToken tok), w)))"

record OAuthClient =
  o_ClientID :: string
  o_ClientSecret :: string
  o_AuthorizedGrantTypes :: "string list"
  o_RedirectURI :: "string list"
  o_Scope :: "string list"
  o_Authorities :: "string list"
  o_Name :: string

text \<open>\<^verbatim>\<open>json.Marshal\<close> of the registration; empty \<^verbatim>\<open>client_secret\<close> and \<^verbatim>\<open>name\<close> are omitted.\<close>

definition json_strings :: "string list \<Rightarrow> json" where
  "json_strings xs = JArr (map (\<lambda>x. JStr x) xs)"

definition marshal_OAuthClient :: "OAuthClient \<Rightarrow> json" where
  "marshal_OAuthClient cl =
     JObj ([(''client_id'', JStr (o_ClientID cl))]
       @ (if o_ClientSecret cl = [] then [] else [(''client_secret'', JStr (o_ClientSecret cl))])
       @ [(''authorized_grant_types'', json_strings (o_AuthorizedGrantTypes cl)),
          (''redirect_uri'', json_strings (o_RedirectURI cl)),
          (''scope'', json_strings (o_Scope cl)),
          (''authorities'', json_strings (o_Authorities cl))]
       @ (if o_Name cl = [] then [] else [(''name'', JStr (o_Name cl))]))"

definition create_request :: "UaaClient \<Rightarrow> string \<Rightarrow> OAuthClient \<Rightarrow> http_request" where
  "create_request c tok cl =
    \<lparr>r_Method = ''POST'', r_URL = u_uaaURL c @ ''/oauth/clients'',
     r_Header = [(''Authorization'', ''Bearer '' @ tok), (''Content-Type'', ''application/json''),
                 (''Accept'', ''application/json'')],
     r_Body = TextBody (json_Marshal (marshal_OAuthClient cl))\<rparr>"

text \<open>\<open>None\<close> is a \<^verbatim>\<open>nil\<close> error. A 409 counts as success.\<close>

definition CreateClient ::
    "('w, 'e) ext_scheme \<Rightarrow> UaaClient \<Rightarrow> OAuthClient \<Rightarrow> 'w \<Rightarrow> uaa_error option \<times> 'w" where
  "CreateClient e c cl w =
    (case getAdminToken e c w of
       (Inl err, w) \<Rightarrow> (Some (UaaAuth err), w)
     | (Inr tok, w) \<Rightarrow>
        (if \<not> urlOK e (r_URL (create_request c tok cl)) then (Some UaaBadRequest, w)
         else case httpDo e (create_request c tok cl) w of
           (Inl err, w) \<Rightarrow> (Some (UaaSend err), w)
         | (Inr resp, w) \<Rightarrow>
            if StatusCode resp = 409 then (None, w)
            else if StatusCode resp \<noteq> 201 then (Some (CreateStatus (StatusCode resp)), w)
            else (None, w)))"

definition delete_client_request :: "UaaClient \<Rightarrow> string \<Rightarrow> string \<Rightarrow> http_request" where
  "delete_client_request c tok client_id =
    \<lparr>r_Method = ''DELETE'', r_URL = u_uaaURL c @ ''/oauth/clients/'' @ url_PathEscape client_id,
     r_Header = [(''Authorization'', ''Bearer '' @ tok), (''Accept'', ''application/json'')],
     r_Body = NoBody\<rparr>"

definition DeleteClient ::
    "('w, 'e) ext_scheme \<Rightarrow> UaaClient \<Rightarrow> string \<Rightarrow> 'w \<Rightarrow> uaa_error option \<times> 'w" where
  "DeleteClient e c client_id w =
    (case getAdminToken e c w of
       (Inl err, w) \<Rightarrow> (Some (UaaAuth err), w)
     | (Inr tok, w) \<Rightarrow>
        (if \<not> urlOK e (r_URL (delete_client_request c tok client_id)) then (Some UaaBadRequest, w)
         else case httpDo e (delete_client_request c tok client_id) w of
           (Inl err, w) \<Rightarrow> (Some (UaaSend err), w)
         | (Inr resp, w) \<Rightarrow>
            if StatusCode resp = 404 then (None, w)
            else if StatusCode resp \<noteq> 200 then (Some (DeleteStatus (StatusCode resp)), w)
            else (None, w)))"

definition GenerateClientSecret :: "bytes \<Rightarrow> string" where
  "GenerateClientSecret b = hex_EncodeToString b"

definition GenerateCookieSecret :: "bytes \<Rightarrow> string" where
  "GenerateCookieSecret b = b64_RawURL b"

definition ClientIDForInstance :: "string \<Rightarrow> string" where
  "ClientIDForInstance instanceID = ''openclaw-'' @ instanceID"

section \<open>Properties\<close>

lemma ClientIDForInstance_inject:
  "ClientIDForInstance i = ClientIDForInstance j \<longleftrightarrow> i = j"
  by (simp add: ClientIDForInstance_def)

text \<open>
  The single sign-on secrets: a client secret determines the 32 random bytes it was made from
  and has 64 hexadecimal digits; a cookie secret has 43 characters and decodes, in the unpadded
  URL-safe alphabet the proxy reads it with, to exactly the 32 bytes an AES-256 key needs.
\<close>

theorem sso_secrets:
  assumes "length b = 32"
  shows "hex_DecodeString (GenerateClientSecret b) = Some b
     \<and> length (GenerateClientSecret b) = 64 \<and> list_all is_hex (GenerateClientSecret b)
     \<and> b64_RawURL_decode (GenerateCookieSecret b) = Some b
     \<and> length (GenerateCookieSecret b) = 43"
  using assms hex.enc_alphabet [of _ b]
  by (simp add: GenerateClientSecret_def GenerateCookieSecret_def hex.dec_enc hex.enc_length
      b64.dec_enc b64.enc_length list_all_iff)

theorem sso_secrets_witness:
  "b64_RawURL_decode (GenerateCookieSecret (replicate 32 (CHR ''x''))) = Some (replicate 32 (CHR ''x''))"
  using sso_secrets [of "replicate 32 (CHR ''x'')"] by simp

end
