(* ===== verification/Broker_State.thy ===== *)
theory Broker_State
  imports Hostname Manifest Security Bosh_Client Uaa_Client
    "HOL-Library.List_Lexorder" "HOL-Library.Char_ord"
begin

text \<open>
  The broker's data (\<^verbatim>\<open>broker/broker.go\<close>): configuration, plans, instance records, and the broker
  with its instance map. Instance records are heap objects reached through pointers: \<open>heap\<close> holds
  the records, a reference is an index into it, and \<open>instances\<close> maps identifiers to references, so
  that a handler that keeps a pointer across a call updates the record it took, as in Go. A Go map
  is an association list with distinct keys. The interface \<open>instance_store\<close> is the view of this
  structure as a finite map from identifiers to records; the broker interprets it.
\<close>

section \<open>Data\<close>

text \<open>\<^verbatim>\<open>Plan\<close>, with field prefix \<open>p_\<close>.\<close>

record Plan =
  p_Name :: string
  p_ID :: string
  p_Description :: string
  p_PlanDescription :: string
  p_VMType :: string
  p_DiskType :: string
  p_Memory :: int
  p_AZs :: "string list"
  p_Features :: "(string \<times> bool) list"
  p_Metadata :: "(string \<times> json) list"

text \<open>\<^verbatim>\<open>BrokerConfig\<close>, with field prefix \<open>c_\<close>.\<close>

record BrokerConfig =
  c_MinOpenClawVersion :: string
  c_SandboxMode :: string
  c_OpenClawVersion :: string
  c_Plans :: "Plan list"
  c_AppsDomain :: string
  c_Network :: string
  c_AZs :: "string list"
  c_StemcellOS :: string
  c_StemcellVersion :: string
  c_CFDeploymentName :: string
  c_OpenClawReleaseVersion :: string
  c_BPMReleaseVersion :: string
  c_RoutingReleaseVersion :: string
  c_SSOEnabled :: bool
  c_SSOOIDCIssuerURL :: string
  c_SSOAllowedEmailDomains :: string
  c_SSOSessionTimeoutHours :: int
  c_CFUaaURL :: string
  c_CFUaaAdminClientID :: string
  c_CFUaaAdminClientSecret :: string
  c_MaxInstances :: int
  c_MaxInstancesPerOrg :: int
  c_LLMProvider :: string
  c_LLMEndpoint :: string
  c_LLMAPIKey :: string
  c_LLMModel :: string
  c_LLMPreferredModel :: string
  c_LLMAPIEndpoint :: string
  c_GenAIOfferingName :: string
  c_GenAIPlanName :: string
  c_BlockedCommands :: string
  c_NATSTLSEnabled :: bool
  c_NATSTLSClientCert :: string
  c_NATSTLSClientKey :: string
  c_NATSTLSCACert :: string
  c_StateDir :: string

text \<open>\<^verbatim>\<open>Instance\<close>, with field prefix \<open>i_\<close>. The state is the string the source stores.\<close>

record Instance =
  i_ID :: string
  i_PlanID :: string
  i_PlanName :: string
  i_Owner :: string
  i_OrgGUID :: string
  i_SpaceGUID :: string
  i_DeploymentName :: string
  i_GatewayToken :: string
  i_NodeSeed :: string
  i_RouteHostname :: string
  i_AppsDomain :: string
  i_VMType :: string
  i_DiskType :: string
  i_State :: string
  i_BoshTaskID :: int
  i_SSOEnabled :: bool
  i_SSOClientID :: string
  i_SSOClientSecret :: string
  i_SSOCookieSecret :: string
  i_OpenClawVersion :: string

definition zero_instance :: Instance where
  "zero_instance = \<lparr>i_ID = [], i_PlanID = [], i_PlanName = [], i_Owner = [], i_OrgGUID = [], i_SpaceGUID = [], i_DeploymentName = [], i_GatewayToken = [], i_NodeSeed = [], i_RouteHostname = [], i_AppsDomain = [], i_VMType = [], i_DiskType = [], i_State = [], i_BoshTaskID = 0, i_SSOEnabled = False, i_SSOClientID = [], i_SSOClientSecret = [], i_SSOCookieSecret = [], i_OpenClawVersion = []\<rparr>"

text \<open>
  \<^verbatim>\<open>Broker\<close>. \<open>upgrade_tasks\<close> is the map of \<^verbatim>\<open>upgradeTracker\<close>; \<open>files\<close> is the file system as far as
  the broker uses it: the bytes of a file, or none.
\<close>

record Broker =
  config :: BrokerConfig
  director :: Client
  uaaClient :: "UaaClient option"
  instances :: "(instance_id \<times> ref) list"
  heap :: "Instance list"
  upgrade_tasks :: "(instance_id \<times> int) list"
  files :: file_system

text \<open>An HTTP answer: the status and the JSON document.\<close>

datatype resp_body =
    Empty
  | Error string
  | ErrorDesc string string
  | VersionError string validate_error
  | Provisioned string string
  | Operation string
  | LastOp string string
  | Credentials "(string \<times> json) list"
  | Document json
  | PlainText string

record response =
  status :: int
  content :: resp_body

definition writeJSON :: "int \<Rightarrow> resp_body \<Rightarrow> response" where
  "writeJSON st v = \<lparr>status = st, content = v\<rparr>"

declare writeJSON_def [response_defs]

section \<open>Pointers\<close>

definition deref :: "Broker \<Rightarrow> ref \<Rightarrow> Instance" where
  "deref b r = heap b ! r"

definition alloc :: "Broker \<Rightarrow> Instance \<Rightarrow> ref \<times> Broker" where
  "alloc b i = (length (heap b), b\<lparr>heap := heap b @ [i]\<rparr>)"

definition modify :: "ref \<Rightarrow> (Instance \<Rightarrow> Instance) \<Rightarrow> Broker \<Rightarrow> Broker" where
  "modify r f b = b\<lparr>heap := (heap b)[r := f (heap b ! r)]\<rparr>"

definition lookup :: "Broker \<Rightarrow> instance_id \<Rightarrow> ref option" where
  "lookup b k = map_of (instances b) k"

text \<open>Store a new record under an identifier, and drop an identifier from the map.\<close>

definition insert_instance :: "instance_id \<Rightarrow> Instance \<Rightarrow> Broker \<Rightarrow> ref \<times> Broker" where
  "insert_instance k i b =
    (let (r, b) = alloc b i in (r, b\<lparr>instances := AList.update k r (instances b)\<rparr>))"

definition remove_instance :: "instance_id \<Rightarrow> Broker \<Rightarrow> Broker" where
  "remove_instance k b = b\<lparr>instances := AList.delete k (instances b)\<rparr>"

section \<open>Plans and counts\<close>

definition normalizePlan :: "Plan \<Rightarrow> Plan" where
  "normalizePlan p =
    (let p = (if p_ID p = [] \<and> p_Name p \<noteq> []
              then p\<lparr>p_ID := ''openclaw-'' @ p_Name p @ ''-plan''\<rparr> else p);
         p = (if p_Description p = [] \<and> p_PlanDescription p \<noteq> []
              then p\<lparr>p_Description := p_PlanDescription p\<rparr> else p)
     in if p_Description p = [] \<and> p_Name p \<noteq> []
        then p\<lparr>p_Description := ''OpenClaw '' @ p_Name p @ '' plan''\<rparr> else p)"

definition normalizePlans :: "Plan list \<Rightarrow> Plan list" where
  "normalizePlans plans = map normalizePlan plans"

definition zero_plan :: Plan where
  "zero_plan = \<lparr>p_Name = [], p_ID = [], p_Description = [], p_PlanDescription = [], p_VMType = [],
     p_DiskType = [], p_Memory = 0, p_AZs = [], p_Features = [], p_Metadata = []\<rparr>"

definition defaultPlans :: "Plan list" where
  "defaultPlans =
    [zero_plan\<lparr>p_ID := ''openclaw-developer-plan'', p_Name := ''developer'',
       p_Description := ''Dedicated OpenClaw agent for individual developers'',
       p_VMType := ''small'', p_DiskType := ''10GB'', p_Memory := 2048\<rparr>,
     zero_plan\<lparr>p_ID := ''openclaw-developer-plus-plan'', p_Name := ''developer-plus'',
       p_Description := ''Enhanced agent with browser automation'',
       p_VMType := ''medium'', p_DiskType := ''20GB'', p_Memory := 4096\<rparr>,
     zero_plan\<lparr>p_ID := ''openclaw-team-plan'', p_Name := ''team'',
       p_Description := ''Shared agent for teams'',
       p_VMType := ''large'', p_DiskType := ''50GB'', p_Memory := 8192\<rparr>]"

text \<open>The plans in force: the configured ones, or the defaults when none is configured.\<close>

definition effective_plans :: "BrokerConfig \<Rightarrow> Plan list" where
  "effective_plans c = (if c_Plans c = [] then defaultPlans else c_Plans c)"

definition findPlan :: "BrokerConfig \<Rightarrow> string \<Rightarrow> Plan option" where
  "findPlan c planID = find (\<lambda>p. p_ID p = planID) (effective_plans c)"

definition countInstances :: "Broker \<Rightarrow> nat" where
  "countInstances b =
     length (filter (\<lambda>(_, r). i_State (deref b r) \<noteq> ''deprovisioning'') (instances b))"

definition countInstancesByOrg :: "Broker \<Rightarrow> string \<Rightarrow> nat" where
  "countInstancesByOrg b orgGUID =
     length (filter (\<lambda>(_, r). i_OrgGUID (deref b r) = orgGUID
        \<and> i_State (deref b r) \<noteq> ''deprovisioning'') (instances b))"

section \<open>Manifest parameters\<close>

definition or_default :: "string \<Rightarrow> string \<Rightarrow> string" where
  "or_default s d = (if s = [] then d else s)"

definition parseBlockedCommands :: "string \<Rightarrow> string list" where
  "parseBlockedCommands s =
    (if s = [] then []
     else let normalized = strings_ReplaceAll newline '','' s;
              normalized = strings_ReplaceAll (CHR 0x0D) [] normalized
          in filter (\<lambda>cmd. cmd \<noteq> []) (map strings_TrimSpace (strings_Split (CHR '','') normalized)))"

definition deploymentNameFor :: "instance_id \<Rightarrow> string" where
  "deploymentNameFor k = ''openclaw-agent-'' @ k"

text \<open>\<^verbatim>\<open>buildManifestParams\<close>; the logging is left out.\<close>

definition buildManifestParams :: "BrokerConfig \<Rightarrow> Instance \<Rightarrow> ManifestParams" where
  "buildManifestParams c i =
    (let plan = findPlan c (i_PlanID i);
         azs = (case plan of
                  Some p \<Rightarrow> if p_AZs p \<noteq> [] then p_AZs p else c_AZs c
                | None \<Rightarrow> c_AZs c);
         browserEnabled = (case plan of
                  Some p \<Rightarrow> map_of (p_Features p) ''browser'' = Some True
                | None \<Rightarrow> False);
         ssoEnabled = (i_SSOEnabled i \<and> i_SSOClientID i \<noteq> [])
     in \<lparr>m_DeploymentName = i_DeploymentName i,
         m_ID = i_ID i,
         m_Owner = i_Owner i,
         m_PlanName = i_PlanName i,
         m_GatewayToken = i_GatewayToken i,
         m_NodeSeed = i_NodeSeed i,
         m_RouteHostname = i_RouteHostname i,
         m_VMType = i_VMType i,
         m_DiskType = i_DiskType i,
         m_SSOEnabled = ssoEnabled,
         m_OpenClawVersion = i_OpenClawVersion i,
         m_SandboxMode = or_default (c_SandboxMode c) ''strict'',
         m_Network = or_default (c_Network c) ''default'',
         m_AZs = azs,
         m_StemcellOS = or_default (c_StemcellOS c) ''ubuntu-jammy'',
         m_StemcellVersion = or_default (c_StemcellVersion c) ''latest'',
         m_CFDeploymentName = or_default (c_CFDeploymentName c) ''cf'',
         m_OpenClawReleaseVersion = or_default (c_OpenClawReleaseVersion c) ''latest'',
         m_BPMReleaseVersion = or_default (c_BPMReleaseVersion c) ''latest'',
         m_RoutingReleaseVersion = or_default (c_RoutingReleaseVersion c) ''latest'',
         m_AppsDomain = i_AppsDomain i,
         m_SSOClientID = i_SSOClientID i,
         m_SSOClientSecret = i_SSOClientSecret i,
         m_SSOCookieSecret = i_SSOCookieSecret i,
         m_SSOOIDCIssuerURL = c_SSOOIDCIssuerURL c,
         m_LLMProvider = c_LLMProvider c,
         m_LLMEndpoint = c_LLMEndpoint c,
         m_LLMAPIKey = c_LLMAPIKey c,
         m_LLMModel = c_LLMModel c,
         m_LLMPreferredModel = c_LLMPreferredModel c,
         m_LLMAPIEndpoint = c_LLMAPIEndpoint c,
         m_BrowserEnabled = browserEnabled,
         m_BlockedCommands = parseBlockedCommands (c_BlockedCommands c),
         m_NATSTLSClientCert = c_NATSTLSClientCert c,
         m_NATSTLSClientKey = c_NATSTLSClientKey c,
         m_NATSTLSCACert = c_NATSTLSCACert c,
         m_SSOAllowedEmailDomains = c_SSOAllowedEmailDomains c,
         m_SSOSessionTimeoutHours = c_SSOSessionTimeoutHours c\<rparr>)"


section \<open>The store interface\<close>

text \<open>
  What the handlers rely on: a state \<open>'s\<close> seen as a finite map from identifiers to records, with
  insertion of a fresh identifier, removal, and update of a present record by a function that keeps
  the record admissible for its identifier.
\<close>

locale instance_store =
  fixes wf :: "'s \<Rightarrow> bool"
    and ok :: "instance_id \<Rightarrow> 'i \<Rightarrow> bool"
    and view :: "'s \<Rightarrow> instance_id \<rightharpoonup> 'i"
    and ins :: "instance_id \<Rightarrow> 'i \<Rightarrow> 's \<Rightarrow> 's"
    and del :: "instance_id \<Rightarrow> 's \<Rightarrow> 's"
    and upd :: "instance_id \<Rightarrow> ('i \<Rightarrow> 'i) \<Rightarrow> 's \<Rightarrow> 's"
  assumes view_finite: "wf s \<Longrightarrow> finite (dom (view s))"
    and view_ok: "wf s \<Longrightarrow> view s k = Some i \<Longrightarrow> ok k i"
    and wf_ins: "wf s \<Longrightarrow> view s k = None \<Longrightarrow> ok k i \<Longrightarrow> wf (ins k i s)"
    and view_ins: "wf s \<Longrightarrow> view s k = None \<Longrightarrow> view (ins k i s) = (view s)(k \<mapsto> i)"
    and wf_del: "wf s \<Longrightarrow> wf (del k s)"
    and view_del: "wf s \<Longrightarrow> view (del k s) = (view s)(k := None)"
    and wf_upd: "wf s \<Longrightarrow> view s k = Some i \<Longrightarrow> ok k (f i) \<Longrightarrow> wf (upd k f s)"
    and view_upd: "wf s \<Longrightarrow> view s k = Some i \<Longrightarrow> view (upd k f s) = (view s)(k \<mapsto> f i)"
begin

text \<open>How many records satisfy a condition.\<close>

definition tally :: "('i \<Rightarrow> bool) \<Rightarrow> 's \<Rightarrow> nat" where
  "tally P s = card {k. \<exists>i. view s k = Some i \<and> P i}"

lemma tally_finite: "wf s \<Longrightarrow> finite {k. \<exists>i. view s k = Some i \<and> P i}"
  by (rule finite_subset [OF _ view_finite]) auto

lemma tally_view_ins:
  assumes "wf s" and "view s k = None" and "view s' = (view s)(k \<mapsto> i)"
  shows "tally P s' = (if P i then Suc (tally P s) else tally P s)"
proof -
  let ?A = "{k'. \<exists>j. view s k' = Some j \<and> P j}"
  have "{k'. \<exists>j. view s' k' = Some j \<and> P j} = (if P i then insert k ?A else ?A)"
    using assms by auto
  moreover have "k \<notin> ?A"
    using assms(2) by simp
  ultimately show ?thesis
    using tally_finite [OF assms(1), of P] by (simp add: tally_def)
qed

lemmas tally_ins = tally_view_ins [OF _ _ view_ins]

lemma tally_del_le: "wf s \<Longrightarrow> tally P (del k s) \<le> tally P s"
  unfolding tally_def by (rule card_mono [OF tally_finite]) (auto simp: view_del)

lemma tally_upd_le:
  assumes "wf s" and "view s k = Some i" and "P (f i) \<Longrightarrow> P i"
  shows "tally P (upd k f s) \<le> tally P s"
  unfolding tally_def by (rule card_mono [OF tally_finite]) (use assms in \<open>auto simp: view_upd\<close>)

lemma tally_view_le:
  assumes "wf s" and "\<And>k j. view s' k = Some j \<Longrightarrow> P j \<Longrightarrow> \<exists>i. view s k = Some i \<and> P i"
  shows "tally P s' \<le> tally P s"
  unfolding tally_def by (rule card_mono [OF tally_finite]) (use assms in auto)

lemma tally_mono: "wf s \<Longrightarrow> (\<And>i. P i \<Longrightarrow> Q i) \<Longrightarrow> tally P s \<le> tally Q s"
  unfolding tally_def by (rule card_mono [OF tally_finite]) auto

text \<open>Insertion followed by removal is no change, to an observer of the map.\<close>

lemma del_ins:
  "wf s \<Longrightarrow> view s k = None \<Longrightarrow> ok k i \<Longrightarrow> view (del k (ins k i s)) = view s"
  by (simp add: view_del wf_ins view_ins) (metis fun_upd_idem)

end

text \<open>The invariant of the broker: distinct identifiers, distinct records, and every record in
  the map carries its identifier and the deployment name that belongs to it.\<close>

definition instance_ok :: "instance_id \<Rightarrow> Instance \<Rightarrow> bool" where
  "instance_ok k i \<longleftrightarrow> i_ID i = k \<and> i_DeploymentName i = deploymentNameFor k"

definition broker_wf :: "Broker \<Rightarrow> bool" where
  "broker_wf b \<longleftrightarrow> distinct (map fst (instances b)) \<and> distinct (map snd (instances b))
     \<and> (\<forall>(k, r) \<in> set (instances b). r < length (heap b) \<and> instance_ok k (heap b ! r))"

text \<open>The map an observer sees.\<close>

definition inst_view :: "Broker \<Rightarrow> instance_id \<rightharpoonup> Instance" where
  "inst_view b k = map_option (deref b) (lookup b k)"

definition update_instance :: "instance_id \<Rightarrow> (Instance \<Rightarrow> Instance) \<Rightarrow> Broker \<Rightarrow> Broker" where
  "update_instance k f b = (case lookup b k of None \<Rightarrow> b | Some r \<Rightarrow> modify r f b)"

section \<open>Lemmas\<close>

lemma lookup_mem: "broker_wf b \<Longrightarrow> lookup b k = Some r \<longleftrightarrow> (k, r) \<in> set (instances b)"
  unfolding lookup_def broker_wf_def using map_of_mem_distinct by metis

lemma lookup_ref: "broker_wf b \<Longrightarrow> lookup b k = Some r \<Longrightarrow> r < length (heap b)"
  by (auto simp: lookup_mem broker_wf_def)

lemma lookup_ok: "broker_wf b \<Longrightarrow> lookup b k = Some r \<Longrightarrow> instance_ok k (heap b ! r)"
  by (auto simp: lookup_mem broker_wf_def)

lemma lookup_inj: "broker_wf b \<Longrightarrow> lookup b k = Some r \<Longrightarrow> lookup b k' = Some r \<Longrightarrow> k = k'"
proof -
  assume wf: "broker_wf b" and "lookup b k = Some r" "lookup b k' = Some r"
  then have "(k, r) \<in> set (instances b)" "(k', r) \<in> set (instances b)"
    by (simp_all add: lookup_mem)
  moreover have "inj_on snd (set (instances b))"
    using wf by (simp add: broker_wf_def distinct_map)
  ultimately show "k = k'"
    using inj_onD [of snd "set (instances b)" "(k, r)" "(k', r)"] by simp
qed

lemma inst_view_None [simp]: "inst_view b k = None \<longleftrightarrow> lookup b k = None"
  by (simp add: inst_view_def)

lemma inst_view_Some: "inst_view b k = Some i \<longleftrightarrow> (\<exists>r. lookup b k = Some r \<and> i = heap b ! r)"
  by (auto simp: inst_view_def deref_def)

lemma lookup_modify [simp]: "lookup (modify r f b) = lookup b"
  by (simp add: fun_eq_iff lookup_def modify_def)

lemma modify_fields [simp]:
  "config (modify r f b) = config b" "director (modify r f b) = director b"
  "uaaClient (modify r f b) = uaaClient b" "instances (modify r f b) = instances b"
  "upgrade_tasks (modify r f b) = upgrade_tasks b" "files (modify r f b) = files b"
  "length (heap (modify r f b)) = length (heap b)"
  by (simp_all add: modify_def)

lemma remove_fields [simp]:
  "config (remove_instance k b) = config b" "director (remove_instance k b) = director b"
  "uaaClient (remove_instance k b) = uaaClient b" "heap (remove_instance k b) = heap b"
  "upgrade_tasks (remove_instance k b) = upgrade_tasks b" "files (remove_instance k b) = files b"
  by (simp_all add: remove_instance_def)

lemma insert_fields [simp]:
  "config (snd (insert_instance k i b)) = config b" "director (snd (insert_instance k i b)) = director b"
  "uaaClient (snd (insert_instance k i b)) = uaaClient b"
  "heap (snd (insert_instance k i b)) = heap b @ [i]"
  "instances (snd (insert_instance k i b)) = AList.update k (length (heap b)) (instances b)"
  "upgrade_tasks (snd (insert_instance k i b)) = upgrade_tasks b"
  "files (snd (insert_instance k i b)) = files b"
  "fst (insert_instance k i b) = length (heap b)"
  by (simp_all add: insert_instance_def alloc_def)

lemma deref_modify: "r < length (heap b) \<Longrightarrow> deref (modify r f b) s = (if s = r then f (deref b r) else deref b s)"
  by (simp add: deref_def modify_def)

lemma deref_frame [simp]: "deref (b\<lparr>director := d\<rparr>) = deref b"
  "deref (b\<lparr>files := fs\<rparr>) = deref b" "deref (b\<lparr>upgrade_tasks := us\<rparr>) = deref b"
  "deref (b\<lparr>instances := is\<rparr>) = deref b"
  by (simp_all add: deref_def fun_eq_iff)

lemma lookup_frame [simp]: "lookup (b\<lparr>director := d\<rparr>) k = lookup b k"
  "lookup (b\<lparr>files := fs\<rparr>) k = lookup b k" "lookup (b\<lparr>upgrade_tasks := us\<rparr>) k = lookup b k"
  by (simp_all add: lookup_def)

lemma inst_view_frame [simp]: "inst_view (b\<lparr>director := d\<rparr>) = inst_view b"
  "inst_view (b\<lparr>files := fs\<rparr>) = inst_view b" "inst_view (b\<lparr>upgrade_tasks := us\<rparr>) = inst_view b"
  by (simp_all add: inst_view_def fun_eq_iff)

lemma broker_wf_frame [simp]: "broker_wf (b\<lparr>director := d\<rparr>) = broker_wf b"
  "broker_wf (b\<lparr>files := fs\<rparr>) = broker_wf b" "broker_wf (b\<lparr>upgrade_tasks := us\<rparr>) = broker_wf b"
  by (simp_all add: broker_wf_def)

lemma wf_refs_below:
  "broker_wf b \<Longrightarrow> length (heap b) \<notin> snd ` set (instances b)"
  by (auto simp: broker_wf_def)

lemma broker_wf_insert:
  assumes "broker_wf b" and "lookup b k = None" and "instance_ok k i"
  shows "broker_wf (snd (insert_instance k i b))"
  using assms wf_refs_below [OF assms(1)]
  by (auto simp: broker_wf_def lookup_def update_fresh nth_append map_of_eq_None_iff
      dest: bspec)

lemma inst_view_insert:
  assumes "broker_wf b" and "lookup b k = None"
  shows "inst_view (snd (insert_instance k i b)) = (inst_view b)(k \<mapsto> i)"
proof
  fix k'
  have "r < length (heap b)" if "lookup b k' = Some r" for r
    using lookup_ref [OF assms(1) that] .
  then show "inst_view (snd (insert_instance k i b)) k' = ((inst_view b)(k \<mapsto> i)) k'"
    by (cases "lookup b k'") (auto simp: inst_view_def lookup_def deref_def nth_append)
qed

lemma broker_wf_remove: "broker_wf b \<Longrightarrow> broker_wf (remove_instance k b)"
  by (auto simp: broker_wf_def remove_instance_def delete_filter distinct_map_filter)

lemma inst_view_remove: "inst_view (remove_instance k b) = (inst_view b)(k := None)"
  by (auto simp: inst_view_def lookup_def fun_eq_iff remove_instance_def)

lemma broker_wf_modify:
  assumes "broker_wf b" and "lookup b k = Some r" and "instance_ok k (f (heap b ! r))"
  shows "broker_wf (modify r f b)"
proof -
  have "instance_ok k' ((heap b)[r := f (heap b ! r)] ! r')" if "(k', r') \<in> set (instances b)" for k' r'
  proof (cases "r' = r")
    case True
    then have "k' = k"
      using that lookup_inj [OF assms(1,2)] lookup_mem [OF assms(1)] by simp
    then show ?thesis
      using True assms(3) lookup_ref [OF assms(1,2)] by simp
  next
    case False
    then show ?thesis
      using that lookup_ok [OF assms(1)] lookup_mem [OF assms(1)] by simp
  qed
  then show ?thesis
    using assms(1) by (auto simp: broker_wf_def modify_def)
qed

lemma inst_view_modify:
  assumes "broker_wf b" and "lookup b k = Some r"
  shows "inst_view (modify r f b) = (inst_view b)(k \<mapsto> f (heap b ! r))"
proof
  fix k'
  show "inst_view (modify r f b) k' = ((inst_view b)(k \<mapsto> f (heap b ! r))) k'"
    using lookup_inj [OF assms, of k'] lookup_ref [OF assms]
    by (cases "lookup b k'") (auto simp: inst_view_def deref_modify assms(2), simp add: deref_def)
qed

interpretation store: instance_store broker_wf instance_ok inst_view
    "\<lambda>k i b. snd (insert_instance k i b)" remove_instance update_instance
proof unfold_locales
  fix s :: Broker
  show "finite (dom (inst_view s))"
    by (rule finite_subset [OF _ finite_dom_map_of [of "instances s"]])
      (auto simp: inst_view_def lookup_def)
next
  fix s k i assume "broker_wf s" "inst_view s k = Some i"
  then show "instance_ok k i"
    by (auto simp: inst_view_Some dest: lookup_ok)
next
  fix s k i and f :: "Instance \<Rightarrow> Instance"
  assume "broker_wf s" "inst_view s k = Some i" "instance_ok k (f i)"
  then show "broker_wf (update_instance k f s)"
    by (auto simp: inst_view_Some update_instance_def broker_wf_modify)
next
  fix s k i and f :: "Instance \<Rightarrow> Instance"
  assume "broker_wf s" "inst_view s k = Some i"
  then show "inst_view (update_instance k f s) = (inst_view s)(k \<mapsto> f i)"
    by (auto simp: inst_view_Some update_instance_def inst_view_modify)
qed (auto simp: broker_wf_insert inst_view_insert broker_wf_remove inst_view_remove)

text \<open>The loops that count records compute the tally of the store.\<close>

lemma count_loop_tally:
  assumes "broker_wf b"
  shows "length (filter (\<lambda>(_, r). P (deref b r)) (instances b)) = store.tally P b"
proof -
  let ?es = "filter (\<lambda>(_, r). P (deref b r)) (instances b)"
  have "distinct (map fst ?es)"
    using assms by (simp add: broker_wf_def distinct_map_filter)
  then have "length ?es = card (fst ` set ?es)"
    by (metis distinct_card length_map set_map)
  also have "fst ` set ?es = {k. \<exists>i. inst_view b k = Some i \<and> P i}"
    using lookup_mem [OF assms] by (force simp: inst_view_def)
  finally show ?thesis
    by (simp add: store.tally_def)
qed

definition active :: "Instance \<Rightarrow> bool" where
  "active i \<longleftrightarrow> i_State i \<noteq> ''deprovisioning''"

lemma countInstances_tally: "broker_wf b \<Longrightarrow> countInstances b = store.tally active b"
  unfolding countInstances_def
  using count_loop_tally [of b active] by (simp add: active_def [abs_def])

lemma countInstancesByOrg_tally:
  "broker_wf b \<Longrightarrow> countInstancesByOrg b org = store.tally (\<lambda>i. i_OrgGUID i = org \<and> active i) b"
  unfolding countInstancesByOrg_def
  using count_loop_tally [of b "\<lambda>i. i_OrgGUID i = org \<and> active i"] by (simp add: active_def)

lemma findPlan_Some: "findPlan c pid = Some p \<Longrightarrow> p \<in> set (effective_plans c) \<and> p_ID p = pid"
  by (auto simp: findPlan_def find_Some_iff)

section \<open>A sample broker\<close>

text \<open>A concrete configuration and broker, at which properties are evaluated.\<close>

definition sample_config :: BrokerConfig where
  "sample_config = \<lparr>c_MinOpenClawVersion = ''2026.1.29'', c_SandboxMode = [], c_OpenClawVersion = ''2026.2.21'', c_Plans = [],
     c_AppsDomain = ''apps.example'', c_Network = [], c_AZs = [''z1''], c_StemcellOS = [],
     c_StemcellVersion = [], c_CFDeploymentName = [], c_OpenClawReleaseVersion = [], c_BPMReleaseVersion = [],
     c_RoutingReleaseVersion = [], c_SSOEnabled = False, c_SSOOIDCIssuerURL = [], c_SSOAllowedEmailDomains = [],
     c_SSOSessionTimeoutHours = 0, c_CFUaaURL = [], c_CFUaaAdminClientID = [], c_CFUaaAdminClientSecret = [],
     c_MaxInstances = 2, c_MaxInstancesPerOrg = 1, c_LLMProvider = [], c_LLMEndpoint = [],
     c_LLMAPIKey = [], c_LLMModel = [], c_LLMPreferredModel = [], c_LLMAPIEndpoint = [],
     c_GenAIOfferingName = [], c_GenAIPlanName = [], c_BlockedCommands = [], c_NATSTLSEnabled = False,
     c_NATSTLSClientCert = [], c_NATSTLSClientKey = [], c_NATSTLSCACert = [], c_StateDir = ''/var/vcap/store''\<rparr>"

definition sample_broker :: Broker where
  "sample_broker = \<lparr>config = sample_config,
     director = NewClient ''https://10.0.0.6:25555/'' ''admin'' ''secret'' [],
     uaaClient = None, instances = [], heap = [], upgrade_tasks = [], files = (\<lambda>_. None)\<rparr>"

definition sample_instance :: "instance_id \<Rightarrow> string \<Rightarrow> int \<Rightarrow> Instance" where
  "sample_instance k st task = zero_instance\<lparr>i_ID := k, i_DeploymentName := deploymentNameFor k,
     i_State := st, i_BoshTaskID := task, i_PlanID := ''openclaw-developer-plan'',
     i_OrgGUID := ''org'', i_OpenClawVersion := ''2026.1.30'', i_GatewayToken := ''oc_tok_x'',
     i_RouteHostname := ''oc-user-'' @ k, i_AppsDomain := ''apps.example''\<rparr>"

definition sample_with :: "instance_id \<Rightarrow> string \<Rightarrow> int \<Rightarrow> Broker" where
  "sample_with k st task = snd (insert_instance k (sample_instance k st task) sample_broker)"

lemma sample_broker_wf: "broker_wf sample_broker"
  by (simp add: broker_wf_def sample_broker_def)

lemma sample_broker_view: "inst_view sample_broker = Map.empty" "lookup sample_broker k = None"
  by (simp_all add: inst_view_def lookup_def sample_broker_def fun_eq_iff)

lemma sample_instance_ok: "instance_ok k (sample_instance k st task)"
  by (simp add: instance_ok_def sample_instance_def)

lemma sample_config_fields [simp]:
  "config sample_broker = sample_config" "uaaClient sample_broker = None"
  "c_StateDir sample_config = ''/var/vcap/store''" "c_SSOEnabled sample_config = False"
  by (simp_all add: sample_broker_def sample_config_def)

lemma sample_with_props [simp]:
  "broker_wf (sample_with k st task)"
  "inst_view (sample_with k st task) = [k \<mapsto> sample_instance k st task]"
  "config (sample_with k st task) = sample_config"
  "uaaClient (sample_with k st task) = None"
  by (simp_all add: sample_with_def broker_wf_insert inst_view_insert sample_broker_wf
      sample_broker_view sample_instance_ok)

end
