(* ===== verification/Persistence.thy ===== *)
theory Persistence
  imports Broker_State
begin

text \<open>
  The state file (\<^verbatim>\<open>saveState\<close>, \<^verbatim>\<open>loadState\<close> and \<^verbatim>\<open>New\<close> of \<^verbatim>\<open>broker/broker.go\<close>): how an instance
  record is written as a JSON object with the tags of the struct, how it is read back, and the
  write-then-rename protocol; files are bytes. The path is the state directory followed by the file name.
\<close>

section \<open>Model\<close>

definition state_path :: "BrokerConfig \<Rightarrow> string" where
  "state_path c = c_StateDir c @ ''/instances.json''"

definition opt_member :: "string \<Rightarrow> string \<Rightarrow> (string \<times> json) list" where
  "opt_member tag s = (if s = [] then [] else [(tag, JStr s)])"

text \<open>The members of a marshalled \<^verbatim>\<open>Instance\<close>; \<^verbatim>\<open>omitempty\<close> fields are left out when empty.\<close>

definition marshal_instance :: "Instance \<Rightarrow> (string \<times> json) list" where
  "marshal_instance i =
    [(''id'', JStr (i_ID i)),
     (''plan_id'', JStr (i_PlanID i)),
     (''plan_name'', JStr (i_PlanName i)),
     (''owner'', JStr (i_Owner i)),
     (''org_guid'', JStr (i_OrgGUID i)),
     (''space_guid'', JStr (i_SpaceGUID i)),
     (''deployment_name'', JStr (i_DeploymentName i)),
     (''gateway_token'', JStr (i_GatewayToken i)),
     (''node_seed'', JStr (i_NodeSeed i)),
     (''route_hostname'', JStr (i_RouteHostname i)),
     (''apps_domain'', JStr (i_AppsDomain i)),
     (''vm_type'', JStr (i_VMType i)),
     (''disk_type'', JStr (i_DiskType i)),
     (''state'', JStr (i_State i)),
     (''bosh_task_id'', JInt (i_BoshTaskID i)),
     (''sso_enabled'', JBool (i_SSOEnabled i))]
    @ opt_member ''sso_client_id'' (i_SSOClientID i)
    @ opt_member ''sso_client_secret'' (i_SSOClientSecret i)
    @ opt_member ''sso_cookie_secret'' (i_SSOCookieSecret i)
    @ [(''openclaw_version'', JStr (i_OpenClawVersion i))]"

definition unmarshal_instance :: "(string \<times> json) list \<Rightarrow> Instance option" where
  "unmarshal_instance ms =
    (case (field_string ''id'' ms [],
           field_string ''plan_id'' ms [],
           field_string ''plan_name'' ms [],
           field_string ''owner'' ms [],
           field_string ''org_guid'' ms [],
           field_string ''space_guid'' ms [],
           field_string ''deployment_name'' ms [],
           field_string ''gateway_token'' ms [],
           field_string ''node_seed'' ms [],
           field_string ''route_hostname'' ms [],
           field_string ''apps_domain'' ms [],
           field_string ''vm_type'' ms [],
           field_string ''disk_type'' ms [],
           field_string ''state'' ms [],
           field_int ''bosh_task_id'' ms 0,
           field_bool ''sso_enabled'' ms False,
           field_string ''sso_client_id'' ms [],
           field_string ''sso_client_secret'' ms [],
           field_string ''sso_cookie_secret'' ms [],
           field_string ''openclaw_version'' ms []) of
       (Some x0, Some x1, Some x2, Some x3, Some x4, Some x5, Some x6, Some x7, Some x8, Some x9, Some x10, Some x11, Some x12, Some x13, Some x14, Some x15, Some x16, Some x17, Some x18, Some x19) \<Rightarrow>
         Some \<lparr>i_ID = x0, i_PlanID = x1, i_PlanName = x2, i_Owner = x3, i_OrgGUID = x4, i_SpaceGUID = x5, i_DeploymentName = x6, i_GatewayToken = x7, i_NodeSeed = x8, i_RouteHostname = x9, i_AppsDomain = x10, i_VMType = x11, i_DiskType = x12, i_State = x13, i_BoshTaskID = x14, i_SSOEnabled = x15, i_SSOClientID = x16, i_SSOClientSecret = x17, i_SSOCookieSecret = x18, i_OpenClawVersion = x19\<rparr>
     | _ \<Rightarrow> None)"

text \<open>The value \<^verbatim>\<open>b.instances\<close> is encoded as: an object with the identifiers in sorted order.\<close>

definition marshal_instances :: "Broker \<Rightarrow> json" where
  "marshal_instances b =
     JObj (map (\<lambda>(k, r). (k, JObj (marshal_instance (deref b r))))
             (sort_key fst (instances b)))"

text \<open>
  \<^verbatim>\<open>json.Unmarshal\<close> into \<^verbatim>\<open>map[string]*Instance\<close>: \<open>None\<close> is an error; a \<^verbatim>\<open>null\<close> document gives a
  \<^verbatim>\<open>nil\<close> map and a \<^verbatim>\<open>null\<close> member a \<^verbatim>\<open>nil\<close> pointer, both written \<open>None\<close> inside.
\<close>

fun unmarshal_members :: "(string \<times> json) list \<Rightarrow> (string \<times> Instance option) list option" where
  "unmarshal_members [] = Some []"
| "unmarshal_members ((k, v) # ms) =
    (case v of
       JNull \<Rightarrow> map_option (\<lambda>t. (k, None) # t) (unmarshal_members ms)
     | JObj fs \<Rightarrow>
        (case unmarshal_instance fs of
           None \<Rightarrow> None
         | Some i \<Rightarrow> map_option (\<lambda>t. (k, Some i) # t) (unmarshal_members ms))
     | _ \<Rightarrow> None)"

text \<open>Later members of the same name replace earlier ones.\<close>

definition unmarshal_instances :: "json \<Rightarrow> (string \<times> Instance option) list option option" where
  "unmarshal_instances j =
    (case j of
       JNull \<Rightarrow> Some None
     | JObj ms \<Rightarrow>
        map_option (\<lambda>es. Some (fold (\<lambda>(k, v) al. AList.update k v al) es [])) (unmarshal_members ms)
     | _ \<Rightarrow> None)"

definition saveState :: "('w, 'e) ext_scheme \<Rightarrow> Broker \<Rightarrow> 'w \<Rightarrow> Broker \<times> 'w" where
  "saveState e b w =
    (if c_StateDir (config b) = [] then (b, w)
     else let data = json_MarshalIndent (marshal_instances b);
              path = state_path (config b);
              tmp = path @ ''.tmp''
          in case writeFile e w of
            (WriteFailed part, w) \<Rightarrow> (b\<lparr>files := (files b)(tmp := part)\<rparr>, w)
          | (Written, w) \<Rightarrow>
             (case renameOK e w of
                (False, w) \<Rightarrow> (b\<lparr>files := (files b)(tmp := Some data)\<rparr>, w)
              | (True, w) \<Rightarrow> (b\<lparr>files := (files b)(tmp := None, path := Some data)\<rparr>, w)))"

text \<open>Put the loaded records on the heap, one reference each.\<close>

fun load_records :: "(string \<times> Instance) list \<Rightarrow> Broker \<Rightarrow> Broker" where
  "load_records [] b = b"
| "load_records ((k, i) # es) b =
     load_records es (b\<lparr>heap := heap b @ [i], instances := instances b @ [(k, length (heap b))]\<rparr>)"

text \<open>
  \<^verbatim>\<open>loadState\<close>. The result is \<open>None\<close> when the broker ends up with a \<^verbatim>\<open>nil\<close> map or a \<^verbatim>\<open>nil\<close> record,
  on which the next request that touches it panics; \<^verbatim>\<open>saveState\<close> never writes such a file.
\<close>

definition loadState :: "Broker \<Rightarrow> Broker option" where
  "loadState b =
    (if c_StateDir (config b) = [] then Some b
     else case files b (state_path (config b)) of
       None \<Rightarrow> Some b
     | Some data \<Rightarrow>
        (case Option.bind (json_Unmarshal data) unmarshal_instances of
           None \<Rightarrow> Some b
         | Some None \<Rightarrow> None
         | Some (Some es) \<Rightarrow>
            if list_all (\<lambda>(_, v). v \<noteq> None) es
            then Some (load_records (map (\<lambda>(k, v). (k, the v)) es) (b\<lparr>instances := []\<rparr>))
            else None))"

text \<open>\<^verbatim>\<open>New\<close>, on a machine with the given files.\<close>

definition New :: "BrokerConfig \<Rightarrow> Client \<Rightarrow> file_system \<Rightarrow> Broker option" where
  "New cfg director' fs =
    (let cfg = cfg\<lparr>c_Plans := normalizePlans (c_Plans cfg)\<rparr>;
         uaa = (if c_SSOEnabled cfg \<and> c_CFUaaURL cfg \<noteq> [] \<and> c_CFUaaAdminClientSecret cfg \<noteq> []
                then Some (NewUaaClient (c_CFUaaURL cfg) (c_CFUaaAdminClientID cfg)
                             (c_CFUaaAdminClientSecret cfg))
                else None)
     in loadState \<lparr>config = cfg, director = director', uaaClient = uaa, instances = [], heap = [],
          upgrade_tasks = [], files = fs\<rparr>)"

section \<open>Lemmas\<close>

lemma saveState_frame [simp]:
  "config (fst (saveState e b w)) = config b" "director (fst (saveState e b w)) = director b"
  "uaaClient (fst (saveState e b w)) = uaaClient b"
  "instances (fst (saveState e b w)) = instances b" "heap (fst (saveState e b w)) = heap b"
  "upgrade_tasks (fst (saveState e b w)) = upgrade_tasks b"
  by (auto simp: saveState_def Let_def split: prod.splits write_result.splits bool.splits)

lemma saveState_view [simp]: "inst_view (fst (saveState e b w)) = inst_view b"
  by (auto simp: inst_view_def lookup_def fun_eq_iff deref_def intro!: map_option_cong)

lemma saveState_wf [simp]: "broker_wf (fst (saveState e b w)) = broker_wf b"
  by (simp add: broker_wf_def)

lemma saveState_lookup [simp]: "lookup (fst (saveState e b w)) k = lookup b k"
  by (simp add: lookup_def)

text \<open>What a record looks like after a round trip through the file.\<close>

definition text_instance :: "Instance \<Rightarrow> Instance" where
  "text_instance i = \<lparr>i_ID = json_text (i_ID i),
     i_PlanID = json_text (i_PlanID i),
     i_PlanName = json_text (i_PlanName i),
     i_Owner = json_text (i_Owner i),
     i_OrgGUID = json_text (i_OrgGUID i),
     i_SpaceGUID = json_text (i_SpaceGUID i),
     i_DeploymentName = json_text (i_DeploymentName i),
     i_GatewayToken = json_text (i_GatewayToken i),
     i_NodeSeed = json_text (i_NodeSeed i),
     i_RouteHostname = json_text (i_RouteHostname i),
     i_AppsDomain = json_text (i_AppsDomain i),
     i_VMType = json_text (i_VMType i),
     i_DiskType = json_text (i_DiskType i),
     i_State = json_text (i_State i),
     i_BoshTaskID = i_BoshTaskID i,
     i_SSOEnabled = i_SSOEnabled i,
     i_SSOClientID = json_text (i_SSOClientID i),
     i_SSOClientSecret = json_text (i_SSOClientSecret i),
     i_SSOCookieSecret = json_text (i_SSOCookieSecret i),
     i_OpenClawVersion = json_text (i_OpenClawVersion i)\<rparr>"

definition instance_saveable :: "Instance \<Rightarrow> bool" where
  "instance_saveable i \<longleftrightarrow> int64_range (i_BoshTaskID i) \<and> text_instance i = i"

text \<open>Tags are told apart by the folding: evaluate every pair once.\<close>

definition instance_tags :: "string list" where
  "instance_tags = [''id'', ''plan_id'', ''plan_name'', ''owner'', ''org_guid'', ''space_guid'', ''deployment_name'', ''gateway_token'', ''node_seed'', ''route_hostname'', ''apps_domain'', ''vm_type'', ''disk_type'', ''state'', ''bosh_task_id'', ''sso_enabled'', ''sso_client_id'', ''sso_client_secret'', ''sso_cookie_secret'', ''openclaw_version'']"

lemma tags_folded: "distinct (map fold_name instance_tags)"
  by code_simp

lemma key_match_tags:
  "s \<in> set instance_tags \<Longrightarrow> t \<in> set instance_tags \<Longrightarrow> key_match s t \<longleftrightarrow> s = t"
  using tags_folded unfolding key_match_def distinct_map by (auto dest: inj_onD)

lemma tag_mem:
  "''id'' \<in> set instance_tags"
  "''plan_id'' \<in> set instance_tags"
  "''plan_name'' \<in> set instance_tags"
  "''owner'' \<in> set instance_tags"
  "''org_guid'' \<in> set instance_tags"
  "''space_guid'' \<in> set instance_tags"
  "''deployment_name'' \<in> set instance_tags"
  "''gateway_token'' \<in> set instance_tags"
  "''node_seed'' \<in> set instance_tags"
  "''route_hostname'' \<in> set instance_tags"
  "''apps_domain'' \<in> set instance_tags"
  "''vm_type'' \<in> set instance_tags"
  "''disk_type'' \<in> set instance_tags"
  "''state'' \<in> set instance_tags"
  "''bosh_task_id'' \<in> set instance_tags"
  "''sso_enabled'' \<in> set instance_tags"
  "''sso_client_id'' \<in> set instance_tags"
  "''sso_client_secret'' \<in> set instance_tags"
  "''sso_cookie_secret'' \<in> set instance_tags"
  "''openclaw_version'' \<in> set instance_tags"
  by (simp_all add: instance_tags_def)

lemma field_string_append:
  "field_string t (xs @ ys) cur =
    (case field_string t xs cur of None \<Rightarrow> None | Some c \<Rightarrow> field_string t ys c)"
  by (induction xs arbitrary: cur) (auto split: json.splits)

lemma field_int_append:
  "field_int t (xs @ ys) cur =
    (case field_int t xs cur of None \<Rightarrow> None | Some c \<Rightarrow> field_int t ys c)"
  by (induction xs arbitrary: cur) (auto split: json.splits)

lemma field_bool_append:
  "field_bool t (xs @ ys) cur =
    (case field_bool t xs cur of None \<Rightarrow> None | Some c \<Rightarrow> field_bool t ys c)"
  by (induction xs arbitrary: cur) (auto split: json.splits)

lemma json_text_Nil [simp]: "json_text [] = []"
  by (simp add: json_text_def)

text \<open>Members as they are read after having been written.\<close>

abbreviation norm_members :: "(string \<times> json) list \<Rightarrow> (string \<times> json) list" where
  "norm_members \<equiv> map (\<lambda>(k, j). (json_text k, json_norm j))"

lemma tags_text: "t \<in> set instance_tags \<Longrightarrow> json_text t = t"
proof -
  have "list_all (\<lambda>t. json_text t = t) instance_tags"
    by code_simp
  then show "t \<in> set instance_tags \<Longrightarrow> json_text t = t"
    by (simp add: list_all_iff)
qed

lemma field_opt_member:
  assumes "json_text u = u"
  shows "field_string t (norm_members (opt_member u s)) [] = Some (if key_match t u then json_text s else [])"
    "\<not> key_match t u \<Longrightarrow> field_string t (norm_members (opt_member u s)) cur = Some cur"
    "\<not> key_match t u \<Longrightarrow> field_int t (norm_members (opt_member u s)) n = Some n"
    "\<not> key_match t u \<Longrightarrow> field_bool t (norm_members (opt_member u s)) b = Some b"
  using assms by (simp_all add: opt_member_def)

text \<open>Writing a record and reading it back gives the record with its strings made valid UTF-8.\<close>

lemma unmarshal_marshal_instance:
  "int64_range (i_BoshTaskID i) \<Longrightarrow>
   unmarshal_instance (norm_members (marshal_instance i)) = Some (text_instance i)"
  by (simp add: unmarshal_instance_def marshal_instance_def field_string_append field_int_append
      field_bool_append field_opt_member key_match_tags tag_mem tags_text text_instance_def)

lemma unmarshal_members_map:
  "\<forall>(k, r) \<in> set es. instance_saveable (f r) \<and> utf8_valid k \<Longrightarrow>
   unmarshal_members (norm_members (map (\<lambda>(k, r). (k, JObj (marshal_instance (f r)))) es))
     = Some (map (\<lambda>(k, r). (k, Some (f r))) es)"
  by (induction es)
    (auto simp: unmarshal_marshal_instance instance_saveable_def utf8_valid_def)

lemma marshal_instances_fits: "json_fits maxNestingDepth (marshal_instances b)"
proof -
  have fits: "json_fits (Suc (Suc n)) (marshal_instances b)" for n
    by (auto simp: marshal_instances_def marshal_instance_def opt_member_def split: if_splits)
  have "maxNestingDepth = Suc (Suc 9998)"
    by (simp add: maxNestingDepth_def)
  then show ?thesis
    using fits by metis
qed

lemma fold_update_distinct:
  "distinct (map fst es) \<Longrightarrow> set (map fst es) \<inter> set (map fst al) = {} \<Longrightarrow>
   fold (\<lambda>(k, v) al. AList.update k v al) es al = al @ es"
  by (induction es arbitrary: al) (auto simp: update_fresh map_of_eq_None_iff)

lemma load_records_frame [simp]:
  "config (load_records es b) = config b" "files (load_records es b) = files b"
  by (induction es b rule: load_records.induct) auto

lemma load_records_view:
  assumes "\<forall>(k, r) \<in> set (instances b). r < length (heap b)"
  shows "inst_view (load_records es b) = map_of es ++ inst_view b"
  using assms
proof (induction es b rule: load_records.induct)
  case (2 k i es b)
  let ?b = "b\<lparr>heap := heap b @ [i], instances := instances b @ [(k, length (heap b))]\<rparr>"
  have "inst_view ?b k' = ([k \<mapsto> i] ++ inst_view b) k'" for k'
    using 2(2) by (cases "map_of (instances b) k'")
      (auto simp: inst_view_def lookup_def deref_def map_add_def nth_append dest!: map_of_SomeD)
  then have "inst_view ?b = [k \<mapsto> i] ++ inst_view b"
    by blast
  moreover have "\<forall>(k, r) \<in> set (instances ?b). r < length (heap ?b)"
    using 2(2) by auto
  ultimately have "inst_view (load_records es ?b) = map_of es ++ ([k \<mapsto> i] ++ inst_view b)"
    using 2(1) by simp
  also have "\<dots> = map_of ((k, i) # es) ++ inst_view b"
    by (simp add: map_add_assoc)
  finally show ?case
    by (simp only: load_records.simps)
qed simp

lemma load_records_wf:
  assumes "broker_wf b" and "distinct (map fst es)" and "set (map fst es) \<inter> set (map fst (instances b)) = {}"
    and "\<forall>(k, i) \<in> set es. instance_ok k i"
  shows "broker_wf (load_records es b)"
  using assms
proof (induction es b rule: load_records.induct)
  case (2 k i es b)
  let ?b = "b\<lparr>heap := heap b @ [i], instances := instances b @ [(k, length (heap b))]\<rparr>"
  have "broker_wf ?b"
    using 2(2,4,5) wf_refs_below [OF 2(2)]
    by (auto simp: broker_wf_def nth_append dest!: bspec)
  with 2 show ?case
    by (auto simp: image_iff)
qed simp

text \<open>A file that \<^verbatim>\<open>saveState\<close> wrote, read by a new broker.\<close>

lemma unmarshal_marshal_instances:
  assumes "broker_wf b" and "\<forall>k i. inst_view b k = Some i \<longrightarrow> utf8_valid k \<and> instance_saveable i"
  shows "unmarshal_instances (json_norm (marshal_instances b)) =
    Some (Some (map (\<lambda>(k, r). (k, Some (deref b r))) (sort_key fst (instances b))))"
proof -
  let ?es = "sort_key fst (instances b)"
  let ?vs = "map (\<lambda>(k, r). (k, Some (deref b r))) ?es"
  have "\<forall>(k, r) \<in> set ?es. instance_saveable (deref b r) \<and> utf8_valid k"
    using assms lookup_mem [OF assms(1)] by (auto simp: inst_view_def)
  note m = unmarshal_members_map [OF this]
  have "distinct (map fst ?vs)"
    using assms(1) by (simp add: broker_wf_def distinct_map o_def split_def)
  then have "fold (\<lambda>(k, v) al. AList.update k v al) ?vs [] = ?vs"
    using fold_update_distinct [of ?vs "[]"] by simp
  with m show ?thesis
    by (simp add: unmarshal_instances_def marshal_instances_def)
qed

lemma loadState_saved:
  assumes wf: "broker_wf b" and save: "\<forall>k i. inst_view b k = Some i \<longrightarrow> utf8_valid k \<and> instance_saveable i"
    and b0: "instances b0 = []" "c_StateDir (config b0) \<noteq> []"
      "files b0 (state_path (config b0)) = Some (json_MarshalIndent (marshal_instances b))"
  shows "\<exists>b'. loadState b0 = Some b' \<and> inst_view b' = inst_view b \<and> broker_wf b'"
proof -
  let ?es = "map (\<lambda>(k, r). (k, deref b r)) (sort_key fst (instances b))"
  let ?b' = "load_records ?es b0"
  have keys: "map fst ?es = map fst (sort_key fst (instances b))"
    by (simp add: split_def)
  have dist: "distinct (map fst ?es)"
    unfolding keys using wf by (simp add: broker_wf_def distinct_map)
  have same: "b0\<lparr>instances := []\<rparr> = b0"
    using b0(1) by simp
  have "loadState b0 = Some ?b'"
    using b0(2,3) unmarshal_marshal_instances [OF wf save] json_read_back(3) [OF marshal_instances_fits, of b]
    by (simp add: loadState_def list_all_iff split_def o_def same)
  moreover have "inst_view ?b' = inst_view b"
  proof -
    have "inst_view b0 = Map.empty"
      using b0(1) by (simp add: inst_view_def lookup_def fun_eq_iff)
    then have "inst_view ?b' = map_of ?es"
      using b0(1) by (simp add: load_records_view)
    also have "map_of ?es = inst_view b"
      using wf map_of_sort_key [of "instances b"]
      by (simp add: map_of_map inst_view_def lookup_def fun_eq_iff broker_wf_def)
    finally show ?thesis .
  qed
  moreover have "broker_wf ?b'"
  proof (rule load_records_wf [OF _ dist])
    show "broker_wf b0"
      using b0(1) by (simp add: broker_wf_def)
    show "\<forall>(k, i) \<in> set ?es. instance_ok k i"
      using wf by (auto simp: broker_wf_def deref_def)
  qed (simp add: b0(1))
  ultimately show ?thesis
    by blast
qed

section \<open>Properties\<close>

text \<open>
  C11. Instances survive a restart: when a save succeeds, a broker started on the resulting files
  with the same state directory parses them and sees exactly the same map from identifiers to records, and its
  invariant holds. The records must be representable in JSON: valid UTF-8 strings and task
  identifiers in the range of \<^verbatim>\<open>int\<close>.
\<close>

theorem restart_restores_instances:
  assumes "broker_wf b" and "c_StateDir (config b) \<noteq> []"
    and "\<forall>k i. inst_view b k = Some i \<longrightarrow> utf8_valid k \<and> instance_saveable i"
    and "writeFile e w = (Written, w1)" and "renameOK e w1 = (True, w2)"
    and "c_StateDir cfg = c_StateDir (config b)"
  shows "\<exists>b'. New cfg d (files (fst (saveState e b w))) = Some b' \<and> inst_view b' = inst_view b
           \<and> broker_wf b'"
proof -
  have "files (fst (saveState e b w)) (state_path cfg) = Some (json_MarshalIndent (marshal_instances b))"
    using assms(2,4,5,6) by (simp add: saveState_def state_path_def)
  then show ?thesis
    unfolding New_def Let_def using assms(2,6)
    by (intro loadState_saved [OF assms(1,3)]) (simp_all add: state_path_def)
qed

theorem restart_restores_instances_witness:
  "\<exists>b'. New sample_config (director sample_broker)
      (files (fst (saveState script_ext (sample_with ''a-1'' ''ready'' 7) (script_start [])))) = Some b'
    \<and> map_option i_State (inst_view b' ''a-1'') = Some ''ready''"
proof -
  let ?b = "sample_with ''a-1'' ''ready'' 7"
  have ok: "utf8_valid ''a-1'' \<and> instance_saveable (sample_instance ''a-1'' ''ready'' 7)"
    by code_simp
  have "\<exists>b'. New sample_config (director sample_broker)
      (files (fst (saveState script_ext ?b (script_start [])))) = Some b'
      \<and> inst_view b' = inst_view ?b \<and> broker_wf b'"
    by (rule restart_restores_instances) (use ok in \<open>auto simp: script_ext_def split: if_splits\<close>)
  then show ?thesis
    by (auto simp: sample_instance_def)
qed

text \<open>
  The state file is replaced atomically: whatever the file system answers, after a save it
  holds either the bytes it held before or those of the complete new document, and besides it only the
  temporary file may have changed.
\<close>

theorem saveState_atomic:
  "\<exists>part. files (fst (saveState e b w)) \<in>
     {(files b)(state_path (config b) @ ''.tmp'' := part),
      (files b)(state_path (config b) @ ''.tmp'' := part,
                state_path (config b) := Some (json_MarshalIndent (marshal_instances b)))}"
proof (cases "c_StateDir (config b) = []")
  case True
  then have "files (fst (saveState e b w)) =
      (files b)(state_path (config b) @ ''.tmp'' := files b (state_path (config b) @ ''.tmp''))"
    by (simp add: saveState_def)
  then show ?thesis
    by blast
next
  case False
  then show ?thesis
    unfolding saveState_def Let_def
    by (auto split: prod.splits write_result.splits bool.splits)
qed

end
