(* ===== verification/Provision.thy ===== *)
theory Provision
  imports Persistence
begin

text \<open>
  \<^verbatim>\<open>PUT /v2/service_instances/{id}\<close> (\<^verbatim>\<open>broker/provision.go\<close>). The handler is the composition of its
  lock sections and of the calls between them: \<open>Provision_reserve\<close> is everything under the first
  lock, \<open>Provision_sso\<close> the registration of the OAuth client, \<open>deploy_instance\<close> the rendering and the
  call to the Director, \<open>Provision_finish\<close> the last section. A request is the identifier from the
  path, the \<^verbatim>\<open>accepts_incomplete\<close> query value and the decoded body (\<open>None\<close> when decoding fails).
\<close>

section \<open>Model\<close>

record ProvisionRequest =
  q_ServiceID :: string
  q_PlanID :: string
  q_OrganizationGUID :: string
  q_SpaceGUID :: string
  q_Parameters :: "(string \<times> json) list"

text \<open>
  \<^verbatim>\<open>fmt.Sprintf("%v", o)\<close> of a decoded JSON value. Objects print their members in key order; a
  number is a \<^verbatim>\<open>float64\<close>, whose text the environment supplies.
\<close>

definition sprint_map :: "(string \<times> string) list \<Rightarrow> string" where
  "sprint_map ms =
     ''map['' @ strings_Join '' '' (map (\<lambda>(k, v). k @ '':'' @ v)
        (sort_key fst (fold (\<lambda>(k, v) al. AList.update k v al) ms []))) @ '']''"

primrec sprint_v :: "(json \<Rightarrow> string) \<Rightarrow> json \<Rightarrow> string" where
  "sprint_v num JNull = ''<nil>''"
| "sprint_v num (JBool b) = show_bool b"
| "sprint_v num (JInt i) = num (JInt i)"
| "sprint_v num (JFloat s) = num (JFloat s)"
| "sprint_v num (JStr s) = s"
| "sprint_v num (JArr xs) = ''['' @ strings_Join '' '' (map (sprint_v num) xs) @ '']''"
| "sprint_v num (JObj ms) = sprint_map (map (map_prod id (sprint_v num)) ms)"

definition asyncRequired :: response where
  "asyncRequired = writeJSON 422 (ErrorDesc ''AsyncRequired''
     ''This service plan requires client support for asynchronous service operations.'')"

declare asyncRequired_def [response_defs]

definition request_owner :: "('w, 'e) ext_scheme \<Rightarrow> ProvisionRequest \<Rightarrow> string" where
  "request_owner e req =
    (case map_of (q_Parameters req) ''owner'' of
       Some v \<Rightarrow> sprint_v (sprintFloat e) v
     | None \<Rightarrow> ''user'')"

text \<open>The record Provision creates.\<close>

definition newInstance ::
    "('w, 'e) ext_scheme \<Rightarrow> BrokerConfig \<Rightarrow> instance_id \<Rightarrow> ProvisionRequest \<Rightarrow> Plan \<Rightarrow> bytes \<Rightarrow> bytes
     \<Rightarrow> Instance" where
  "newInstance e c k req plan tokenBytes seedBytes =
    (let owner = request_owner e req
     in zero_instance\<lparr>i_ID := k, i_PlanID := q_PlanID req, i_PlanName := p_Name plan, i_Owner := owner,
          i_OrgGUID := q_OrganizationGUID req, i_SpaceGUID := q_SpaceGUID req,
          i_DeploymentName := deploymentNameFor k, i_GatewayToken := gateway_token tokenBytes,
          i_NodeSeed := node_seed seedBytes,
          i_RouteHostname := uniqueRouteHostname (lowerTable e) (route_owner (lowerTable e) owner) k,
          i_AppsDomain := c_AppsDomain c, i_VMType := p_VMType plan, i_DiskType := p_DiskType plan,
          i_State := ''provisioning'', i_SSOEnabled := c_SSOEnabled c,
          i_OpenClawVersion := c_OpenClawVersion c\<rparr>)"

definition version_gate :: "BrokerConfig \<Rightarrow> validate_error option" where
  "version_gate c =
    (if c_MinOpenClawVersion c \<noteq> []
     then ValidateVersion (c_OpenClawVersion c) (c_MinOpenClawVersion c) else None)"

text \<open>The first critical section: either an answer, or the reference of the reserved record.\<close>

definition Provision_reserve ::
    "('w, 'e) ext_scheme \<Rightarrow> instance_id \<Rightarrow> ProvisionRequest \<Rightarrow> Broker \<Rightarrow> 'w
     \<Rightarrow> (response + ref) \<times> Broker \<times> 'w" where
  "Provision_reserve e k req b w =
    (let c = config b in
     if lookup b k \<noteq> None then (Inl (writeJSON 409 (Error ''Instance already exists'')), b, w)
     else if c_MaxInstances c > 0 \<and> int (countInstances b) \<ge> c_MaxInstances c
       then (Inl (writeJSON 422 (ErrorDesc ''Quota exceeded''
               (''Maximum total instances ('' @ itoa (c_MaxInstances c) @ '') reached''))), b, w)
     else if c_MaxInstancesPerOrg c > 0
             \<and> int (countInstancesByOrg b (q_OrganizationGUID req)) \<ge> c_MaxInstancesPerOrg c
       then (Inl (writeJSON 422 (ErrorDesc ''Quota exceeded''
               (''Maximum instances per org ('' @ itoa (c_MaxInstancesPerOrg c) @ '') reached''))), b, w)
     else case version_gate c of
       Some err \<Rightarrow> (Inl (writeJSON 422 (VersionError ''Version below minimum safe version'' err)), b, w)
     | None \<Rightarrow>
        (case findPlan c (q_PlanID req) of
           None \<Rightarrow> (Inl (writeJSON 400 (Error ''Unknown plan'')), b, w)
         | Some plan \<Rightarrow>
            (let (tokenBytes, w) = randRead e 32 w;
                 (seedBytes, w) = randRead e 32 w;
                 i = newInstance e c k req plan tokenBytes seedBytes
             in if p_AZs plan = [] \<and> c_AZs c = []
                  then (Inl (writeJSON 500 (Error
                         ''Broker misconfiguration: no availability zones configured'')), b, w)
                else if c_AppsDomain c = []
                  then (Inl (writeJSON 500 (Error
                         ''Broker misconfiguration: no apps domain configured'')), b, w)
                else (case insert_instance k i b of (r, b) \<Rightarrow> (Inr r, b, w)))))"

definition oauth_client :: "instance_id \<Rightarrow> string \<Rightarrow> string \<Rightarrow> OAuthClient" where
  "oauth_client k secret redirectURI =
    \<lparr>o_ClientID = ClientIDForInstance k, o_ClientSecret = secret,
     o_AuthorizedGrantTypes = [''authorization_code''], o_RedirectURI = [redirectURI],
     o_Scope = [''openid''], o_Authorities = [''uaa.resource''],
     o_Name = ''OpenClaw Agent '' @ k\<rparr>"

definition set_sso :: "string \<Rightarrow> string \<Rightarrow> string \<Rightarrow> Instance \<Rightarrow> Instance" where
  "set_sso cid secret cookie i =
     i\<lparr>i_SSOClientID := cid, i_SSOClientSecret := secret, i_SSOCookieSecret := cookie\<rparr>"

definition Provision_sso ::
    "('w, 'e) ext_scheme \<Rightarrow> instance_id \<Rightarrow> ref \<Rightarrow> Broker \<Rightarrow> 'w \<Rightarrow> Broker \<times> 'w" where
  "Provision_sso e k r b w =
    (if \<not> i_SSOEnabled (deref b r) then (b, w)
     else case uaaClient b of
       None \<Rightarrow> (modify r (\<lambda>i. i\<lparr>i_SSOEnabled := False\<rparr>) b, w)
     | Some u \<Rightarrow>
        (let (secretBytes, w) = randRead e 32 w;
             (cookieBytes, w) = randRead e 32 w;
             secret = GenerateClientSecret secretBytes;
             cookie = GenerateCookieSecret cookieBytes;
             redirectURI = ''https://'' @ i_RouteHostname (deref b r) @ ''.''
               @ c_AppsDomain (config b) @ ''/oauth2/callback''
         in case CreateClient e u (oauth_client k secret redirectURI) w of
           (Some _, w) \<Rightarrow> (modify r (\<lambda>i. i\<lparr>i_SSOEnabled := False\<rparr>) b, w)
         | (None, w) \<Rightarrow> (modify r (set_sso (ClientIDForInstance k) secret cookie) b, w)))"

datatype deploy_result = RenderFailed | DeployFailed bosh_error | Deployed int

text \<open>Build the manifest of a record and hand it to the Director; shared with Update and Upgrade.\<close>

definition deploy_instance ::
    "('w, 'e) ext_scheme \<Rightarrow> ref \<Rightarrow> Broker \<Rightarrow> 'w \<Rightarrow> deploy_result \<times> Broker \<times> 'w" where
  "deploy_instance e r b w =
    (case RenderAgentManifest (buildManifestParams (config b) (deref b r)) of
       Inl _ \<Rightarrow> (RenderFailed, b, w)
     | Inr manifest \<Rightarrow>
        (case Deploy e (director b) manifest w of
           (Inl err, d, w) \<Rightarrow> (DeployFailed err, b\<lparr>director := d\<rparr>, w)
         | (Inr taskID, d, w) \<Rightarrow> (Deployed taskID, b\<lparr>director := d\<rparr>, w)))"

definition set_task :: "int \<Rightarrow> Instance \<Rightarrow> Instance" where
  "set_task t i = i\<lparr>i_BoshTaskID := t\<rparr>"

definition Provision_finish ::
    "('w, 'e) ext_scheme \<Rightarrow> instance_id \<Rightarrow> ref \<Rightarrow> string \<Rightarrow> deploy_result \<Rightarrow> Broker \<Rightarrow> 'w
     \<Rightarrow> response \<times> Broker \<times> 'w" where
  "Provision_finish e k r routeHostname res b w =
    (case res of
       RenderFailed \<Rightarrow>
         (writeJSON 500 (Error ''Failed to render deployment manifest''), remove_instance k b, w)
     | DeployFailed _ \<Rightarrow> (writeJSON 500 (Error ''Deployment failed''), remove_instance k b, w)
     | Deployed taskID \<Rightarrow>
        (case saveState e (modify r (set_task taskID) b) w of
           (b, w) \<Rightarrow>
             (writeJSON 202 (Provisioned (''https://'' @ routeHostname @ ''.'' @ c_AppsDomain (config b))
                (''provision-'' @ k)), b, w)))"

definition Provision ::
    "('w, 'e) ext_scheme \<Rightarrow> instance_id \<Rightarrow> string \<Rightarrow> ProvisionRequest option \<Rightarrow> Broker \<Rightarrow> 'w
     \<Rightarrow> response \<times> Broker \<times> 'w" where
  "Provision e k accepts_incomplete body b w =
    (if \<not> validInstanceID k then (writeJSON 400 (Error ''Invalid instance_id format''), b, w)
     else if accepts_incomplete \<noteq> ''true'' then (asyncRequired, b, w)
     else case body of
       None \<Rightarrow> (writeJSON 400 (Error ''Bad request''), b, w)
     | Some req \<Rightarrow>
        (case Provision_reserve e k req b w of
           (Inl resp, b, w) \<Rightarrow> (resp, b, w)
         | (Inr r, b, w) \<Rightarrow>
            (case Provision_sso e k r b w of (b, w) \<Rightarrow>
              (case deploy_instance e r b w of (res, b, w) \<Rightarrow>
                 Provision_finish e k r (i_RouteHostname (deref b r)) res b w))))"

section \<open>Lemmas\<close>

lemma newInstance_fields [simp]:
  "i_ID (newInstance e c k req plan tb sb) = k"
  "i_DeploymentName (newInstance e c k req plan tb sb) = deploymentNameFor k"
  "i_State (newInstance e c k req plan tb sb) = ''provisioning''"
  "i_OrgGUID (newInstance e c k req plan tb sb) = q_OrganizationGUID req"
  "i_SSOEnabled (newInstance e c k req plan tb sb) = c_SSOEnabled c"
  "i_SSOClientID (newInstance e c k req plan tb sb) = []"
  by (simp_all add: newInstance_def zero_instance_def Let_def)

lemma newInstance_more:
  "i_PlanID (newInstance e c k req plan tb sb) = q_PlanID req"
  "i_OpenClawVersion (newInstance e c k req plan tb sb) = c_OpenClawVersion c"
  "i_RouteHostname (newInstance e c k req plan tb sb) =
     uniqueRouteHostname (lowerTable e) (route_owner (lowerTable e) (request_owner e req)) k"
  by (simp_all add: newInstance_def zero_instance_def Let_def)

lemma newInstance_ok [record_ok]: "instance_ok k (newInstance e c k req plan tb sb)"
  by (simp add: instance_ok_def)

text \<open>What Provision checks before it reserves a slot.\<close>

definition provision_admitted :: "Broker \<Rightarrow> instance_id \<Rightarrow> ProvisionRequest \<Rightarrow> Plan \<Rightarrow> bool" where
  "provision_admitted b k req plan \<longleftrightarrow>
     lookup b k = None
     \<and> (c_MaxInstances (config b) > 0 \<longrightarrow> int (countInstances b) < c_MaxInstances (config b))
     \<and> (c_MaxInstancesPerOrg (config b) > 0 \<longrightarrow>
          int (countInstancesByOrg b (q_OrganizationGUID req)) < c_MaxInstancesPerOrg (config b))
     \<and> version_gate (config b) = None \<and> findPlan (config b) (q_PlanID req) = Some plan
     \<and> (p_AZs plan \<noteq> [] \<or> c_AZs (config b) \<noteq> []) \<and> c_AppsDomain (config b) \<noteq> []"

lemma Provision_reserve_cases:
  assumes "Provision_reserve e k req b w = (res, b', w')"
  obtains (refused) resp where "res = Inl resp" "b' = b" "status resp \<in> {400, 409, 422, 500}"
  | (reserved) plan tb sb where "res = Inr (length (heap b))" "provision_admitted b k req plan"
      "b' = snd (insert_instance k (newInstance e (config b) k req plan tb sb) b)"
  using assms unfolding Provision_reserve_def provision_admitted_def
  by (auto simp: Let_def response_defs insert_instance_def alloc_def
      split: if_splits option.splits prod.splits)

text \<open>Two records that differ in their single sign-on fields only.\<close>

definition erase_sso :: "Instance \<Rightarrow> Instance" where
  "erase_sso i = (set_sso [] [] [] i)\<lparr>i_SSOEnabled := False\<rparr>"

definition same_but_sso :: "Instance \<Rightarrow> Instance \<Rightarrow> bool" where
  "same_but_sso i j \<longleftrightarrow> erase_sso i = erase_sso j"

definition sso_settled :: "instance_id \<Rightarrow> Instance \<Rightarrow> bool" where
  "sso_settled k i \<longleftrightarrow> i_SSOClientID i = (if i_SSOEnabled i then ClientIDForInstance k else [])"

lemma same_but_sso_intros:
  "same_but_sso i i" "same_but_sso i (i\<lparr>i_SSOEnabled := a\<rparr>)"
  "same_but_sso i (set_sso cid secret cookie i)"
  by (simp_all add: same_but_sso_def erase_sso_def set_sso_def)

lemma same_but_sso_fields:
  assumes "same_but_sso i j"
  shows "i_ID j = i_ID i"
    "i_DeploymentName j = i_DeploymentName i"
    "i_State j = i_State i"
    "i_OrgGUID j = i_OrgGUID i"
    "i_PlanID j = i_PlanID i"
    "i_Owner j = i_Owner i"
    "i_RouteHostname j = i_RouteHostname i"
    "i_GatewayToken j = i_GatewayToken i"
    "i_OpenClawVersion j = i_OpenClawVersion i"
    "i_NodeSeed j = i_NodeSeed i"
    "i_AppsDomain j = i_AppsDomain i"
  using arg_cong [OF assms [unfolded same_but_sso_def], of i_ID]
    arg_cong [OF assms [unfolded same_but_sso_def], of i_DeploymentName]
    arg_cong [OF assms [unfolded same_but_sso_def], of i_State]
    arg_cong [OF assms [unfolded same_but_sso_def], of i_OrgGUID]
    arg_cong [OF assms [unfolded same_but_sso_def], of i_PlanID]
    arg_cong [OF assms [unfolded same_but_sso_def], of i_Owner]
    arg_cong [OF assms [unfolded same_but_sso_def], of i_RouteHostname]
    arg_cong [OF assms [unfolded same_but_sso_def], of i_GatewayToken]
    arg_cong [OF assms [unfolded same_but_sso_def], of i_OpenClawVersion]
    arg_cong [OF assms [unfolded same_but_sso_def], of i_NodeSeed]
    arg_cong [OF assms [unfolded same_but_sso_def], of i_AppsDomain]
  by (simp_all add: erase_sso_def set_sso_def)

lemma Provision_sso_effect:
  assumes "Provision_sso e k r b w = (b', w')" and "r < length (heap b)"
    and "i_SSOClientID (deref b r) = []"
  obtains j where "b' = modify r (\<lambda>_. j) b" "same_but_sso (deref b r) j" "sso_settled k j"
proof -
  have id: "modify r (\<lambda>_. deref b r) b = b"
    by (simp add: modify_def deref_def)
  have f: "modify r g b = modify r (\<lambda>_. g (deref b r)) b" for g
    by (simp add: modify_def deref_def)
  have "\<exists>j. b' = modify r (\<lambda>_. j) b \<and> same_but_sso (deref b r) j \<and> sso_settled k j"
  proof (cases "i_SSOEnabled (deref b r)")
    case False
    then show ?thesis
      using assms id same_but_sso_intros(1)
      by (intro exI [of _ "deref b r"]) (auto simp: Provision_sso_def sso_settled_def)
  next
    case True
    have "b' = modify r (\<lambda>i. i\<lparr>i_SSOEnabled := False\<rparr>) b
        \<or> (\<exists>s c. b' = modify r (set_sso (ClientIDForInstance k) s c) b)"
      using True assms(1)
      by (auto simp: Provision_sso_def Let_def split: option.splits prod.splits)
    then show ?thesis
    proof
      assume "b' = modify r (\<lambda>i. i\<lparr>i_SSOEnabled := False\<rparr>) b"
      then show ?thesis
        using same_but_sso_intros(2) assms(3) f [of "\<lambda>i. i\<lparr>i_SSOEnabled := False\<rparr>"]
        by (intro exI [of _ "(deref b r)\<lparr>i_SSOEnabled := False\<rparr>"]) (simp add: sso_settled_def)
    next
      assume "\<exists>s c. b' = modify r (set_sso (ClientIDForInstance k) s c) b"
      then obtain s c where "b' = modify r (set_sso (ClientIDForInstance k) s c) b"
        by blast
      then show ?thesis
        using same_but_sso_intros(3) True f [of "set_sso (ClientIDForInstance k) s c"]
        by (intro exI [of _ "set_sso (ClientIDForInstance k) s c (deref b r)"])
          (simp add: sso_settled_def set_sso_def)
    qed
  qed
  then show ?thesis
    using that by blast
qed

text \<open>Rendering always succeeds, and deploying touches nothing of the broker but the token.\<close>

lemma deploy_instance_effect:
  assumes "deploy_instance e r b w = (res, b', w')"
  shows "\<exists>d. b' = b\<lparr>director := d\<rparr> \<and> client_ident d = client_ident (director b)" "res \<noteq> RenderFailed"
  using assms director.deploy_ident [of e "director b"]
  by (fastforce simp: deploy_instance_def RenderAgentManifest_def split: prod.splits sum.splits)+

lemma deploy_instance_task:
  "deploy_instance e r b w = (Deployed t, b', w') \<Longrightarrow> task_given e (director b) t"
  by (fastforce simp: deploy_instance_def task_given_def split: prod.splits sum.splits)

lemma Provision_sso_director: "Provision_sso e k r b w = (b', w') \<Longrightarrow> director b' = director b"
  by (auto simp: Provision_sso_def Let_def split: if_splits option.splits prod.splits)

text \<open>What no request changes: configuration, UAA client, identity of the Director client, and that
  the upgrade tracker is a map.\<close>

definition broker_frame :: "Broker \<Rightarrow> Broker \<Rightarrow> bool" where
  "broker_frame b b' \<longleftrightarrow> config b' = config b \<and> uaaClient b' = uaaClient b
     \<and> client_ident (director b') = client_ident (director b)
     \<and> (distinct (map fst (upgrade_tasks b)) \<longrightarrow> distinct (map fst (upgrade_tasks b')))"

lemma broker_frame_refl [simp]: "broker_frame b b"
  by (simp add: broker_frame_def)

lemma broker_frame_trans: "broker_frame b b' \<Longrightarrow> broker_frame b' b'' \<Longrightarrow> broker_frame b b''"
  by (simp add: broker_frame_def)

lemma broker_frame_steps [simp]:
  "broker_frame b (modify r f b') = broker_frame b b'"
  "broker_frame b (remove_instance k b') = broker_frame b b'"
  "broker_frame b (snd (insert_instance k i b')) = broker_frame b b'"
  "broker_frame b (fst (saveState e b' w)) = broker_frame b b'"
  "client_ident d = client_ident (director b') \<Longrightarrow> broker_frame b (b'\<lparr>director := d\<rparr>) = broker_frame b b'"
  by (simp_all add: broker_frame_def)

lemma insert_lookup [simp]: "lookup (snd (insert_instance k i b)) k = Some (length (heap b))"
  by (simp add: lookup_def)

lemma insert_deref [simp]: "deref (snd (insert_instance k i b)) (length (heap b)) = i"
  by (simp add: deref_def)

lemma same_but_sso_ok: "same_but_sso i j \<Longrightarrow> instance_ok k i \<Longrightarrow> instance_ok k j"
  by (simp add: instance_ok_def same_but_sso_fields)

lemma set_task_ok [record_ok]: "instance_ok k (set_task t i) = instance_ok k i"
  by (simp add: instance_ok_def set_task_def)

text \<open>The state after the reservation and the registration: the record \<open>j\<close> is in the map.\<close>

lemma Provision_reserved_state:
  assumes "broker_wf b" "lookup b k = None" "instance_ok k i" "instance_ok k j"
  defines "b1 \<equiv> modify (length (heap b)) (\<lambda>_. j) (snd (insert_instance k i b))"
  shows "broker_wf b1" "inst_view b1 = (inst_view b)(k \<mapsto> j)" "lookup b1 k = Some (length (heap b))"
    "heap b1 ! length (heap b) = j"
  using assms broker_wf_insert [OF assms(1,2,3)]
  by (simp_all add: broker_wf_modify [where k = k] inst_view_modify [where k = k] inst_view_insert)
    (simp add: modify_def)

text \<open>The last section: the record is dropped, or it gets its task.\<close>

lemma Provision_finish_effect:
  assumes fin: "Provision_finish e k r route res b w = (resp, b', w')" and "res \<noteq> RenderFailed"
    and b: "broker_wf b" "lookup b k = Some r" "heap b ! r = j"
  obtains (failed) "status resp = 500" "inst_view b' = (inst_view b)(k := None)" "broker_wf b'"
      "broker_frame b b'"
  | (deployed) t where "res = Deployed t" "status resp = 202"
      "inst_view b' = (inst_view b)(k \<mapsto> set_task t j)" "broker_wf b'" "broker_frame b b'"
      "content resp = Provisioned (''https://'' @ route @ ''.'' @ c_AppsDomain (config b))
         (''provision-'' @ k)"
proof (cases res)
  case RenderFailed
  then show ?thesis
    using assms(2) by simp
next
  case (DeployFailed err)
  then have "b' = remove_instance k b" "status resp = 500"
    using fin by (auto simp: Provision_finish_def response_defs)
  then show ?thesis
    using failed b by (simp add: inst_view_remove broker_wf_remove)
next
  case (Deployed t)
  obtain b2 w2 where s: "saveState e (modify r (set_task t) b) w = (b2, w2)"
    by fastforce
  then have b2: "b2 = fst (saveState e (modify r (set_task t) b) w)"
    by simp
  have ok: "instance_ok k (set_task t j)"
    using lookup_ok [OF b(1,2)] b(3) by (simp add: record_ok)
  have "resp = writeJSON 202 (Provisioned (''https://'' @ route @ ''.'' @ c_AppsDomain (config b2))
      (''provision-'' @ k))" "b' = b2"
    using fin s Deployed by (auto simp: Provision_finish_def)
  then show ?thesis
    using deployed [OF Deployed] b ok
    by (simp add: b2 response_defs broker_wf_modify [where k = k] inst_view_modify [where k = k])
qed

text \<open>The whole handler, seen on the map of instances.\<close>

lemma Provision_effect:
  assumes wf: "broker_wf b" and eq: "Provision e k acc body b w = (resp, b', w')"
  obtains (refused) "status resp \<in> {400, 409, 422, 500}" "inst_view b' = inst_view b" "broker_wf b'"
      "broker_frame b b'"
  | (accepted) req plan tb sb j t where "validInstanceID k" "body = Some req" "status resp = 202"
      "provision_admitted b k req plan"
      "same_but_sso (newInstance e (config b) k req plan tb sb) j" "sso_settled k j"
      "inst_view b' = (inst_view b)(k \<mapsto> set_task t j)" "broker_wf b'" "broker_frame b b'"
      "content resp = Provisioned (''https://'' @ i_RouteHostname j @ ''.'' @ c_AppsDomain (config b))
         (''provision-'' @ k)"
      "task_given e (director b) t"
proof (cases "validInstanceID k \<and> acc = ''true'' \<and> body \<noteq> None")
  case False
  then have "b' = b" "status resp \<in> {400, 409, 422, 500}"
    using eq by (auto simp: Provision_def response_defs split: if_splits option.splits)
  then show ?thesis
    using refused wf by simp
next
  case True
  then obtain req where req: "body = Some req"
    by blast
  obtain res b1 w1 where r1: "Provision_reserve e k req b w = (res, b1, w1)"
    by (metis prod_cases3)
  from r1 show ?thesis
  proof (cases rule: Provision_reserve_cases)
    case (refused rsp)
    then show ?thesis
      using that(1) wf eq True req r1 by (auto simp: Provision_def)
  next
    case (reserved plan tb sb)
    let ?r = "length (heap b)" and ?i = "newInstance e (config b) k req plan tb sb"
    obtain b2 w2 where r2: "Provision_sso e k ?r b1 w1 = (b2, w2)"
      by fastforce
    obtain j where j: "b2 = modify ?r (\<lambda>_. j) b1" "same_but_sso ?i j" "sso_settled k j"
      using Provision_sso_effect [OF r2] reserved(3) by auto
    have none: "lookup b k = None"
      using reserved(2) by (simp add: provision_admitted_def)
    note st = Provision_reserved_state [OF wf none, of ?i j, folded reserved(3), folded j(1),
        OF newInstance_ok same_but_sso_ok [OF j(2) newInstance_ok]]
    obtain res b3 w3 where r3: "deploy_instance e ?r b2 w2 = (res, b3, w3)"
      by (metis prod_cases3)
    obtain d where d: "b3 = b2\<lparr>director := d\<rparr>" "client_ident d = client_ident (director b2)"
      using deploy_instance_effect(1) [OF r3] by blast
    have fr: "broker_frame b b3" and cfg: "config b3 = config b"
      using d j(1) reserved(3) by simp_all
    have b3: "broker_wf b3" "lookup b3 k = Some ?r" "heap b3 ! ?r = j"
      using st d(1) by simp_all
    have "Provision_finish e k ?r (i_RouteHostname j) res b3 w3 = (resp, b', w')"
      using eq True req r1 r2 r3 reserved(1) st(4) d(1) by (simp add: Provision_def deref_def)
    from this deploy_instance_effect(2) [OF r3] b3 show ?thesis
    proof (cases rule: Provision_finish_effect)
      case failed
      then show ?thesis
        using that(1) none st(2) d(1) broker_frame_trans [OF fr] by (simp add: fun_upd_idem)
    next
      case (deployed t)
      have "task_given e (director b) t"
        using deploy_instance_task r3 deployed(1) Provision_sso_director [OF r2] reserved(3) by force
      then show ?thesis
        using deployed that(2) True req reserved(2) j st(2) d(1) cfg broker_frame_trans [OF fr] by simp
    qed
  qed
qed

text \<open>An admissible request reserves its slot.\<close>

lemma Provision_reserve_admitted:
  "provision_admitted b k req plan \<Longrightarrow>
   \<exists>tb sb w1. Provision_reserve e k req b w =
     (Inr (length (heap b)), snd (insert_instance k (newInstance e (config b) k req plan tb sb) b), w1)"
  unfolding Provision_reserve_def provision_admitted_def
  by (auto simp: Let_def insert_instance_def alloc_def split: prod.splits)

lemma deploy_instance_accepted:
  "director_accepts e (director b) \<Longrightarrow> \<exists>t b' w'. deploy_instance e r b w = (Deployed t, b', w')"
  unfolding director_accepts_def deploy_instance_def RenderAgentManifest_def
  by (simp split: sum.splits prod.splits) (metis Inl_Inr_False prod.inject)

lemma deploy_instance_refused:
  "director_refuses e (director b) \<Longrightarrow> \<exists>err b' w'. deploy_instance e r b w = (DeployFailed err, b', w')"
  unfolding director_refuses_def deploy_instance_def RenderAgentManifest_def
  by (simp split: sum.splits prod.splits) (metis Inl_Inr_False prod.inject)

lemma Provision_accepts:
  assumes "validInstanceID k" and "provision_admitted b k req plan" and "director_accepts e (director b)"
  shows "status (fst (Provision e k ''true'' (Some req) b w)) = 202"
proof -
  obtain tb sb w1 where r1: "Provision_reserve e k req b w = (Inr (length (heap b)),
      snd (insert_instance k (newInstance e (config b) k req plan tb sb) b), w1)" (is "_ = (Inr ?r, ?b1, _)")
    using Provision_reserve_admitted [OF assms(2), of e w] by metis
  obtain b2 w2 where r2: "Provision_sso e k ?r ?b1 w1 = (b2, w2)"
    by fastforce
  obtain t b3 w3 where r3: "deploy_instance e ?r b2 w2 = (Deployed t, b3, w3)"
    using deploy_instance_accepted Provision_sso_director [OF r2] assms(3) by (metis insert_fields(2))
  show ?thesis
    using assms(1) r1 r2 r3 by (auto simp: Provision_def Provision_finish_def response_defs split: prod.splits)
qed

section \<open>A sample request\<close>

definition sample_request :: ProvisionRequest where
  "sample_request = \<lparr>q_ServiceID = ''openclaw-service'', q_PlanID = ''openclaw-developer-plan'',
     q_OrganizationGUID = ''org'', q_SpaceGUID = ''space'', q_Parameters = [(''owner'', JStr ''jo'')]\<rparr>"

lemma sample_id: "validInstanceID ''inst-1''"
  by (simp add: validInstanceID_def is_alnum_def is_lower_def is_upper_def is_digit_def)

lemma sample_director_accepts: "director_accepts accepting_ext (director sample_broker)"
  by (rule accepting_director_accepts) (code_simp, code_simp)

lemma sample_admitted: "provision_admitted sample_broker ''inst-1'' sample_request (hd defaultPlans)"
  by code_simp

lemma sample_provisioned:
  obtains resp b w where
    "Provision accepting_ext ''inst-1'' ''true'' (Some sample_request) sample_broker (script_start []) = (resp, b, w)"
    "status resp = 202"
  using Provision_accepts [OF sample_id sample_admitted sample_director_accepts, of "script_start []"]
  by (metis prod.collapse)

section \<open>Properties\<close>

text \<open>
  C2. Provisioning is all or nothing, whatever the UAA, the Director and the file system answer:
  a 202 adds exactly one record, for an identifier that was free, in state \<^verbatim>\<open>provisioning\<close>, for
  the plan, organisation and version asked for, with the task the Director gave and under the host
  name derived from owner and identifier, and with an OAuth client only if single sign-on stayed
  enabled; every other answer
  leaves the map of instances as it was. The invariant of the broker holds afterwards, and its
  configuration and clients are those it had.
\<close>

theorem Provision_all_or_nothing:
  assumes "broker_wf b" and "Provision e k acc (Some req) b w = (resp, b', w')"
  shows "broker_wf b' \<and> broker_frame b b' \<and>
    (if status resp = 202
     then inst_view b k = None \<and> (\<exists>i. inst_view b' = (inst_view b)(k \<mapsto> i)
       \<and> instance_ok k i \<and> sso_settled k i \<and> i_State i = ''provisioning''
       \<and> i_PlanID i = q_PlanID req \<and> i_OrgGUID i = q_OrganizationGUID req
       \<and> i_OpenClawVersion i = c_OpenClawVersion (config b) \<and> task_given e (director b) (i_BoshTaskID i)
       \<and> i_RouteHostname i = uniqueRouteHostname (lowerTable e)
            (route_owner (lowerTable e) (request_owner e req)) k)
     else inst_view b' = inst_view b)"
  using assms
proof (cases rule: Provision_effect)
  case refused
  then show ?thesis
    by auto
next
  case (accepted req' plan tb sb j t)
  have "instance_ok k (set_task t j)"
    using same_but_sso_ok [OF accepted(5) newInstance_ok] by (simp add: record_ok)
  then show ?thesis
    using accepted same_but_sso_fields [OF accepted(5)]
    by (auto simp: provision_admitted_def set_task_def sso_settled_def newInstance_more
        intro!: exI [of _ "set_task t j"])
qed

theorem Provision_all_or_nothing_witness:
  "\<exists>b. broker_wf b \<and> (\<exists>i. inst_view b = [''inst-1'' \<mapsto> i] \<and> i_State i = ''provisioning'' \<and> i_OrgGUID i = ''org'')"
proof -
  obtain resp b w where eq: "Provision accepting_ext ''inst-1'' ''true'' (Some sample_request) sample_broker
      (script_start []) = (resp, b, w)" and st: "status resp = 202"
    by (rule sample_provisioned)
  show ?thesis
    using Provision_all_or_nothing [OF sample_broker_wf eq] st
    by (auto simp: sample_broker_view sample_request_def)
qed

text \<open>
  The quotas hold after every accepted request: with a limit set, the number of instances not
  being deleted, in all and in the organisation of the request, is within the limit.
\<close>

theorem Provision_within_quota:
  assumes "broker_wf b" and "Provision e k acc (Some req) b w = (resp, b', w')" and "status resp = 202"
  shows "countInstances b' = Suc (countInstances b)
    \<and> (c_MaxInstances (config b) > 0 \<longrightarrow> int (countInstances b') \<le> c_MaxInstances (config b))
    \<and> (c_MaxInstancesPerOrg (config b) > 0 \<longrightarrow>
         int (countInstancesByOrg b' (q_OrganizationGUID req)) \<le> c_MaxInstancesPerOrg (config b))"
  using assms(1,2)
proof (cases rule: Provision_effect)
  case refused
  then show ?thesis
    using assms(3) by auto
next
  case (accepted req' plan tb sb j t)
  let ?i = "set_task t j"
  have i: "active ?i" "i_OrgGUID ?i = q_OrganizationGUID req"
    using accepted(2) same_but_sso_fields [OF accepted(5)] by (simp_all add: active_def set_task_def)
  have none: "inst_view b k = None"
    using accepted(4) by (simp add: provision_admitted_def)
  have "store.tally P b' = (if P ?i then Suc (store.tally P b) else store.tally P b)" for P
    using store.tally_view_ins [OF assms(1) none accepted(7)] .
  then show ?thesis
    using i accepted(2,4,8) assms(1)
    by (auto simp: countInstances_tally countInstancesByOrg_tally provision_admitted_def)
qed

theorem Provision_within_quota_witness:
  "\<exists>b. countInstances b = 1 \<and> int (countInstances b) \<le> 2 \<and> int (countInstancesByOrg b ''org'') \<le> 1"
proof -
  obtain resp b w where eq: "Provision accepting_ext ''inst-1'' ''true'' (Some sample_request) sample_broker
      (script_start []) = (resp, b, w)" and st: "status resp = 202"
    by (rule sample_provisioned)
  have "countInstances sample_broker = 0" "c_MaxInstances sample_config = 2"
    "c_MaxInstancesPerOrg sample_config = 1" "q_OrganizationGUID sample_request = ''org''"
    by (simp_all add: countInstances_def sample_broker_def sample_config_def sample_request_def)
  then show ?thesis
    using Provision_within_quota [OF sample_broker_wf eq st] by (intro exI [of _ b]) simp
qed

text \<open>
  C28. An admissible request is served: with a valid identifier, asynchronous operation, a free
  identifier, room in the quotas, an acceptable version, a known plan, availability zones and an
  apps domain, and a Director that accepts the deployment, the answer is a 202 with the dashboard
  of the new instance, whatever becomes of the OAuth registration and of the state file.
\<close>

theorem Provision_serves_admissible:
  assumes "broker_wf b" and "validInstanceID k" and "provision_admitted b k req plan"
    and "director_accepts e (director b)"
  shows "\<exists>b' w' i. inst_view b' k = Some i \<and> Provision e k ''true'' (Some req) b w =
    (writeJSON 202 (Provisioned (''https://'' @ i_RouteHostname i @ ''.'' @ c_AppsDomain (config b))
       (''provision-'' @ k)), b', w')"
proof -
  obtain resp b' w' where eq: "Provision e k ''true'' (Some req) b w = (resp, b', w')"
    by (metis prod_cases3)
  then have "status resp = 202"
    using Provision_accepts [OF assms(2-4), of w] by simp
  from assms(1) eq show ?thesis
  proof (cases rule: Provision_effect)
    case refused
    then show ?thesis
      using \<open>status resp = 202\<close> by auto
  next
    case (accepted req' plan' tb' sb' j t')
    then have "resp = writeJSON 202 (Provisioned
        (''https://'' @ i_RouteHostname j @ ''.'' @ c_AppsDomain (config b)) (''provision-'' @ k))"
      by (simp add: response_defs)
    then show ?thesis
      using accepted(7) eq by (intro exI [of _ b'] exI [of _ w'] exI [of _ "set_task t' j"])
        (simp add: set_task_def)
  qed
qed

theorem Provision_serves_admissible_witness:
  "\<exists>b' w' i. inst_view b' ''inst-1'' = Some i \<and>
     Provision accepting_ext ''inst-1'' ''true'' (Some sample_request) sample_broker (script_start []) =
       (writeJSON 202 (Provisioned (''https://'' @ i_RouteHostname i @ ''.'' @ ''apps.example'')
          (''provision-'' @ ''inst-1'')), b', w')"
proof -
  have "c_AppsDomain (config sample_broker) = ''apps.example''"
    by (simp add: sample_config_def)
  then show ?thesis
    using Provision_serves_admissible [OF sample_broker_wf sample_id sample_admitted
        sample_director_accepts, of "script_start []"] by simp
qed

end
