(* ===== verification/Deprovision.thy ===== *)
theory Deprovision
  imports Provision
begin

text \<open>
  \<^verbatim>\<open>DELETE /v2/service_instances/{id}\<close> (\<^verbatim>\<open>broker/deprovision.go\<close>): \<open>Deprovision_mark\<close> is the first lock
  section, which marks the record or creates one for a deployment the broker does not know;
  \<open>Deprovision_delete\<close> the calls to the UAA and to the Director; \<open>Deprovision_finish\<close> what follows
  them, keeping the task or restoring what was there.
\<close>

section \<open>Model\<close>

definition set_state :: "string \<Rightarrow> Instance \<Rightarrow> Instance" where
  "set_state st i = i\<lparr>i_State := st\<rparr>"

definition orphan_instance :: "instance_id \<Rightarrow> Instance" where
  "orphan_instance k =
     zero_instance\<lparr>i_ID := k, i_DeploymentName := deploymentNameFor k, i_State := ''deprovisioning''\<rparr>"

text \<open>How the first section ends: the deletion is under way already, or the reference of the
  record and the name of the deployment to delete, with the state the record had if it had one.\<close>

datatype deprovision_mark = UnderWay | Orphan ref string | Marked ref string string

definition Deprovision_mark :: "instance_id \<Rightarrow> Broker \<Rightarrow> deprovision_mark \<times> Broker" where
  "Deprovision_mark k b =
    (case lookup b k of
       None \<Rightarrow> (case insert_instance k (orphan_instance k) b of (r, b) \<Rightarrow> (Orphan r (deploymentNameFor k), b))
     | Some r \<Rightarrow>
        (let i = deref b r in
         if i_State i = ''deprovisioning'' then (UnderWay, b)
         else (Marked r (i_State i) (i_DeploymentName i), modify r (set_state ''deprovisioning'') b)))"

definition deleteUAAClient :: "('w, 'e) ext_scheme \<Rightarrow> instance_id \<Rightarrow> Broker \<Rightarrow> 'w \<Rightarrow> 'w" where
  "deleteUAAClient e k b w =
    (case uaaClient b of
       None \<Rightarrow> w
     | Some u \<Rightarrow> (case DeleteClient e u (ClientIDForInstance k) w of (_, w) \<Rightarrow> w))"

definition Deprovision_delete ::
    "('w, 'e) ext_scheme \<Rightarrow> instance_id \<Rightarrow> string \<Rightarrow> Broker \<Rightarrow> 'w \<Rightarrow> (bosh_error + int) \<times> Broker \<times> 'w" where
  "Deprovision_delete e k deploymentName b w =
    (case DeleteDeployment e (director b) deploymentName (deleteUAAClient e k b w) of
       (res, d, w) \<Rightarrow> (res, b\<lparr>director := d\<rparr>, w))"

definition deprovision_accepted :: "instance_id \<Rightarrow> response" where
  "deprovision_accepted k = writeJSON 202 (Operation (''deprovision-'' @ k))"

declare deprovision_accepted_def [response_defs]

text \<open>The last section: \<open>undo\<close> and \<open>failure\<close> are what the two paths do when the Director refuses.\<close>

definition Deprovision_finish ::
    "('w, 'e) ext_scheme \<Rightarrow> instance_id \<Rightarrow> ref \<Rightarrow> (Broker \<Rightarrow> Broker) \<Rightarrow> response
     \<Rightarrow> (bosh_error + int) \<times> Broker \<times> 'w \<Rightarrow> response \<times> Broker \<times> 'w" where
  "Deprovision_finish e k r undo failure rbw =
    (case rbw of
       (Inl _, b, w) \<Rightarrow> (failure, undo b, w)
     | (Inr taskID, b, w) \<Rightarrow>
        (case saveState e (modify r (set_task taskID) b) w of (b, w) \<Rightarrow> (deprovision_accepted k, b, w)))"

definition Deprovision ::
    "('w, 'e) ext_scheme \<Rightarrow> instance_id \<Rightarrow> string \<Rightarrow> Broker \<Rightarrow> 'w \<Rightarrow> response \<times> Broker \<times> 'w" where
  "Deprovision e k accepts_incomplete b w =
    (if accepts_incomplete \<noteq> ''true'' then (asyncRequired, b, w)
     else case Deprovision_mark k b of
       (UnderWay, b) \<Rightarrow> (deprovision_accepted k, b, w)
     | (Orphan r deploymentName, b) \<Rightarrow>
         Deprovision_finish e k r (remove_instance k) (writeJSON 410 Empty)
           (Deprovision_delete e k deploymentName b w)
     | (Marked r previousState deploymentName, b) \<Rightarrow>
         Deprovision_finish e k r (modify r (set_state previousState))
           (writeJSON 500 (Error ''Deprovision failed'')) (Deprovision_delete e k deploymentName b w))"

section \<open>Lemmas\<close>

lemma orphan_ok [record_ok]: "instance_ok k (orphan_instance k)"
  by (simp add: orphan_instance_def instance_ok_def)

lemma set_state_ok [record_ok]: "instance_ok k (set_state st i) = instance_ok k i"
  by (simp add: set_state_def instance_ok_def)

lemma set_state_fields [simp]:
  "i_State (set_state st i) = st" "i_State (set_task t i) = i_State i"
  "i_OrgGUID (set_state st i) = i_OrgGUID i" "i_OrgGUID (set_task t i) = i_OrgGUID i"
  "i_BoshTaskID (set_task t i) = t" "i_BoshTaskID (set_state st i) = i_BoshTaskID i"
  by (simp_all add: set_state_def set_task_def)

lemma set_state_idem: "set_state (i_State i) (set_state st i) = i"
  by (simp add: set_state_def)

lemma Deprovision_delete_effect:
  assumes "Deprovision_delete e k n b w = (res, b', w')"
  obtains d where "b' = b\<lparr>director := d\<rparr>" "client_ident d = client_ident (director b)"
  using assms director.delete_ident [of e "director b" n "deleteUAAClient e k b w"]
  by (auto simp: Deprovision_delete_def split: prod.splits)

text \<open>The last section on a record that is in the map: undone, or the record gets its task.\<close>

lemma Deprovision_finish_effect:
  assumes fin: "Deprovision_finish e k r undo failure (res, b, w) = (resp, b', w')"
    and b: "broker_wf b" "lookup b k = Some r" "heap b ! r = i"
  obtains (undone) "resp = failure" "b' = undo b"
  | (deleting) t where "resp = deprovision_accepted k" "inst_view b' = (inst_view b)(k \<mapsto> set_task t i)"
      "broker_wf b'" "broker_frame b b'"
proof (cases res)
  case (Inl err)
  then show ?thesis
    using undone fin by (simp add: Deprovision_finish_def)
next
  case (Inr t)
  have "resp = deprovision_accepted k" "b' = fst (saveState e (modify r (set_task t) b) w)"
    using fin Inr by (auto simp: Deprovision_finish_def split: prod.splits)
  moreover have "instance_ok k (set_task t i)"
    using lookup_ok [OF b(1,2)] b(3) by (simp add: record_ok)
  ultimately show ?thesis
    using deleting [of t] b by (simp add: broker_wf_modify [where k = k] inst_view_modify [where k = k])
qed

text \<open>The two paths to the Director: a deployment without a record, and a record that is marked.\<close>

lemma Deprovision_orphan_effect:
  assumes wf: "broker_wf b" and none: "lookup b k = None"
    and eq: "Deprovision e k ''true'' b w = (resp, b', w')"
  obtains (gone) "resp = writeJSON 410 Empty" "inst_view b' = inst_view b" "broker_wf b'" "broker_frame b b'"
  | (orphan) t where "resp = deprovision_accepted k" "broker_wf b'" "broker_frame b b'"
      "inst_view b' = (inst_view b)(k \<mapsto> set_task t (orphan_instance k))"
proof -
  let ?r = "length (heap b)" and ?b = "snd (insert_instance k (orphan_instance k) b)"
  obtain res b1 w1 where del: "Deprovision_delete e k (deploymentNameFor k) ?b w = (res, b1, w1)"
    by (metis prod_cases3)
  then obtain d where d: "b1 = ?b\<lparr>director := d\<rparr>" "client_ident d = client_ident (director ?b)"
    by (rule Deprovision_delete_effect)
  have "Deprovision_mark k b = (Orphan ?r (deploymentNameFor k), ?b)"
    using none by (simp add: Deprovision_mark_def split_def)
  then have "Deprovision_finish e k ?r (remove_instance k) (writeJSON 410 Empty) (res, b1, w1) = (resp, b', w')"
    using eq del by (simp add: Deprovision_def)
  moreover have st: "broker_wf b1" "lookup b1 k = Some ?r" "heap b1 ! ?r = orphan_instance k"
    "inst_view b1 = (inst_view b)(k \<mapsto> orphan_instance k)" "broker_frame b b1"
    using d wf none by (simp_all add: broker_wf_insert inst_view_insert record_ok)
  ultimately show ?thesis
  proof (cases rule: Deprovision_finish_effect)
    case undone
    then show ?thesis
      using gone none st by (simp add: inst_view_remove broker_wf_remove fun_upd_idem)
  next
    case (deleting t)
    then show ?thesis
      using orphan st(4) broker_frame_trans [OF st(5)] by simp
  qed
qed

lemma Deprovision_marked_effect:
  assumes wf: "broker_wf b" and r: "lookup b k = Some r" and act: "active (heap b ! r)"
    and eq: "Deprovision e k ''true'' b w = (resp, b', w')"
  obtains (failed) "resp = writeJSON 500 (Error ''Deprovision failed'')" "inst_view b' = inst_view b"
      "broker_wf b'" "broker_frame b b'"
  | (deleting) t where "resp = deprovision_accepted k" "broker_wf b'" "broker_frame b b'"
      "inst_view b' = (inst_view b)(k \<mapsto> set_task t (set_state ''deprovisioning'' (heap b ! r)))"
proof -
  let ?i = "heap b ! r" and ?b = "modify r (set_state ''deprovisioning'') b"
  obtain res b1 w1 where del: "Deprovision_delete e k (i_DeploymentName ?i) ?b w = (res, b1, w1)"
    by (metis prod_cases3)
  then obtain d where d: "b1 = ?b\<lparr>director := d\<rparr>" "client_ident d = client_ident (director ?b)"
    by (rule Deprovision_delete_effect)
  have v: "inst_view b k = Some ?i" and ok: "instance_ok k ?i" and "r < length (heap b)"
    using r lookup_ok [OF wf r] lookup_ref [OF wf r] by (auto simp: inst_view_Some)
  have "Deprovision_mark k b = (Marked r (i_State ?i) (i_DeploymentName ?i), ?b)"
    using act r by (simp add: Deprovision_mark_def active_def deref_def Let_def)
  then have "Deprovision_finish e k r (modify r (set_state (i_State ?i)))
      (writeJSON 500 (Error ''Deprovision failed'')) (res, b1, w1) = (resp, b', w')"
    using eq del by (simp add: Deprovision_def)
  moreover have st: "broker_wf b1" "lookup b1 k = Some r"
    "heap b1 ! r = set_state ''deprovisioning'' ?i"
    "inst_view b1 = (inst_view b)(k \<mapsto> set_state ''deprovisioning'' ?i)" "broker_frame b b1"
    using d wf r ok \<open>r < _\<close>
    by (simp_all add: broker_wf_modify [where k = k] inst_view_modify [where k = k] record_ok)
      (simp add: modify_def)
  ultimately show ?thesis
  proof (cases rule: Deprovision_finish_effect)
    case undone
    have "broker_wf b'" "inst_view b' = inst_view b" "broker_frame b b'"
      using undone(2) st ok v
      by (simp_all add: broker_wf_modify [where k = k] inst_view_modify [where k = k] record_ok
          set_state_idem fun_upd_idem)
    then show ?thesis
      using failed undone(1) by simp
  next
    case (deleting t)
    then show ?thesis
      using that(2) st(4) broker_frame_trans [OF st(5)] by simp
  qed
qed

text \<open>The whole handler, seen on the map of instances.\<close>

lemma Deprovision_effect:
  assumes wf: "broker_wf b" and eq: "Deprovision e k acc b w = (resp, b', w')"
  obtains (refused) "acc \<noteq> ''true''" "resp = asyncRequired" "b' = b" "w' = w"
  | (underway) i where "inst_view b k = Some i" "\<not> active i" "resp = deprovision_accepted k" "b' = b" "w' = w"
  | (gone) "inst_view b k = None" "resp = writeJSON 410 Empty" "inst_view b' = inst_view b"
      "broker_wf b'" "broker_frame b b'"
  | (failed) i where "inst_view b k = Some i" "active i" "resp = writeJSON 500 (Error ''Deprovision failed'')"
      "inst_view b' = inst_view b" "broker_wf b'" "broker_frame b b'"
  | (orphan) t where "inst_view b k = None" "resp = deprovision_accepted k" "broker_wf b'" "broker_frame b b'"
      "inst_view b' = (inst_view b)(k \<mapsto> set_task t (orphan_instance k))"
  | (deleting) i t where "inst_view b k = Some i" "active i" "resp = deprovision_accepted k"
      "broker_wf b'" "broker_frame b b'"
      "inst_view b' = (inst_view b)(k \<mapsto> set_task t (set_state ''deprovisioning'' i))"
proof (cases "acc = ''true''")
  case False
  then show ?thesis
    using refused eq by (simp add: Deprovision_def)
next
  case True
  then have eq: "Deprovision e k ''true'' b w = (resp, b', w')"
    using eq by simp
  show ?thesis
  proof (cases "lookup b k")
    case None
    from wf None eq show ?thesis
      by (cases rule: Deprovision_orphan_effect) (simp_all add: gone orphan None)
  next
    case (Some r)
    then have v: "inst_view b k = Some (heap b ! r)"
      by (auto simp: inst_view_Some)
    show ?thesis
    proof (cases "active (heap b ! r)")
      case False
      then show ?thesis
        using underway [OF v] eq Some by (simp add: Deprovision_def Deprovision_mark_def active_def deref_def)
    next
      case True
      from wf Some True eq show ?thesis
        by (cases rule: Deprovision_marked_effect) (simp_all add: failed [OF v True] deleting [OF v True])
    qed
  qed
qed

text \<open>A deletion that the Director accepts.\<close>

lemma Deprovision_accepts:
  assumes "fst (Deprovision_mark k b) = Marked r st n"
    and "fst (Deprovision_delete e k n (snd (Deprovision_mark k b)) w) = Inr t"
  obtains b' w' where "Deprovision e k ''true'' b w = (deprovision_accepted k, b', w')"
proof -
  obtain b0 b1 w1 where "Deprovision_mark k b = (Marked r st n, b0)" "Deprovision_delete e k n b0 w = (Inr t, b1, w1)"
    using assms by (metis prod.collapse)
  moreover obtain b2 w2 where "saveState e (modify r (set_task t) b1) w1 = (b2, w2)"
    by fastforce
  ultimately show ?thesis
    using that [of b2 w2] by (simp add: Deprovision_def Deprovision_finish_def)
qed

lemma sample_deleted:
  obtains resp b w where
    "Deprovision accepting_ext ''a-1'' ''true'' (sample_with ''a-1'' ''ready'' 3) (script_start []) = (resp, b, w)"
    "status resp = 202"
proof -
  let ?m = "Deprovision_mark ''a-1'' (sample_with ''a-1'' ''ready'' 3)" and ?n = "deploymentNameFor ''a-1''"
  have "fst ?m = Marked 0 ''ready'' ?n"
    "fst (Deprovision_delete accepting_ext ''a-1'' ?n (snd ?m) (script_start [])) = Inr 7"
    by code_simp+
  then obtain b w where "Deprovision accepting_ext ''a-1'' ''true'' (sample_with ''a-1'' ''ready'' 3) (script_start [])
      = (deprovision_accepted ''a-1'', b, w)"
    by (rule Deprovision_accepts)
  then show ?thesis
    using that by (simp add: response_defs)
qed

section \<open>Properties\<close>



text \<open>
  Deletion is idempotent: once a deletion was answered with 202, repeating it (in any later
  environment) gives the same answer, contacts neither the UAA nor the Director, and changes
  nothing.
\<close>

theorem Deprovision_idempotent:
  assumes "broker_wf b" and "Deprovision e k acc b w = (resp, b', w')" and "status resp = 202"
  shows "Deprovision e' k ''true'' b' v = (resp, b', v)"
proof -
  obtain i where i: "inst_view b' k = Some i" "i_State i = ''deprovisioning''" "resp = deprovision_accepted k"
    using assms(1,2)
  proof (cases rule: Deprovision_effect)
    case (orphan t)
    then show ?thesis
      using that [of "set_task t (orphan_instance k)"] by (simp add: orphan_instance_def)
  qed (use assms(3) that in \<open>auto simp: response_defs active_def\<close>)
  then show ?thesis
    by (auto simp: Deprovision_def Deprovision_mark_def inst_view_Some deref_def)
qed

theorem Deprovision_idempotent_witness:
  "\<exists>b resp. status resp = 202 \<and> Deprovision script_ext ''a-1'' ''true'' b (script_start []) = (resp, b, script_start [])"
proof -
  obtain resp b w where eq: "Deprovision accepting_ext ''a-1'' ''true'' (sample_with ''a-1'' ''ready'' 3)
      (script_start []) = (resp, b, w)" and "status resp = 202"
    by (rule sample_deleted)
  then show ?thesis
    using Deprovision_idempotent [OF sample_with_props(1) eq, of script_ext "script_start []"]
    by (intro exI [of _ b] exI [of _ resp]) simp
qed

end
