(* ===== verification/Update.thy ===== *)
theory Update
  imports Deprovision
begin

text \<open>
  \<^verbatim>\<open>PATCH /v2/service_instances/{id}\<close> (\<^verbatim>\<open>broker/update.go\<close>): \<open>Update_prepare\<close> is the first lock section,
  which changes the plan of the record, or makes a recovery record for an instance the broker does
  not know; the redeployment is that of \<open>Provision\<close>; \<open>Update_finish\<close> is the last section.
\<close>

section \<open>Model\<close>

record UpdateRequest =
  u_ServiceID :: string
  u_PlanID :: string
  u_Parameters :: "(string \<times> json) list"

text \<open>The plan of a recovery record: the one asked for, or the first one in force.\<close>

definition recovery_plan :: "BrokerConfig \<Rightarrow> UpdateRequest \<Rightarrow> Plan option" where
  "recovery_plan c req =
    (case findPlan c (u_PlanID req) of
       Some plan \<Rightarrow> Some plan
     | None \<Rightarrow> (case effective_plans c of [] \<Rightarrow> None | plan # _ \<Rightarrow> Some plan))"

definition recoveredInstance ::
    "('w, 'e) ext_scheme \<Rightarrow> BrokerConfig \<Rightarrow> instance_id \<Rightarrow> Plan \<Rightarrow> bytes \<Rightarrow> bytes \<Rightarrow> Instance" where
  "recoveredInstance e c k plan tokenBytes seedBytes =
     zero_instance\<lparr>i_ID := k, i_PlanID := p_ID plan, i_PlanName := p_Name plan, i_Owner := ''recovered'',
       i_DeploymentName := deploymentNameFor k, i_GatewayToken := gateway_token tokenBytes,
       i_NodeSeed := node_seed seedBytes,
       i_RouteHostname := uniqueRouteHostname (lowerTable e) ''recovered'' k,
       i_AppsDomain := c_AppsDomain c, i_VMType := p_VMType plan, i_DiskType := p_DiskType plan,
       i_State := ''provisioning'', i_SSOEnabled := c_SSOEnabled c,
       i_OpenClawVersion := c_OpenClawVersion c\<rparr>"

definition set_plan :: "string \<Rightarrow> Plan \<Rightarrow> Instance \<Rightarrow> Instance" where
  "set_plan planID plan i = i\<lparr>i_PlanID := planID, i_PlanName := p_Name plan, i_VMType := p_VMType plan,
     i_DiskType := p_DiskType plan\<rparr>"

definition Update_prepare ::
    "('w, 'e) ext_scheme \<Rightarrow> instance_id \<Rightarrow> UpdateRequest \<Rightarrow> Broker \<Rightarrow> 'w \<Rightarrow> (response + ref) \<times> Broker \<times> 'w" where
  "Update_prepare e k req b w =
    (case lookup b k of
       None \<Rightarrow>
        (case recovery_plan (config b) req of
           None \<Rightarrow> (Inl (writeJSON 400 (Error ''Unknown plan'')), b, w)
         | Some plan \<Rightarrow>
            (let (tokenBytes, w) = randRead e 32 w;
                 (seedBytes, w) = randRead e 32 w
             in case insert_instance k (recoveredInstance e (config b) k plan tokenBytes seedBytes) b of
                  (r, b) \<Rightarrow> (Inr r, b, w)))
     | Some r \<Rightarrow>
        (if u_PlanID req \<noteq> [] \<and> u_PlanID req \<noteq> i_PlanID (deref b r) then
           (case findPlan (config b) (u_PlanID req) of
              None \<Rightarrow> (Inl (writeJSON 400 (Error ''Unknown plan'')), b, w)
            | Some plan \<Rightarrow> (Inr r, modify r (set_plan (u_PlanID req) plan) b, w))
         else (Inr r, b, w)))"

definition redeployed :: "int \<Rightarrow> Instance \<Rightarrow> Instance" where
  "redeployed taskID i = set_task taskID (set_state ''provisioning'' i)"

definition Update_finish ::
    "('w, 'e) ext_scheme \<Rightarrow> instance_id \<Rightarrow> ref \<Rightarrow> deploy_result \<Rightarrow> Broker \<Rightarrow> 'w \<Rightarrow> response \<times> Broker \<times> 'w" where
  "Update_finish e k r res b w =
    (case res of
       RenderFailed \<Rightarrow> (writeJSON 500 (Error ''Failed to render deployment manifest''), b, w)
     | DeployFailed _ \<Rightarrow> (writeJSON 500 (Error ''Update deployment failed''), b, w)
     | Deployed taskID \<Rightarrow>
        (case saveState e (modify r (redeployed taskID) b) w of
           (b, w) \<Rightarrow> (writeJSON 202 (Operation (''update-'' @ k)), b, w)))"

definition Update ::
    "('w, 'e) ext_scheme \<Rightarrow> instance_id \<Rightarrow> string \<Rightarrow> UpdateRequest option \<Rightarrow> Broker \<Rightarrow> 'w
     \<Rightarrow> response \<times> Broker \<times> 'w" where
  "Update e k accepts_incomplete body b w =
    (if accepts_incomplete \<noteq> ''true'' then (asyncRequired, b, w)
     else case body of
       None \<Rightarrow> (writeJSON 400 (Error ''Bad request''), b, w)
     | Some req \<Rightarrow>
        (case Update_prepare e k req b w of
           (Inl resp, b, w) \<Rightarrow> (resp, b, w)
         | (Inr r, b, w) \<Rightarrow>
            (case deploy_instance e r b w of (res, b, w) \<Rightarrow> Update_finish e k r res b w)))"

section \<open>Lemmas\<close>

text \<open>The record Update works on: the one there was, with the plan asked for, or a recovery record.\<close>

definition update_target :: "('w, 'e) ext_scheme \<Rightarrow> Broker \<Rightarrow> instance_id \<Rightarrow> UpdateRequest \<Rightarrow> Instance \<Rightarrow> bool" where
  "update_target e b k req i \<longleftrightarrow>
    (case inst_view b k of
       None \<Rightarrow> \<exists>plan tb sb. recovery_plan (config b) req = Some plan \<and> i = recoveredInstance e (config b) k plan tb sb
     | Some j \<Rightarrow>
        if u_PlanID req \<noteq> [] \<and> u_PlanID req \<noteq> i_PlanID j
        then \<exists>plan. findPlan (config b) (u_PlanID req) = Some plan \<and> i = set_plan (u_PlanID req) plan j
        else i = j)"

lemma recovered_fields [simp]:
  "i_ID (recoveredInstance e c k plan tb sb) = k"
  "i_DeploymentName (recoveredInstance e c k plan tb sb) = deploymentNameFor k"
  "i_State (recoveredInstance e c k plan tb sb) = ''provisioning''"
  "i_OrgGUID (recoveredInstance e c k plan tb sb) = []"
  "i_BoshTaskID (recoveredInstance e c k plan tb sb) = 0"
  by (simp_all add: recoveredInstance_def zero_instance_def)

lemma set_plan_ok [record_ok]: "instance_ok k (set_plan pid plan i) = instance_ok k i"
  by (simp add: set_plan_def instance_ok_def)

lemma redeployed_ok [record_ok]: "instance_ok k (redeployed t i) = instance_ok k i"
  by (simp add: redeployed_def set_task_def set_state_def instance_ok_def)

lemma recovered_ok [record_ok]: "instance_ok k (recoveredInstance e c k plan tb sb)"
  by (simp add: instance_ok_def)

lemma Update_prepare_effect:
  assumes wf: "broker_wf b" and eq: "Update_prepare e k req b w = (res, b1, w1)"
  obtains (refused) resp where "res = Inl resp" "status resp = 400" "b1 = b"
  | (prepared) r i where "res = Inr r" "update_target e b k req i" "broker_wf b1" "lookup b1 k = Some r"
      "heap b1 ! r = i" "inst_view b1 = (inst_view b)(k \<mapsto> i)" "broker_frame b b1"
      "director b1 = director b"
proof (cases "lookup b k")
  case None
  show ?thesis
  proof (cases "recovery_plan (config b) req")
    case None
    then show ?thesis
      using refused eq \<open>lookup b k = None\<close> by (auto simp: Update_prepare_def response_defs)
  next
    case (Some plan)
    obtain tb sb where i: "res = Inr (length (heap b))"
      "b1 = snd (insert_instance k (recoveredInstance e (config b) k plan tb sb) b)"
      using eq None Some by (auto simp: Update_prepare_def Let_def insert_instance_def alloc_def split: prod.splits)
    have "update_target e b k req (recoveredInstance e (config b) k plan tb sb)"
      using None Some by (auto simp: update_target_def inst_view_def)
    from prepared [OF i(1) this] show ?thesis
      using i(2) wf None by (simp add: broker_wf_insert inst_view_insert record_ok)
  qed
next
  case (Some r)
  then have v: "inst_view b k = Some (heap b ! r)" and ok: "instance_ok k (heap b ! r)"
    and r: "r < length (heap b)"
    using lookup_ok [OF wf Some] lookup_ref [OF wf Some] by (auto simp: inst_view_Some)
  let ?change = "u_PlanID req \<noteq> [] \<and> u_PlanID req \<noteq> i_PlanID (heap b ! r)"
  show ?thesis
  proof (cases "?change \<and> findPlan (config b) (u_PlanID req) = None")
    case True
    then show ?thesis
      using refused eq Some by (auto simp: Update_prepare_def deref_def response_defs)
  next
    case False
    obtain i where i: "res = Inr r" "b1 = modify r (\<lambda>_. i) b" "update_target e b k req i" "instance_ok k i"
    proof (cases ?change)
      case True
      then show ?thesis
        using that [of "set_plan (u_PlanID req) (the (findPlan (config b) (u_PlanID req))) (heap b ! r)"]
          False eq Some v ok
        by (auto simp: Update_prepare_def deref_def update_target_def record_ok modify_def)
    next
      case False
      then show ?thesis
        using that [of "heap b ! r"] eq Some v ok
        by (auto simp: Update_prepare_def deref_def update_target_def modify_def)
    qed
    show ?thesis
      using prepared [OF i(1,3)] i(2,4) wf Some r
      by (simp add: broker_wf_modify [where k = k] inst_view_modify [where k = k]) (simp add: modify_def)
  qed
qed

text \<open>The whole handler, seen on the map of instances.\<close>

lemma Update_effect:
  assumes wf: "broker_wf b" and eq: "Update e k acc body b w = (resp, b', w')"
  obtains (refused) "status resp \<in> {400, 422}" "b' = b"
  | (failed) req i where "body = Some req" "status resp = 500" "update_target e b k req i"
      "inst_view b' = (inst_view b)(k \<mapsto> i)" "broker_wf b'" "broker_frame b b'"
  | (accepted) req i t where "body = Some req" "status resp = 202" "update_target e b k req i"
      "inst_view b' = (inst_view b)(k \<mapsto> redeployed t i)" "broker_wf b'" "broker_frame b b'"
proof (cases "acc = ''true'' \<and> body \<noteq> None")
  case False
  then show ?thesis
    using refused eq by (auto simp: Update_def response_defs split: if_splits option.splits)
next
  case True
  then obtain req where req: "body = Some req"
    by blast
  obtain res b1 w1 where p: "Update_prepare e k req b w = (res, b1, w1)"
    by (metis prod_cases3)
  from wf p show ?thesis
  proof (cases rule: Update_prepare_effect)
    case (refused rsp)
    then show ?thesis
      using that(1) eq True req p by (auto simp: Update_def)
  next
    case (prepared r i)
    obtain dr b2 w2 where d: "deploy_instance e r b1 w1 = (dr, b2, w2)"
      by (metis prod_cases3)
    obtain c where c: "b2 = b1\<lparr>director := c\<rparr>" "client_ident c = client_ident (director b1)"
      using deploy_instance_effect(1) [OF d] by blast
    have fin: "Update_finish e k r dr b2 w2 = (resp, b', w')"
      using eq True req p d prepared(1) by (simp add: Update_def)
    have fr: "broker_frame b b2"
      using c prepared(7) by simp
    show ?thesis
    proof (cases dr)
      case (Deployed t)
      have "b' = fst (saveState e (modify r (redeployed t) b2) w2)" "status resp = 202"
        using fin Deployed by (auto simp: Update_finish_def response_defs split: prod.splits)
      moreover have "instance_ok k (redeployed t i)"
        using lookup_ok [OF prepared(3,4)] prepared(5) by (simp add: record_ok)
      ultimately show ?thesis
        using that(3) [OF req _ prepared(2)] prepared c(1) fr
        by (simp add: broker_wf_modify [where k = k] inst_view_modify [where k = k])
    qed (use fin that(2) [OF req _ prepared(2)] prepared c(1) fr deploy_instance_effect(2) [OF d]
        in \<open>auto simp: Update_finish_def response_defs\<close>)
  qed
qed

text \<open>What an update leaves alone in a record.\<close>

definition credentials_of :: "Instance \<Rightarrow> (string \<times> string) \<times> (string \<times> string) \<times> bool \<times> string \<times> string \<times> string" where
  "credentials_of i = ((i_GatewayToken i, i_NodeSeed i), (i_RouteHostname i, i_AppsDomain i),
     i_SSOEnabled i, i_SSOClientID i, i_SSOClientSecret i, i_SSOCookieSecret i)"

lemma credentials_of_updates [simp]:
  "credentials_of (redeployed t i) = credentials_of i"
  "credentials_of (set_plan pid plan i) = credentials_of i"
  "i_PlanID (redeployed t i) = i_PlanID i" "i_PlanID (set_plan pid plan i) = pid"
  "i_VMType (redeployed t i) = i_VMType i" "i_VMType (set_plan pid plan i) = p_VMType plan"
  "i_DiskType (redeployed t i) = i_DiskType i" "i_DiskType (set_plan pid plan i) = p_DiskType plan"
  "i_State (redeployed t i) = ''provisioning''" "i_BoshTaskID (redeployed t i) = t"
  "i_OrgGUID (redeployed t i) = i_OrgGUID i" "i_OrgGUID (set_plan pid plan i) = i_OrgGUID i"
  "i_Owner (redeployed t i) = i_Owner i" "i_Owner (set_plan pid plan i) = i_Owner i"
  "i_State (set_plan pid plan i) = i_State i"
  "i_OpenClawVersion (redeployed t i) = i_OpenClawVersion i"
  "i_OpenClawVersion (set_plan pid plan i) = i_OpenClawVersion i"
  by (simp_all add: credentials_of_def redeployed_def set_task_def set_state_def set_plan_def)

text \<open>How a request that names no unknown plan ends is up to the Director.\<close>

lemma Update_status:
  assumes "broker_wf b" and "Update_prepare e k req b w = (Inr r, b1, w1)"
  shows "director_accepts e (director b) \<Longrightarrow> status (fst (Update e k ''true'' (Some req) b w)) = 202"
    and "director_refuses e (director b) \<Longrightarrow> status (fst (Update e k ''true'' (Some req) b w)) = 500"
proof -
  have d: "director b1 = director b"
    using assms by (cases rule: Update_prepare_effect) simp_all
  show "status (fst (Update e k ''true'' (Some req) b w)) = 202" if "director_accepts e (director b)"
    using deploy_instance_accepted [of e b1 r w1] that assms(2)
    by (auto simp: d Update_def Update_finish_def response_defs split: prod.splits)
  show "status (fst (Update e k ''true'' (Some req) b w)) = 500" if "director_refuses e (director b)"
    using deploy_instance_refused [of e b1 r w1] that assms(2)
    by (auto simp: d Update_def Update_finish_def response_defs split: prod.splits)
qed

definition sample_update :: UpdateRequest where
  "sample_update = \<lparr>u_ServiceID = ''openclaw-service'', u_PlanID = ''openclaw-team-plan'', u_Parameters = []\<rparr>"

lemma sample_plan: "findPlan sample_config ''openclaw-team-plan'' = Some (defaultPlans ! 2)"
  by code_simp

lemma sample_update_prepared:
  "\<exists>r b1 w1. Update_prepare e ''a-1'' sample_update (sample_with ''a-1'' ''ready'' 3) w = (Inr r, b1, w1)"
  by (simp add: Update_prepare_def sample_with_def sample_update_def sample_plan)

lemma sample_with_director [simp]: "director (sample_with k st t) = director sample_broker"
  by (simp add: sample_with_def)

section \<open>Properties\<close>



text \<open>
  A failed redeployment is not undone: the request is answered with a 500, but the record
  keeps the plan it asked for, and the recovery record made for an unknown instance stays in the
  map, in state \<^verbatim>\<open>provisioning\<close>, without a task and outside every organisation.
\<close>

theorem Update_failure_not_undone:
  assumes "broker_wf b" and "Update e k acc (Some req) b w = (resp, b', w')" and "status resp = 500"
  shows "\<exists>i. inst_view b' = (inst_view b)(k \<mapsto> i) \<and> broker_wf b'
    \<and> (case inst_view b k of
         None \<Rightarrow> i_State i = ''provisioning'' \<and> i_BoshTaskID i = 0 \<and> i_OrgGUID i = []
       | Some j \<Rightarrow> i_PlanID i = (if u_PlanID req = [] then i_PlanID j else u_PlanID req)
           \<and> i_State i = i_State j \<and> i_BoshTaskID i = i_BoshTaskID j)"
  using assms(1,2)
proof (cases rule: Update_effect)
  case (failed req' i)
  then show ?thesis
    by (cases "inst_view b k")
      (auto simp: update_target_def set_plan_def simp del: inst_view_None split: if_splits intro!: exI [of _ i])
qed (use assms(3) in auto)


theorem Update_failure_not_undone_witness:
  "\<exists>b i. broker_wf b \<and> inst_view b = [''a-1'' \<mapsto> i] \<and> i_PlanID i = ''openclaw-team-plan'' \<and> i_State i = ''ready''"
proof -
  let ?b = "sample_with ''a-1'' ''ready'' 3"
  obtain resp b w where eq: "Update offline_ext ''a-1'' ''true'' (Some sample_update) ?b (script_start []) = (resp, b, w)"
    by (metis prod_cases3)
  have "uaaURL (director sample_broker) = []"
    by code_simp
  then have st: "status resp = 500"
    using sample_update_prepared [of offline_ext "script_start []"] offline_director_refuses
      Update_status(2) [OF sample_with_props(1)] eq by (metis fst_conv sample_with_director)
  from Update_failure_not_undone [OF sample_with_props(1) eq st] show ?thesis
    by (auto simp: sample_update_def sample_instance_def)
qed

end
