(* ===== verification/Last_Operation.thy ===== *)
theory Last_Operation
  imports Update
begin

text \<open>
  \<^verbatim>\<open>GET /v2/service_instances/{id}/last_operation\<close> (\<^verbatim>\<open>broker/last_operation.go\<close>): the platform polls, the
  broker asks the Director for the task of the record and settles the record by the answer. A task
  status that cannot be had reads as the empty string, as in the source.
\<close>

section \<open>Model\<close>

definition last_op :: "string \<Rightarrow> string \<Rightarrow> response" where
  "last_op st description = writeJSON 200 (LastOp st description)"

definition poll_task :: "('w, 'e) ext_scheme \<Rightarrow> int \<Rightarrow> Broker \<Rightarrow> 'w \<Rightarrow> string \<times> Broker \<times> 'w" where
  "poll_task e taskID b w =
    (case TaskStatus e (director b) taskID w of
       (res, d, w) \<Rightarrow> (case res of Inl _ \<Rightarrow> [] | Inr s \<Rightarrow> s, b\<lparr>director := d\<rparr>, w))"

text \<open>Change the broker under the lock, write the state file, answer.\<close>

definition settle_with ::
    "('w, 'e) ext_scheme \<Rightarrow> (Broker \<Rightarrow> Broker) \<Rightarrow> response \<Rightarrow> Broker \<Rightarrow> 'w \<Rightarrow> response \<times> Broker \<times> 'w" where
  "settle_with e f resp b w = (case saveState e (f b) w of (b, w) \<Rightarrow> (resp, b, w))"

definition LastOperation ::
    "('w, 'e) ext_scheme \<Rightarrow> instance_id \<Rightarrow> Broker \<Rightarrow> 'w \<Rightarrow> response \<times> Broker \<times> 'w" where
  "LastOperation e k b w =
    (case lookup b k of
       None \<Rightarrow> (writeJSON 404 (Error ''Instance not found''), b, w)
     | Some r \<Rightarrow>
        (let state = i_State (deref b r); taskID = i_BoshTaskID (deref b r) in
         if state = ''provisioning'' then
           (if taskID = 0 then (last_op ''in progress'' ''Waiting for deployment task...'', b, w)
            else case poll_task e taskID b w of (taskState, b, w) \<Rightarrow>
              if taskState = ''done'' then
                settle_with e (modify r (set_state ''ready'')) (last_op ''succeeded'' ''Agent ready'') b w
              else if taskState = ''error'' \<or> taskState = ''cancelled'' then
                settle_with e (modify r (set_state ''failed'')) (last_op ''failed'' ''BOSH deployment failed'') b w
              else (last_op ''in progress'' ''Deploying agent VM...'', b, w))
         else if state = ''deprovisioning'' then
           (if taskID = 0 then (last_op ''in progress'' ''Waiting for delete task...'', b, w)
            else case poll_task e taskID b w of (taskState, b, w) \<Rightarrow>
              if taskState = ''done'' then
                settle_with e (remove_instance k) (last_op ''succeeded'' ''Agent deprovisioned'') b w
              else if taskState = ''error'' \<or> taskState = ''cancelled'' then
                (last_op ''failed'' ''Deprovision failed'', b, w)
              else (last_op ''in progress'' ''Deprovisioning agent VM...'', b, w))
         else if state = ''ready'' then (last_op ''succeeded'' ''Agent ready'', b, w)
         else if state = ''failed'' then (last_op ''failed'' ''Deployment failed'', b, w)
         else (last_op ''in progress'' ''Processing...'', b, w)))"

section \<open>Specification\<close>

text \<open>
  What a poll promises, without the broker: from the record and the state of its task (\<open>None\<close> when
  there is no task to ask about), the record afterwards (\<open>None\<close> when it is dropped) and the
  reported state.
\<close>

definition task_of :: "Instance \<Rightarrow> int option" where
  "task_of i = (if i_State i \<in> {''provisioning'', ''deprovisioning''} \<and> i_BoshTaskID i \<noteq> 0
     then Some (i_BoshTaskID i) else None)"

definition settled :: "string option \<Rightarrow> Instance \<Rightarrow> Instance option" where
  "settled task i =
    (if i_State i = ''provisioning'' \<and> task = Some ''done'' then Some (set_state ''ready'' i)
     else if i_State i = ''provisioning'' \<and> task \<in> {Some ''error'', Some ''cancelled''}
       then Some (set_state ''failed'' i)
     else if i_State i = ''deprovisioning'' \<and> task = Some ''done'' then None
     else Some i)"

definition reported :: "string option \<Rightarrow> Instance \<Rightarrow> string" where
  "reported task i =
    (case settled task i of
       None \<Rightarrow> ''succeeded''
     | Some j \<Rightarrow>
         if i_State j = ''ready'' then ''succeeded''
         else if i_State j = ''failed'' \<or> task \<in> {Some ''error'', Some ''cancelled''} then ''failed''
         else ''in progress'')"

section \<open>Lemmas\<close>

lemma poll_task_effect:
  assumes "poll_task e t b w = (s, b', w')"
  obtains d where "b' = b\<lparr>director := d\<rparr>" "client_ident d = client_ident (director b)"
    "s = (case fst (TaskStatus e (director b) t w) of Inl _ \<Rightarrow> [] | Inr s \<Rightarrow> s)"
  using assms director.status_ident [of e "director b" t w] by (auto simp: poll_task_def split: prod.splits)

lemma poll_task_state: "fst (poll_task e t b w) = (case fst (TaskStatus e (director b) t w) of Inl _ \<Rightarrow> [] | Inr s \<Rightarrow> s)"
  by (simp add: poll_task_def split: prod.splits)

lemma settle_with_modify:
  assumes "settle_with e (modify r f) rsp b w = (resp, b', w')"
    and "broker_wf b" "lookup b k = Some r" "\<And>i. instance_ok k i \<Longrightarrow> instance_ok k (f i)"
  shows "resp = rsp" "broker_wf b'" "inst_view b' = (inst_view b)(k \<mapsto> f (heap b ! r))" "broker_frame b b'"
proof -
  have "b' = fst (saveState e (modify r f b) w)" "resp = rsp"
    using assms(1) by (auto simp: settle_with_def split: prod.splits)
  then show "resp = rsp" "broker_wf b'" "inst_view b' = (inst_view b)(k \<mapsto> f (heap b ! r))" "broker_frame b b'"
    using assms(2-4) lookup_ok [OF assms(2,3)]
    by (simp_all add: broker_wf_modify [where k = k] inst_view_modify [where k = k])
qed

lemma settle_with_remove:
  assumes "settle_with e (remove_instance k) rsp b w = (resp, b', w')" and "broker_wf b"
  shows "resp = rsp" "broker_wf b'" "inst_view b' = (inst_view b)(k := None)" "broker_frame b b'"
proof -
  have "b' = fst (saveState e (remove_instance k b) w)" "resp = rsp"
    using assms(1) by (auto simp: settle_with_def split: prod.splits)
  then show "resp = rsp" "broker_wf b'" "inst_view b' = (inst_view b)(k := None)" "broker_frame b b'"
    using assms(2) by (simp_all add: broker_wf_remove inst_view_remove)
qed

text \<open>The state of a task as the poll reads it.\<close>

definition task_state :: "('w, 'e) ext_scheme \<Rightarrow> Client \<Rightarrow> 'w \<Rightarrow> int \<Rightarrow> string" where
  "task_state e c w t = (case fst (TaskStatus e c t w) of Inl _ \<Rightarrow> [] | Inr s \<Rightarrow> s)"

lemma LastOperation_idle:
  assumes eq: "LastOperation e k b w = (resp, b', w')" and r: "lookup b k = Some r"
    and idle: "task_of (heap b ! r) = None"
  shows "b' = b" "w' = w" "\<exists>d. resp = last_op (reported None (heap b ! r)) d"
  using assms
  by (auto simp: LastOperation_def deref_def Let_def task_of_def reported_def settled_def split: if_splits)

lemma LastOperation_provisioning:
  assumes wf: "broker_wf b" and eq: "LastOperation e k b w = (resp, b', w')" and r: "lookup b k = Some r"
    and i: "i_State (heap b ! r) = ''provisioning''" "i_BoshTaskID (heap b ! r) = t" "t \<noteq> 0"
  shows "broker_wf b' \<and> broker_frame b b'
    \<and> inst_view b' = (inst_view b)(k := settled (Some (task_state e (director b) w t)) (heap b ! r))
    \<and> (\<exists>d. resp = last_op (reported (Some (task_state e (director b) w t)) (heap b ! r)) d)"
proof -
  obtain s b1 w1 where p: "poll_task e t b w = (s, b1, w1)"
    by (metis prod_cases3)
  then obtain d where d: "b1 = b\<lparr>director := d\<rparr>" "client_ident d = client_ident (director b)"
    "s = task_state e (director b) w t"
    unfolding task_state_def by (rule poll_task_effect)
  have b1: "broker_wf b1" "lookup b1 k = Some r" "heap b1 ! r = heap b ! r" "inst_view b1 = inst_view b"
    "broker_frame b b1"
    using d(1,2) wf r by simp_all
  have v: "inst_view b k = Some (heap b ! r)"
    using r by (auto simp: inst_view_Some)
  have ok: "instance_ok k (set_state st i)" if "instance_ok k i" for st i
    using that by (simp add: record_ok)
  consider "s = ''done''" | "s \<in> {''error'', ''cancelled''}" | "s \<notin> {''done'', ''error'', ''cancelled''}"
    by blast
  then show ?thesis
  proof cases
    case 1
    then have "settle_with e (modify r (set_state ''ready'')) (last_op ''succeeded'' ''Agent ready'') b1 w1 = (resp, b', w')"
      using eq r i p by (simp add: LastOperation_def deref_def)
    note settle_with_modify [OF this b1(1,2) ok]
    then show ?thesis
      using 1 i b1(3-5) by (auto simp: d(3) [symmetric] settled_def reported_def intro: broker_frame_trans)
  next
    case 2
    then have "settle_with e (modify r (set_state ''failed'')) (last_op ''failed'' ''BOSH deployment failed'') b1 w1 = (resp, b', w')"
      using eq r i p by (auto simp: LastOperation_def deref_def)
    note settle_with_modify [OF this b1(1,2) ok]
    then show ?thesis
      using 2 i b1(3-5) by (auto simp: d(3) [symmetric] settled_def reported_def intro: broker_frame_trans)
  next
    case 3
    then have "b' = b1" "resp = last_op ''in progress'' ''Deploying agent VM...''"
      using eq r i p by (simp_all add: LastOperation_def deref_def)
    then show ?thesis
      using 3 i b1 v by (auto simp: d(3) [symmetric] settled_def reported_def fun_upd_idem)
  qed
qed

lemma LastOperation_deprovisioning:
  assumes wf: "broker_wf b" and eq: "LastOperation e k b w = (resp, b', w')" and r: "lookup b k = Some r"
    and i: "i_State (heap b ! r) = ''deprovisioning''" "i_BoshTaskID (heap b ! r) = t" "t \<noteq> 0"
  shows "broker_wf b' \<and> broker_frame b b'
    \<and> inst_view b' = (inst_view b)(k := settled (Some (task_state e (director b) w t)) (heap b ! r))
    \<and> (\<exists>d. resp = last_op (reported (Some (task_state e (director b) w t)) (heap b ! r)) d)"
proof -
  obtain s b1 w1 where p: "poll_task e t b w = (s, b1, w1)"
    by (metis prod_cases3)
  then obtain d where d: "b1 = b\<lparr>director := d\<rparr>" "client_ident d = client_ident (director b)"
    "s = task_state e (director b) w t"
    unfolding task_state_def by (rule poll_task_effect)
  have b1: "broker_wf b1" "inst_view b1 = inst_view b" "broker_frame b b1"
    using d(1,2) wf by simp_all
  have v: "inst_view b k = Some (heap b ! r)"
    using r by (auto simp: inst_view_Some)
  show ?thesis
  proof (cases "s = ''done''")
    case True
    then have "settle_with e (remove_instance k) (last_op ''succeeded'' ''Agent deprovisioned'') b1 w1 = (resp, b', w')"
      using eq r i p by (simp add: LastOperation_def deref_def)
    note settle_with_remove [OF this b1(1)]
    then show ?thesis
      using True i b1 by (auto simp: d(3) [symmetric] settled_def reported_def intro: broker_frame_trans)
  next
    case False
    then have "b' = b1" "resp = last_op (if s = ''error'' \<or> s = ''cancelled'' then ''failed'' else ''in progress'')
        (if s = ''error'' \<or> s = ''cancelled'' then ''Deprovision failed'' else ''Deprovisioning agent VM...'')"
      using eq r i p by (auto simp: LastOperation_def deref_def split: if_splits)
    then show ?thesis
      using False i b1 v by (auto simp: d(3) [symmetric] settled_def reported_def fun_upd_idem)
  qed
qed

lemma LastOperation_spec:
  assumes "broker_wf b" and "LastOperation e k b w = (resp, b', w')"
  shows "broker_wf b' \<and> broker_frame b b' \<and>
    (case inst_view b k of
       None \<Rightarrow> status resp = 404 \<and> b' = b
     | Some i \<Rightarrow> (\<exists>d. resp = last_op (reported (map_option (task_state e (director b) w) (task_of i)) i) d)
         \<and> inst_view b' = (inst_view b)(k := settled (map_option (task_state e (director b) w) (task_of i)) i))"
proof (cases "lookup b k")
  case None
  then show ?thesis
    using assms by (auto simp: LastOperation_def response_defs inst_view_def)
next
  case (Some r)
  then have v: "inst_view b k = Some (heap b ! r)"
    by (auto simp: inst_view_Some)
  let ?i = "heap b ! r"
  consider "task_of ?i = None" | "task_of ?i = Some (i_BoshTaskID ?i)" "i_BoshTaskID ?i \<noteq> 0" "i_State ?i = ''provisioning''"
    | "task_of ?i = Some (i_BoshTaskID ?i)" "i_BoshTaskID ?i \<noteq> 0" "i_State ?i = ''deprovisioning''"
    by (cases "i_BoshTaskID ?i = 0"; cases "i_State ?i = ''provisioning''"; cases "i_State ?i = ''deprovisioning''")
      (simp_all add: task_of_def)
  then show ?thesis
  proof cases
    case 1
    have "settled None ?i = Some ?i"
      by (simp add: settled_def)
    then show ?thesis
      using 1 v LastOperation_idle [OF assms(2) Some 1] assms(1) by (simp add: fun_upd_idem)
  next
    case 2
    then show ?thesis
      using v LastOperation_provisioning [OF assms Some 2(3) refl 2(2)] by simp
  next
    case 3
    then show ?thesis
      using v LastOperation_deprovisioning [OF assms Some 3(3) refl 3(2)] by simp
  qed
qed

section \<open>Properties\<close>

text \<open>
  C9. Polling implements its specification: the record of a known instance afterwards, and the
  state reported, are the ones \<open>settled\<close> and \<open>reported\<close> give for the record and the state of its
  task; a deployment becomes \<^verbatim>\<open>ready\<close> or \<^verbatim>\<open>failed\<close>, and a deletion drops the record, exactly when
  the Director says so. No other record changes, and an instance the broker does not know is
  answered with 404 and no change.
\<close>

theorem LastOperation_refines:
  assumes "broker_wf b" and "LastOperation e k b w = (resp, b', w')"
  shows "broker_wf b' \<and> broker_frame b b' \<and>
    (case inst_view b k of
       None \<Rightarrow> status resp = 404 \<and> b' = b
     | Some i \<Rightarrow> (\<exists>d. resp = last_op (reported (map_option (task_state e (director b) w) (task_of i)) i) d)
         \<and> inst_view b' = (inst_view b)(k := settled (map_option (task_state e (director b) w) (task_of i)) i))"
  using LastOperation_spec [OF assms] .

theorem LastOperation_refines_witness:
  "\<exists>b i. broker_wf b \<and> inst_view b = [''a-1'' \<mapsto> i] \<and> i_State i = ''ready''"
proof -
  let ?b = "sample_with ''a-1'' ''provisioning'' 7"
  let ?w = "script_start [json_reply 200 done_members]"
  obtain resp b w where eq: "LastOperation script_ext ''a-1'' ?b ?w = (resp, b, w)"
    by (metis prod_cases3)
  have "uaaURL (director ?b) = []" "urlOK script_ext (directorURL (director ?b) @ ''/tasks/'' @ itoa 7)"
    by code_simp+
  then have "task_state script_ext (director ?b) ?w 7 = ''done''"
    using script_TaskStatus_done [of "director ?b" 7] by (auto simp: task_state_def)
  moreover have "task_of (sample_instance ''a-1'' ''provisioning'' 7) = Some 7"
    by (simp add: task_of_def sample_instance_def)
  moreover have "settled (Some ''done'') (sample_instance ''a-1'' ''provisioning'' 7)
      = Some (sample_instance ''a-1'' ''ready'' 7)"
    by (simp add: settled_def sample_instance_def set_state_def)
  ultimately have "broker_wf b \<and> inst_view b = [''a-1'' \<mapsto> sample_instance ''a-1'' ''ready'' 7]"
    using LastOperation_refines [OF sample_with_props(1) eq] by simp
  then show ?thesis
    by (intro exI [of _ b] exI [of _ "sample_instance ''a-1'' ''ready'' 7"]) (simp add: sample_instance_def)
qed

end
