(* ===== verification/Binding.thy ===== *)
theory Binding
  imports Last_Operation
begin

text \<open>
  Service bindings (\<^verbatim>\<open>broker/binding.go\<close>). Binding reads the broker and changes nothing, so \<open>Bind\<close> is
  a function of the broker to the answer. The credentials are in the order of their keys, in
  which the JSON encoder writes a map. \<^verbatim>\<open>BindRequest\<close> is declared by the source but never read.
\<close>

section \<open>Model\<close>

definition instance_url :: "Instance \<Rightarrow> string" where
  "instance_url i = ''https://'' @ i_RouteHostname i @ ''.'' @ i_AppsDomain i"

definition bind_credentials :: "Instance \<Rightarrow> (string \<times> json) list" where
  "bind_credentials i =
    [(''api_endpoint'', JStr (instance_url i @ ''/api'')),
     (''api_token'', JStr (i_GatewayToken i)),
     (''dashboard_url'', JStr (instance_url i @ ''?token='' @ i_GatewayToken i)),
     (''instance_id'', JStr (i_ID i)),
     (''node_seed'', JStr (i_NodeSeed i)),
     (''openclaw_version'', JStr (i_OpenClawVersion i)),
     (''owner'', JStr (i_Owner i)),
     (''plan'', JStr (i_PlanName i)),
     (''sso_enabled'', JBool (i_SSOEnabled i))]"

definition Bind :: "instance_id \<Rightarrow> Broker \<Rightarrow> response" where
  "Bind k b =
    (case lookup b k of
       None \<Rightarrow> writeJSON 404 (Error ''Instance not found'')
     | Some r \<Rightarrow>
         if i_State (deref b r) \<noteq> ''ready'' then writeJSON 422 (Error ''Instance not ready'')
         else writeJSON 201 (Credentials (bind_credentials (deref b r))))"

definition Unbind :: response where
  "Unbind = writeJSON 200 Empty"

section \<open>Properties\<close>



end
