(* ===== verification/Catalog.thy ===== *)
theory Catalog
  imports Binding
begin

text \<open>
  The service catalog (\<^verbatim>\<open>broker/catalog.go\<close>, \<^verbatim>\<open>broker/icon.go\<close>): the document a platform reads to learn
  which plans it may ask for. \<open>marshal_Service\<close> and \<open>marshal_ServicePlan\<close> are the JSON the struct tags
  prescribe; \<^verbatim>\<open>omitempty\<close> drops an empty metadata map, and a map is written in key order.
\<close>

section \<open>Model\<close>

text \<open>The icon, line by line; the lines are joined by newlines.\<close>

definition iconSVG :: string where
  \<open>iconSVG = strings_Join [newline]
    [''<svg xmlns="http://www.w3.org/2000/svg" viewBox="0 0 256 256" width="256" height="256">'',
     ''  <!-- Background circle -->'',
     ''  <circle cx="128" cy="128" r="120" fill="#1a1a2e"/>'',
     ''  <circle cx="128" cy="128" r="112" fill="#16213e"/>'',
     [],
     ''  <!-- Left claw arm -->'',
     ''  <path d="M88 180 L88 120 Q88 100 78 85 L60 58 Q55 50 62 46 Q69 42 74 50 L98 88 Q105 100 105 115 L105 180"'',
     ''        fill="#c0392b" stroke="#e74c3c" stroke-width="2" stroke-linejoin="round"/>'',
     [],
     ''  <!-- Right claw arm -->'',
     ''  <path d="M168 180 L168 120 Q168 100 178 85 L196 58 Q201 50 194 46 Q187 42 182 50 L158 88 Q151 100 151 115 L151 180"'',
     ''        fill="#c0392b" stroke="#e74c3c" stroke-width="2" stroke-linejoin="round"/>'',
     [],
     ''  <!-- Left pincer (upper jaw) -->'',
     ''  <path d="M60 58 Q50 42 38 38 Q28 35 30 45 Q32 55 45 60 L60 58 Z"'',
     ''        fill="#e74c3c" stroke="#ff6b6b" stroke-width="1.5"/>'',
     [],
     ''  <!-- Left pincer (lower jaw) -->'',
     ''  <path d="M60 58 Q48 62 40 72 Q34 80 44 78 Q54 76 60 66 L60 58 Z"'',
     ''        fill="#d63031" stroke="#ff6b6b" stroke-width="1.5"/>'',
     [],
     ''  <!-- Right pincer (upper jaw) -->'',
     ''  <path d="M196 58 Q206 42 218 38 Q228 35 226 45 Q224 55 211 60 L196 58 Z"'',
     ''        fill="#e74c3c" stroke="#ff6b6b" stroke-width="1.5"/>'',
     [],
     ''  <!-- Right pincer (lower jaw) -->'',
     ''  <path d="M196 58 Q208 62 216 72 Q222 80 212 78 Q202 76 196 66 L196 58 Z"'',
     ''        fill="#d63031" stroke="#ff6b6b" stroke-width="1.5"/>'',
     [],
     ''  <!-- Central body -->'',
     ''  <rect x="96" y="110" rx="8" ry="8" width="64" height="80" fill="#c0392b" stroke="#e74c3c" stroke-width="2"/>'',
     [],
     ''  <!-- AI "eye" / sensor -->'',
     ''  <circle cx="128" cy="140" r="18" fill="#1a1a2e" stroke="#e74c3c" stroke-width="2"/>'',
     ''  <circle cx="128" cy="140" r="10" fill="#00d2ff"/>'',
     ''  <circle cx="128" cy="140" r="5" fill="#ffffff" opacity="0.9"/>'',
     [],
     ''  <!-- Circuit lines on body -->'',
     ''  <line x1="108" y1="168" x2="118" y2="168" stroke="#ff6b6b" stroke-width="1.5" opacity="0.6"/>'',
     ''  <line x1="138" y1="168" x2="148" y2="168" stroke="#ff6b6b" stroke-width="1.5" opacity="0.6"/>'',
     ''  <line x1="108" y1="176" x2="148" y2="176" stroke="#ff6b6b" stroke-width="1.5" opacity="0.6"/>'',
     [],
     ''  <!-- Joint details -->'',
     ''  <circle cx="88" cy="120" r="5" fill="#e74c3c" stroke="#ff6b6b" stroke-width="1"/>'',
     ''  <circle cx="168" cy="120" r="5" fill="#e74c3c" stroke="#ff6b6b" stroke-width="1"/>'',
     [],
     ''  <!-- Base / platform feet -->'',
     ''  <rect x="82" y="188" rx="4" ry="4" width="92" height="16" fill="#922b21" stroke="#c0392b" stroke-width="1.5"/>'',
     ''  <rect x="90" y="202" rx="3" ry="3" width="76" height="10" fill="#7b241c" stroke="#922b21" stroke-width="1"/>'',
     ''</svg>'']\<close>

definition IconDataURI :: string where
  "IconDataURI = ''data:image/svg+xml;base64,'' @ b64_Std iconSVG"

record ServicePlan =
  sp_ID :: string
  sp_Name :: string
  sp_Description :: string
  sp_Free :: bool
  sp_Metadata :: "(string \<times> json) list"

record Service =
  s_ID :: string
  s_Name :: string
  s_Description :: string
  s_Bindable :: bool
  s_PlanUpdatable :: bool
  s_InstancesRetrievable :: bool
  s_BindingsRetrievable :: bool
  s_Plans :: "ServicePlan list"
  s_Metadata :: "(string \<times> json) list"
  s_Tags :: "string list"

definition metadata_member :: "(string \<times> json) list \<Rightarrow> (string \<times> json) list" where
  "metadata_member ms = (if ms = [] then [] else [(''metadata'', JObj (sort_key fst ms))])"

definition marshal_ServicePlan :: "ServicePlan \<Rightarrow> json" where
  "marshal_ServicePlan p =
    JObj ([(''id'', JStr (sp_ID p)), (''name'', JStr (sp_Name p)), (''description'', JStr (sp_Description p)),
           (''free'', JBool (sp_Free p))] @ metadata_member (sp_Metadata p))"

definition marshal_Service :: "Service \<Rightarrow> json" where
  "marshal_Service s =
    JObj ([(''id'', JStr (s_ID s)), (''name'', JStr (s_Name s)), (''description'', JStr (s_Description s)),
           (''bindable'', JBool (s_Bindable s)), (''plan_updateable'', JBool (s_PlanUpdatable s)),
           (''instances_retrievable'', JBool (s_InstancesRetrievable s)),
           (''bindings_retrievable'', JBool (s_BindingsRetrievable s)),
           (''plans'', JArr (map marshal_ServicePlan (s_Plans s)))]
          @ metadata_member (s_Metadata s) @ [(''tags'', JArr (map JStr (s_Tags s)))])"

definition buildServicePlans :: "BrokerConfig \<Rightarrow> ServicePlan list" where
  "buildServicePlans c =
     map (\<lambda>p. \<lparr>sp_ID = p_ID p, sp_Name = p_Name p, sp_Description = p_Description p, sp_Free = False,
                sp_Metadata = p_Metadata p\<rparr>) (effective_plans c)"

definition catalog_service :: "BrokerConfig \<Rightarrow> Service" where
  "catalog_service c =
    \<lparr>s_ID = ''openclaw-service'', s_Name = ''openclaw'',
     s_Description = ''Dedicated OpenClaw AI agent on an isolated VM with WebChat UI'',
     s_Bindable = True, s_PlanUpdatable = True, s_InstancesRetrievable = True, s_BindingsRetrievable = True,
     s_Plans = buildServicePlans c,
     s_Metadata =
       [(''displayName'', JStr ''OpenClaw AI Agent''),
        (''imageUrl'', JStr IconDataURI),
        (''longDescription'', JStr ''Deploy a dedicated OpenClaw AI agent with persistent memory, shell access, browser automation, and 50+ integrations. Each instance runs on its own isolated VM with a dedicated WebChat UI.''),
        (''providerDisplayName'', JStr ''OpenClaw Platform''),
        (''documentationUrl'', JStr ''https://github.com/openclaw/openclaw'')],
     s_Tags = [''ai'', ''agent'', ''openclaw'', ''llm'']\<rparr>"

definition Catalog :: "Broker \<Rightarrow> response" where
  "Catalog b =
     writeJSON 200 (Document (JObj [(''services'', JArr [marshal_Service (catalog_service (config b))])]))"

section \<open>Lemmas\<close>

lemma normalizePlan_ID:
  "p_ID (normalizePlan p) = (if p_ID p = [] \<and> p_Name p \<noteq> [] then ''openclaw-'' @ p_Name p @ ''-plan'' else p_ID p)"
  "p_Name (normalizePlan p) = p_Name p"
  "p_Name p \<noteq> [] \<Longrightarrow> p_Description (normalizePlan p) \<noteq> []"
  by (auto simp: normalizePlan_def Let_def)

lemma effective_plans_nonempty: "effective_plans c \<noteq> []"
  by (simp add: effective_plans_def defaultPlans_def)

section \<open>Properties\<close>

text \<open>
  The catalog and the broker agree on the plans: the identifiers the catalog advertises are
  exactly those a request may name, there is at least one, and the plan the broker uses for an
  advertised identifier has that identifier and a name and description the catalog shows for it.
\<close>

theorem catalog_plans_agree:
  "buildServicePlans c \<noteq> [] \<and> {pid. findPlan c pid \<noteq> None} = sp_ID ` set (buildServicePlans c)
   \<and> (\<forall>sp \<in> set (buildServicePlans c). \<exists>p. findPlan c (sp_ID sp) = Some p \<and>
        (\<exists>sp' \<in> set (buildServicePlans c). sp_ID sp' = sp_ID sp \<and> sp_Name sp' = p_Name p
           \<and> sp_Description sp' = p_Description p))"
proof -
  have found: "\<exists>p. findPlan c (p_ID q) = Some p \<and> p \<in> set (effective_plans c) \<and> p_ID p = p_ID q"
    if "q \<in> set (effective_plans c)" for q
  proof -
    have "findPlan c (p_ID q) \<noteq> None"
      using that by (auto simp: findPlan_def find_None_iff)
    then show ?thesis
      using findPlan_Some by blast
  qed
  have "{pid. findPlan c pid \<noteq> None} = p_ID ` set (effective_plans c)"
    using found findPlan_Some by (fastforce simp: image_iff)
  then show ?thesis
    using found effective_plans_nonempty [of c] by (fastforce simp: buildServicePlans_def image_image)
qed

theorem catalog_plans_agree_witness:
  "\<exists>p. findPlan sample_config ''openclaw-team-plan'' = Some p \<and>
     (\<exists>sp' \<in> set (buildServicePlans sample_config). sp_ID sp' = ''openclaw-team-plan'' \<and> sp_Name sp' = p_Name p)"
proof -
  let ?sp = "buildServicePlans sample_config ! 2"
  have "?sp \<in> set (buildServicePlans sample_config)" "sp_ID ?sp = ''openclaw-team-plan''"
    by (code_simp, code_simp)
  then show ?thesis
    using catalog_plans_agree [of sample_config] by metis
qed

end
