(* ===== verification/Admin.thy ===== *)
theory Admin
  imports Catalog
begin

text \<open>
  The operator endpoints (\<^verbatim>\<open>broker/admin.go\<close>): listing the instances, redeploying those whose version
  is not the configured one, and following the Director tasks of such an upgrade. The loops of the
  source run over maps, in the order the environment chooses (\<open>mapOrder\<close>).
\<close>

section \<open>Model\<close>

text \<open>The references a loop over the instance map visits.\<close>

definition range_instances :: "('w, 'e) ext_scheme \<Rightarrow> Broker \<Rightarrow> 'w \<Rightarrow> ref list \<times> 'w" where
  "range_instances e b w =
    (case mapOrder e (map fst (instances b)) w of (ks, w) \<Rightarrow> (List.map_filter (lookup b) ks, w))"

definition instanceInfo :: "Instance \<Rightarrow> json" where
  "instanceInfo i =
    JObj [(''id'', JStr (i_ID i)), (''deployment_name'', JStr (i_DeploymentName i)),
          (''state'', JStr (i_State i)), (''openclaw_version'', JStr (i_OpenClawVersion i)),
          (''plan_name'', JStr (i_PlanName i)), (''owner'', JStr (i_Owner i))]"

definition AdminListInstances :: "('w, 'e) ext_scheme \<Rightarrow> Broker \<Rightarrow> 'w \<Rightarrow> response \<times> 'w" where
  "AdminListInstances e b w =
    (case range_instances e b w of (rs, w) \<Rightarrow>
       (writeJSON 200 (Document (JArr (map instanceInfo
          (filter (\<lambda>i. i_State i \<noteq> ''deprovisioning'') (map (deref b) rs))))), w))"

record UpgradeRequest =
  g_TargetVersion :: string
  g_Count :: int
  g_MaxParallel :: int

text \<open>The loop that picks the candidates, with its \<^verbatim>\<open>break\<close>.\<close>

fun collect :: "Broker \<Rightarrow> string \<Rightarrow> int \<Rightarrow> ref list \<Rightarrow> ref list \<Rightarrow> ref list" where
  "collect b configVersion count [] candidates = candidates"
| "collect b configVersion count (r # rs) candidates =
    (if i_State (deref b r) = ''deprovisioning'' then collect b configVersion count rs candidates
     else let candidates = (if i_OpenClawVersion (deref b r) \<noteq> configVersion then candidates @ [r] else candidates)
          in if int (length candidates) \<ge> count then candidates
             else collect b configVersion count rs candidates)"

definition upgraded :: "int \<Rightarrow> string \<Rightarrow> Instance \<Rightarrow> Instance" where
  "upgraded taskID configVersion i =
     i\<lparr>i_State := ''provisioning'', i_BoshTaskID := taskID, i_OpenClawVersion := configVersion\<rparr>"

definition track_upgrade :: "instance_id \<Rightarrow> int \<Rightarrow> Broker \<Rightarrow> Broker" where
  "track_upgrade k taskID b = b\<lparr>upgrade_tasks := AList.update k taskID (upgrade_tasks b)\<rparr>"

text \<open>One round of the redeployment loop: whether the instance is being upgraded.\<close>

definition upgrade_one ::
    "('w, 'e) ext_scheme \<Rightarrow> string \<Rightarrow> ref \<Rightarrow> Broker \<Rightarrow> 'w \<Rightarrow> bool \<times> Broker \<times> 'w" where
  "upgrade_one e configVersion r b w =
    (case deploy_instance e r b w of
       (Deployed taskID, b, w) \<Rightarrow>
         (True, track_upgrade (i_ID (deref b r)) taskID (modify r (upgraded taskID configVersion) b), w)
     | (_, b, w) \<Rightarrow> (False, b, w))"

fun upgrade_all ::
    "('w, 'e) ext_scheme \<Rightarrow> string \<Rightarrow> ref list \<Rightarrow> int \<Rightarrow> Broker \<Rightarrow> 'w \<Rightarrow> int \<times> Broker \<times> 'w" where
  "upgrade_all e configVersion [] n b w = (n, b, w)"
| "upgrade_all e configVersion (r # rs) n b w =
    (case upgrade_one e configVersion r b w of
       (ok, b, w) \<Rightarrow> upgrade_all e configVersion rs (if ok then n + 1 else n) b w)"

definition AdminUpgrade ::
    "('w, 'e) ext_scheme \<Rightarrow> UpgradeRequest option \<Rightarrow> Broker \<Rightarrow> 'w \<Rightarrow> response \<times> Broker \<times> 'w" where
  "AdminUpgrade e body b w =
    (case body of
       None \<Rightarrow> (writeJSON 400 (Error ''Bad request''), b, w)
     | Some req \<Rightarrow>
        if g_Count req \<le> 0 then (writeJSON 400 (Error ''count must be positive''), b, w)
        else
          (let configVersion = c_OpenClawVersion (config b);
               (rs, w) = range_instances e b w;
               candidates = collect b configVersion (g_Count req) rs []
           in case upgrade_all e configVersion candidates 0 b w of (n, b, w) \<Rightarrow>
             (case saveState e b w of (b, w) \<Rightarrow>
               (writeJSON 200 (Document (JObj [(''upgrading'', JInt n)])), b, w))))"

record upgrade_counts =
  healthy :: nat
  failed_count :: nat
  inProgress :: nat

text \<open>One round of the status loop.\<close>

definition check_upgrade ::
    "('w, 'e) ext_scheme \<Rightarrow> instance_id \<Rightarrow> int \<Rightarrow> upgrade_counts \<Rightarrow> Broker \<Rightarrow> 'w
     \<Rightarrow> upgrade_counts \<times> Broker \<times> 'w" where
  "check_upgrade e instID taskID n b w =
    (case TaskStatus e (director b) taskID w of
       (Inl _, d, w) \<Rightarrow> (n\<lparr>failed_count := Suc (failed_count n)\<rparr>, b\<lparr>director := d\<rparr>, w)
     | (Inr state, d, w) \<Rightarrow>
        (let b = b\<lparr>director := d\<rparr> in
         if state = ''done'' then
           (n\<lparr>healthy := Suc (healthy n)\<rparr>, update_instance instID (set_state ''ready'') b, w)
         else if state = ''error'' \<or> state = ''cancelled'' then
           (n\<lparr>failed_count := Suc (failed_count n)\<rparr>, update_instance instID (set_state ''failed'') b, w)
         else (n\<lparr>inProgress := Suc (inProgress n)\<rparr>, b, w)))"

fun check_upgrades ::
    "('w, 'e) ext_scheme \<Rightarrow> (instance_id \<times> int) list \<Rightarrow> upgrade_counts \<Rightarrow> Broker \<Rightarrow> 'w
     \<Rightarrow> upgrade_counts \<times> Broker \<times> 'w" where
  "check_upgrades e [] n b w = (n, b, w)"
| "check_upgrades e ((instID, taskID) # ts) n b w =
    (case check_upgrade e instID taskID n b w of (n, b, w) \<Rightarrow> check_upgrades e ts n b w)"

text \<open>The copy of the task map, in the order the loop visits it.\<close>

definition range_tasks :: "('w, 'e) ext_scheme \<Rightarrow> Broker \<Rightarrow> 'w \<Rightarrow> (instance_id \<times> int) list \<times> 'w" where
  "range_tasks e b w =
    (case mapOrder e (map fst (upgrade_tasks b)) w of (ks, w) \<Rightarrow>
       (List.map_filter (\<lambda>k. map_option (Pair k) (map_of (upgrade_tasks b) k)) ks, w))"

definition upgrade_report :: "nat \<Rightarrow> upgrade_counts \<Rightarrow> json" where
  "upgrade_report count n =
    JObj [(''failed'', JInt (int (failed_count n))), (''healthy'', JInt (int (healthy n))),
          (''in_progress'', JInt (int (inProgress n))), (''total'', JInt (int count))]"

definition AdminUpgradeStatus :: "('w, 'e) ext_scheme \<Rightarrow> Broker \<Rightarrow> 'w \<Rightarrow> response \<times> Broker \<times> 'w" where
  "AdminUpgradeStatus e b w =
    (let count = length (upgrade_tasks b);
         (ts, w) = range_tasks e b w
     in case check_upgrades e ts \<lparr>healthy = 0, failed_count = 0, inProgress = 0\<rparr> b w of (n, b, w) \<Rightarrow>
       (case saveState e b w of (b, w) \<Rightarrow>
         (writeJSON 200 (Document (upgrade_report count n)), b, w)))"

section \<open>Lemmas\<close>

lemma upgraded_ok [record_ok]: "instance_ok k (upgraded t v i) = instance_ok k i"
  by (simp add: upgraded_def instance_ok_def)

lemma track_upgrade_fields [simp]:
  "inst_view (track_upgrade k t b) = inst_view b" "broker_wf (track_upgrade k t b) = broker_wf b"
  "lookup (track_upgrade k t b) = lookup b" "config (track_upgrade k t b) = config b"
  "heap (track_upgrade k t b) = heap b" "instances (track_upgrade k t b) = instances b"
  "director (track_upgrade k t b) = director b" "deref (track_upgrade k t b) = deref b"
  "uaaClient (track_upgrade k t b) = uaaClient b"
  by (simp_all add: track_upgrade_def fun_eq_iff)

lemma track_upgrade_frame: "broker_frame b0 b \<Longrightarrow> broker_frame b0 (track_upgrade k t b)"
  by (simp add: broker_frame_def) (simp add: track_upgrade_def distinct_update)

lemma set_map_filter: "set (List.map_filter f xs) = {y. \<exists>x \<in> set xs. f x = Some y}"
  by (auto simp: List.map_filter_def image_iff) (metis option.sel option.distinct(1))

lemma wf_refs: "broker_wf b \<Longrightarrow> r \<in> snd ` set (instances b) \<Longrightarrow> r < length (heap b)"
  by (auto simp: broker_wf_def)

lemma range_visits_onceD:
  "range_visits_once e \<Longrightarrow> distinct ks \<Longrightarrow> mapOrder e ks w = (ks', w') \<Longrightarrow> distinct ks' \<and> set ks' = set ks"
  unfolding range_visits_once_def by (metis fst_conv)

text \<open>The references of a loop over the map are those of the map.\<close>

lemma range_instances_refs:
  assumes "range_visits_once e" and "broker_wf b" and "range_instances e b w = (rs, w')"
  shows "distinct rs" and "set rs = snd ` set (instances b)"
proof -
  obtain ks where ks: "mapOrder e (map fst (instances b)) w = (ks, w')" "rs = List.map_filter (lookup b) ks"
    using assms(3) by (auto simp: range_instances_def split: prod.splits)
  have "distinct (map fst (instances b))"
    using assms(2) by (simp add: broker_wf_def)
  from range_visits_onceD [OF assms(1) this ks(1)] have d: "distinct ks" "set ks = fst ` set (instances b)"
    by simp_all
  have "k = k'" if "lookup b k = Some r" "lookup b k' = Some r" for k k' r
    using lookup_inj [OF assms(2)] that by blast
  then have "inj_on (lookup b) {k. lookup b k \<noteq> None}"
    by (auto simp: inj_on_def)
  then show "distinct rs"
    using d(1) by (auto simp: ks(2) List.map_filter_def distinct_map inj_on_def)
  have "r \<in> set rs \<longleftrightarrow> (\<exists>k. (k, r) \<in> set (instances b))" for r
    using d(2) lookup_mem [OF assms(2)] by (auto simp: ks(2) set_map_filter) (metis fst_conv image_eqI)
  then show "set rs = snd ` set (instances b)"
    by force
qed

text \<open>The collecting loop is a filter cut off at the requested count.\<close>

definition outdated :: "string \<Rightarrow> Instance \<Rightarrow> bool" where
  "outdated v i \<longleftrightarrow> active i \<and> i_OpenClawVersion i \<noteq> v"

lemma collect_filter:
  "int (length acc) < n \<Longrightarrow>
   collect b v n rs acc = acc @ take (nat n - length acc) (filter (\<lambda>r. outdated v (deref b r)) rs)"
proof (induction rs arbitrary: acc)
  case (Cons r rs)
  show ?case
  proof (cases "outdated v (deref b r)")
    case True
    then have "collect b v n (r # rs) acc =
        (if int (length (acc @ [r])) \<ge> n then acc @ [r] else collect b v n rs (acc @ [r]))"
      by (simp add: outdated_def active_def)
    moreover have "nat n - length acc = Suc (nat n - length (acc @ [r]))"
      using Cons.prems by simp
    ultimately show ?thesis
      using Cons.IH [of "acc @ [r]"] True by auto
  next
    case False
    then show ?thesis
      using Cons by (auto simp: outdated_def active_def)
  qed
qed simp

text \<open>One redeployment changes the record it is for, or nothing.\<close>

lemma upgrade_one_effect:
  assumes "upgrade_one e v r b w = (ok, b', w')"
  shows "instances b' = instances b" "config b' = config b" "broker_frame b b'"
    and "\<exists>t. heap b' = (if ok then (heap b)[r := upgraded t v (heap b ! r)] else heap b)"
proof -
  obtain res b1 w1 where d: "deploy_instance e r b w = (res, b1, w1)"
    by (metis prod_cases3)
  obtain c where c: "b1 = b\<lparr>director := c\<rparr>" "client_ident c = client_ident (director b)"
    using deploy_instance_effect(1) [OF d] by blast
  have "(b' = b1 \<and> \<not> ok) \<or> (\<exists>t. ok \<and> b' = track_upgrade (i_ID (deref b1 r)) t (modify r (upgraded t v) b1))"
    using assms d by (auto simp: upgrade_one_def split: deploy_result.splits)
  then show "instances b' = instances b" "config b' = config b" "broker_frame b b'"
    "\<exists>t. heap b' = (if ok then (heap b)[r := upgraded t v (heap b ! r)] else heap b)"
    using c by (auto simp: track_upgrade_frame) (auto simp: modify_def)
qed

lemma upgrade_one_accepted:
  assumes "director_accepts e (director b)"
  shows "fst (upgrade_one e v r b w)"
proof -
  obtain t b1 w1 where "deploy_instance e r b w = (Deployed t, b1, w1)"
    using deploy_instance_accepted [OF assms, of r w] by blast
  then show ?thesis
    by (simp add: upgrade_one_def)
qed

text \<open>The redeployment loop: the records of a set \<open>D\<close> of the candidates are upgraded, all of them
  if the Director never refuses.\<close>

definition always_accepts :: "('w, 'e) ext_scheme \<Rightarrow> Broker \<Rightarrow> bool" where
  "always_accepts e b \<longleftrightarrow> (\<forall>c. client_ident c = client_ident (director b) \<longrightarrow> director_accepts e c)"

lemma upgrade_all_effect:
  assumes "upgrade_all e v rs n b w = (n', b', w')" and "distinct rs" and "\<forall>r \<in> set rs. r < length (heap b)"
  shows "instances b' = instances b \<and> broker_frame b b' \<and> length (heap b') = length (heap b) \<and>
    (\<exists>D \<subseteq> set rs. n' = n + int (card D) \<and> (always_accepts e b \<longrightarrow> D = set rs) \<and>
       (\<forall>s. s \<notin> D \<longrightarrow> heap b' ! s = heap b ! s) \<and> (\<forall>s \<in> D. \<exists>t. heap b' ! s = upgraded t v (heap b ! s)))"
  using assms
proof (induction rs arbitrary: n b w)
  case Nil
  then show ?case
    by simp
next
  case (Cons r rs)
  obtain ok b1 w1 where one: "upgrade_one e v r b w = (ok, b1, w1)"
    by (metis prod_cases3)
  obtain t where h: "heap b1 = (if ok then (heap b)[r := upgraded t v (heap b ! r)] else heap b)"
    using upgrade_one_effect(4) [OF one] by blast
  have fr: "broker_frame b b1"
    by (rule upgrade_one_effect(3) [OF one])
  have rest: "upgrade_all e v rs (if ok then n + 1 else n) b1 w1 = (n', b', w')"
    using Cons.prems(1) one by simp
  have "\<forall>s \<in> set rs. s < length (heap b1)"
    using Cons.prems(3) h by simp
  from Cons.IH [OF rest _ this] Cons.prems(2) obtain D where D: "D \<subseteq> set rs"
    "n' = (if ok then n + 1 else n) + int (card D)" "always_accepts e b1 \<longrightarrow> D = set rs"
    "\<forall>s. s \<notin> D \<longrightarrow> heap b' ! s = heap b1 ! s" "\<forall>s \<in> D. \<exists>t. heap b' ! s = upgraded t v (heap b1 ! s)"
    and b': "instances b' = instances b1" "broker_frame b1 b'" "length (heap b') = length (heap b1)"
    by auto
  let ?D = "if ok then insert r D else D"
  have r: "r \<notin> D" "r < length (heap b)" "r \<notin> set rs"
    using D(1) Cons.prems by auto
  have "n' = n + int (card ?D)"
    using D(1,2) r(1) finite_subset [OF D(1)] by simp
  moreover have "always_accepts e b \<longrightarrow> ?D = set (r # rs)"
    using D(3) fr upgrade_one_accepted [of e b v r w] one
    by (auto simp: always_accepts_def broker_frame_def)
  moreover have "\<forall>s. s \<notin> ?D \<longrightarrow> heap b' ! s = heap b ! s"
    using D(4) h by (auto simp: nth_list_update)
  moreover have "\<forall>s \<in> ?D. \<exists>t. heap b' ! s = upgraded t v (heap b ! s)"
    using D(4,5) h r by (auto split: if_splits) (metis nth_list_update_neq)+
  ultimately show ?case
    using b' fr upgrade_one_effect(1) [OF one] h D(1) broker_frame_trans
    by (intro conjI exI [of _ ?D]) auto
qed

text \<open>Sets of references of the map are as large as the sets of their identifiers.\<close>

lemma card_keys:
  assumes wf: "broker_wf b" and D: "D \<subseteq> snd ` set (instances b)"
  shows "card {k. \<exists>r \<in> D. lookup b k = Some r} = card D"
proof -
  let ?K = "{k. \<exists>r \<in> D. lookup b k = Some r}"
  have "inj_on (the \<circ> lookup b) ?K"
    using lookup_inj [OF wf] by (fastforce simp: inj_on_def)
  moreover have "r \<in> (the \<circ> lookup b) ` ?K" if r: "r \<in> D" for r
  proof -
    obtain k where "(k, r) \<in> set (instances b)"
      using D r by auto
    then have "lookup b k = Some r"
      using lookup_mem [OF wf] by simp
    then show ?thesis
      using r by (intro image_eqI [of _ _ k]) auto
  qed
  then have "(the \<circ> lookup b) ` ?K = D"
    by auto
  ultimately show ?thesis
    using card_image [of "the \<circ> lookup b" ?K] by simp
qed

lemma heap_change_view:
  assumes wf: "broker_wf b" and b': "instances b' = instances b" "length (heap b') = length (heap b)"
    and same: "\<forall>s. s \<notin> D \<longrightarrow> heap b' ! s = heap b ! s"
    and new: "\<forall>s \<in> D. \<exists>t. heap b' ! s = upgraded t v (heap b ! s)"
  shows "broker_wf b'"
    and "(\<nexists>r. r \<in> D \<and> lookup b k = Some r) \<Longrightarrow> inst_view b' k = inst_view b k"
    and "lookup b k = Some r \<Longrightarrow> r \<in> D \<Longrightarrow> \<exists>t. inst_view b' k = Some (upgraded t v (heap b ! r))"
proof -
  have l: "lookup b' = lookup b"
    by (simp add: lookup_def fun_eq_iff b'(1))
  have "instance_ok k (heap b' ! s) = instance_ok k (heap b ! s)" for k s
    using same new by (cases "s \<in> D") (auto simp: record_ok)
  then show "broker_wf b'"
    using wf b' by (auto simp: broker_wf_def)
  show "inst_view b' k = inst_view b k" if "\<nexists>r. r \<in> D \<and> lookup b k = Some r"
    using that same l by (cases "lookup b k") (auto simp: inst_view_def deref_def)
  show "\<exists>t. inst_view b' k = Some (upgraded t v (heap b ! r))" if "lookup b k = Some r" "r \<in> D"
    using that new l by (auto simp: inst_view_def deref_def)
qed

lemma outdated_refs:
  assumes "broker_wf b" and "set rs = snd ` set (instances b)"
  shows "{k. \<exists>r \<in> {r \<in> set rs. outdated v (deref b r)}. lookup b k = Some r}
    = {k. \<exists>i. inst_view b k = Some i \<and> outdated v i}"
proof -
  have "r \<in> set rs" if "lookup b k = Some r" for k r
    using that lookup_mem [OF assms(1)] assms(2) by (force simp: image_iff)
  then show ?thesis
    by (auto simp: inst_view_def)
qed

text \<open>The status loop: every task is counted once, and only tracked instances change.\<close>

lemma update_instance_effect:
  assumes "broker_wf b"
  shows "broker_wf (update_instance k (set_state st) b)" "broker_frame b (update_instance k (set_state st) b)"
    "upgrade_tasks (update_instance k (set_state st) b) = upgrade_tasks b"
    "inst_view (update_instance k (set_state st) b) = (inst_view b)(k := map_option (set_state st) (inst_view b k))"
proof -
  show "broker_wf (update_instance k (set_state st) b)"
    using assms lookup_ok [OF assms]
    by (auto simp: update_instance_def broker_wf_modify record_ok split: option.splits)
  show "inst_view (update_instance k (set_state st) b) = (inst_view b)(k := map_option (set_state st) (inst_view b k))"
  proof (cases "lookup b k")
    case None
    then have "inst_view b k = None"
      by simp
    then show ?thesis
      using None by (simp add: update_instance_def fun_upd_idem del: inst_view_None)
  next
    case (Some r)
    then show ?thesis
      using inst_view_modify [OF assms Some, of "set_state st"]
      by (simp add: update_instance_def) (simp add: inst_view_def deref_def)
  qed
qed (simp_all add: update_instance_def split: option.splits)

definition counted :: "upgrade_counts \<Rightarrow> nat" where
  "counted n = healthy n + failed_count n + inProgress n"

definition rechecked :: "Instance option \<Rightarrow> Instance option \<Rightarrow> bool" where
  "rechecked x y \<longleftrightarrow> y = x \<or> (\<exists>i st. x = Some i \<and> st \<in> {''ready'', ''failed''} \<and> y = Some (set_state st i))"

lemma rechecked_trans: "rechecked x y \<Longrightarrow> rechecked y z \<Longrightarrow> rechecked x z"
  by (auto simp: rechecked_def set_state_def)

lemma check_upgrade_effect:
  assumes wf: "broker_wf b" and eq: "check_upgrade e k t n b w = (n', b', w')"
  shows "counted n' = Suc (counted n)" "broker_wf b'" "broker_frame b b'" "upgrade_tasks b' = upgrade_tasks b"
    "inst_view b' = inst_view b \<or> (\<exists>st \<in> {''ready'', ''failed''}.
       inst_view b' = (inst_view b)(k := map_option (set_state st) (inst_view b k)))"
proof -
  obtain res d w1 where st: "TaskStatus e (director b) t w = (res, d, w1)"
    by (metis prod_cases3)
  have "client_ident d = client_ident (director b)"
    using director.status_ident [OF st] .
  then show "counted n' = Suc (counted n)" "broker_wf b'" "broker_frame b b'" "upgrade_tasks b' = upgrade_tasks b"
    "inst_view b' = inst_view b \<or> (\<exists>st \<in> {''ready'', ''failed''}.
       inst_view b' = (inst_view b)(k := map_option (set_state st) (inst_view b k)))"
    using eq st wf update_instance_effect [of "b\<lparr>director := d\<rparr>" k]
    by (auto simp: check_upgrade_def Let_def counted_def broker_frame_def split: sum.splits if_splits)
qed

lemma check_upgrades_effect:
  assumes "broker_wf b" and "check_upgrades e ts n b w = (n', b', w')"
  shows "counted n' = counted n + length ts \<and> broker_wf b' \<and> broker_frame b b' \<and> upgrade_tasks b' = upgrade_tasks b
    \<and> (\<forall>k. rechecked (inst_view b k) (inst_view b' k)) \<and> (\<forall>k. k \<notin> fst ` set ts \<longrightarrow> inst_view b' k = inst_view b k)"
  using assms
proof (induction ts arbitrary: n b w)
  case Nil
  then show ?case
    by (simp add: rechecked_def)
next
  case (Cons p ts)
  obtain k t where p: "p = (k, t)"
    by fastforce
  obtain n1 b1 w1 where one: "check_upgrade e k t n b w = (n1, b1, w1)"
    by (metis prod_cases3)
  note eff = check_upgrade_effect [OF Cons.prems(1) one]
  have rest: "check_upgrades e ts n1 b1 w1 = (n', b', w')"
    using Cons.prems(2) p one by simp
  note IH = Cons.IH [OF eff(2) rest]
  have step: "rechecked (inst_view b k') (inst_view b1 k')" "k' \<noteq> k \<Longrightarrow> inst_view b1 k' = inst_view b k'" for k'
    using eff(5) by (cases "inst_view b k"; auto simp: rechecked_def simp del: inst_view_None split: if_splits)+
  have "rechecked (inst_view b k') (inst_view b' k')" for k'
    using step(1) IH rechecked_trans by blast
  moreover have "inst_view b' k' = inst_view b k'" if "k' \<notin> fst ` set (p # ts)" for k'
    using that step(2) [of k'] IH p by simp
  ultimately show ?case
    using IH eff(1,3,4) broker_frame_trans by auto
qed

lemma range_tasks_all:
  assumes "range_visits_once e" and "distinct (map fst (upgrade_tasks b))" and "range_tasks e b w = (ts, w')"
  shows "length ts = length (upgrade_tasks b)" "set ts = set (upgrade_tasks b)"
proof -
  obtain ks where ks: "mapOrder e (map fst (upgrade_tasks b)) w = (ks, w')"
    "ts = List.map_filter (\<lambda>k. map_option (Pair k) (map_of (upgrade_tasks b) k)) ks"
    using assms(3) by (auto simp: range_tasks_def split: prod.splits)
  from range_visits_onceD [OF assms(1,2) ks(1)]
  have d: "distinct ks" "set ks = fst ` set (upgrade_tasks b)"
    by simp_all
  show s: "set ts = set (upgrade_tasks b)"
    using d(2) assms(2) by (auto simp: ks(2) set_map_filter image_iff) force
  have "distinct ts"
    using d(1) by (auto simp: ks(2) List.map_filter_def distinct_map inj_on_def)
  then show "length ts = length (upgrade_tasks b)"
    using s distinct_card assms(2) by (metis distinct_map)
qed

text \<open>The two handlers, seen on the map of instances.\<close>

lemma AdminUpgrade_effect:
  assumes once: "range_visits_once e" and wf: "broker_wf b" and n: "0 < g_Count req"
    and eq: "AdminUpgrade e (Some req) b w = (resp, b', w')"
  defines "v \<equiv> c_OpenClawVersion (config b)"
  obtains rs D where "distinct rs" "set rs = snd ` set (instances b)"
    "D \<subseteq> set (take (nat (g_Count req)) (filter (\<lambda>r. outdated v (deref b r)) rs))"
    "always_accepts e b \<longrightarrow> D = set (take (nat (g_Count req)) (filter (\<lambda>r. outdated v (deref b r)) rs))"
    "resp = writeJSON 200 (Document (JObj [(''upgrading'', JInt (int (card D)))]))"
    "broker_wf b'" "broker_frame b b'"
    "\<And>k. \<nexists>r. r \<in> D \<and> lookup b k = Some r \<Longrightarrow> inst_view b' k = inst_view b k"
    "\<And>k r. lookup b k = Some r \<Longrightarrow> r \<in> D \<Longrightarrow> \<exists>t. inst_view b' k = Some (upgraded t v (heap b ! r))"
proof -
  obtain rs w1 where rs: "range_instances e b w = (rs, w1)"
    by fastforce
  note refs = range_instances_refs [OF once wf rs]
  let ?cs = "take (nat (g_Count req)) (filter (\<lambda>r. outdated v (deref b r)) rs)"
  obtain n b1 w2 where all: "upgrade_all e v ?cs 0 b w1 = (n, b1, w2)"
    by (metis prod_cases3)
  have resp: "resp = writeJSON 200 (Document (JObj [(''upgrading'', JInt n)]))" "b' = fst (saveState e b1 w2)"
    using \<open>0 < g_Count req\<close> eq rs all collect_filter [of "[]" "g_Count req" b v rs]
    by (auto simp: AdminUpgrade_def v_def split: prod.splits)
  have cs: "distinct ?cs" "\<forall>r \<in> set ?cs. r < length (heap b)"
    using refs wf_refs [OF wf] by (auto dest!: in_set_takeD)
  from upgrade_all_effect [OF all cs] obtain D where D: "D \<subseteq> set ?cs" "n = int (card D)"
    "always_accepts e b \<longrightarrow> D = set ?cs" "\<forall>s. s \<notin> D \<longrightarrow> heap b1 ! s = heap b ! s"
    "\<forall>s \<in> D. \<exists>t. heap b1 ! s = upgraded t v (heap b ! s)"
    and b1: "instances b1 = instances b" "length (heap b1) = length (heap b)" "broker_frame b b1"
    by auto
  note view = heap_change_view [OF wf b1(1,2) D(4,5)]
  show thesis
    using that [OF refs D(1,3)] resp view b1(3) D(2) by simp
qed

lemma AdminUpgradeStatus_effect:
  assumes "broker_wf b" and "AdminUpgradeStatus e b w = (resp, b', w')"
  obtains ts w1 n where "range_tasks e b w = (ts, w1)"
    "resp = writeJSON 200 (Document (upgrade_report (length (upgrade_tasks b)) n))"
    "counted n = length ts" "broker_wf b'" "broker_frame b b'"
    "\<And>k. rechecked (inst_view b k) (inst_view b' k)"
    "\<And>k. k \<notin> fst ` set ts \<Longrightarrow> inst_view b' k = inst_view b k"
proof -
  obtain ts w1 where ts: "range_tasks e b w = (ts, w1)"
    by fastforce
  let ?zero = "\<lparr>healthy = 0, failed_count = 0, inProgress = 0\<rparr>"
  obtain n b1 w2 where all: "check_upgrades e ts ?zero b w1 = (n, b1, w2)"
    by (metis prod_cases3)
  have "resp = writeJSON 200 (Document (upgrade_report (length (upgrade_tasks b)) n))"
    "b' = fst (saveState e b1 w2)"
    using assms(2) ts all by (auto simp: AdminUpgradeStatus_def split: prod.splits)
  then show thesis
    using that [OF ts] check_upgrades_effect [OF assms(1) all] by (simp add: counted_def)
qed

section \<open>Properties\<close>



text \<open>
  The upgrade report adds up: whatever the order of the loop and whatever the Director answers,
  the healthy, failed and pending upgrades it reports are together the tracked ones, the total.
  Only tracked instances change, and only to \<^verbatim>\<open>ready\<close> or \<^verbatim>\<open>failed\<close>.
\<close>

theorem AdminUpgradeStatus_adds_up:
  assumes "range_visits_once e" and "broker_wf b" and "distinct (map fst (upgrade_tasks b))"
    and "AdminUpgradeStatus e b w = (resp, b', w')"
  shows "broker_wf b' \<and> broker_frame b b' \<and>
    (\<exists>n. resp = writeJSON 200 (Document (upgrade_report (length (upgrade_tasks b)) n))
       \<and> healthy n + failed_count n + inProgress n = length (upgrade_tasks b)) \<and>
    (\<forall>k. inst_view b' k = inst_view b k \<or> (k \<in> fst ` set (upgrade_tasks b) \<and>
       (\<exists>i st. inst_view b k = Some i \<and> st \<in> {''ready'', ''failed''} \<and> inst_view b' k = Some (set_state st i))))"
proof -
  from AdminUpgradeStatus_effect [OF assms(2,4)] obtain ts w1 n where ts: "range_tasks e b w = (ts, w1)"
    and resp: "resp = writeJSON 200 (Document (upgrade_report (length (upgrade_tasks b)) n))"
    and n: "counted n = length ts" and post: "broker_wf b'" "broker_frame b b'"
    and view: "\<And>k. rechecked (inst_view b k) (inst_view b' k)"
      "\<And>k. k \<notin> fst ` set ts \<Longrightarrow> inst_view b' k = inst_view b k"
    by metis
  have "healthy n + failed_count n + inProgress n = length (upgrade_tasks b)"
    using n range_tasks_all(1) [OF assms(1,3) ts] by (simp add: counted_def)
  moreover have "inst_view b' k = inst_view b k \<or> (k \<in> fst ` set (upgrade_tasks b) \<and>
       (\<exists>i st. inst_view b k = Some i \<and> st \<in> {''ready'', ''failed''} \<and> inst_view b' k = Some (set_state st i)))" for k
    using view(1) [of k] view(2) [of k] range_tasks_all(2) [OF assms(1,3) ts]
    unfolding rechecked_def by metis
  ultimately show ?thesis
    using resp post by metis
qed

theorem AdminUpgradeStatus_adds_up_witness:
  "\<exists>n. healthy n + failed_count n + inProgress n = (1::nat) \<and>
     fst (AdminUpgradeStatus script_ext (track_upgrade ''a-1'' 7 (sample_with ''a-1'' ''provisioning'' 7))
       (script_start [json_reply 200 done_members])) = writeJSON 200 (Document (upgrade_report 1 n))"
proof -
  let ?b = "track_upgrade ''a-1'' 7 (sample_with ''a-1'' ''provisioning'' 7)"
    and ?w = "script_start [json_reply 200 done_members]"
  obtain resp b w where eq: "AdminUpgradeStatus script_ext ?b ?w = (resp, b, w)"
    by (metis prod_cases3)
  have t: "upgrade_tasks ?b = [(''a-1'', 7)]" and wf: "broker_wf ?b"
    by (simp_all add: track_upgrade_def) (simp add: sample_with_def sample_broker_def)
  have "distinct (map fst (upgrade_tasks ?b))"
    by (simp add: t)
  from AdminUpgradeStatus_adds_up [OF script_range_visits_once wf this eq] show ?thesis
    using eq by (auto simp: t)
qed

text \<open>
  Following an upgrade can bring an instance back that is being deleted: whatever the state of
  a tracked instance, a finished upgrade task makes it \<^verbatim>\<open>ready\<close>, so that a later deletion poll never
  drops it and it counts against the quotas again.
\<close>

theorem AdminUpgradeStatus_overwrites_state:
  assumes "broker_wf b" and "upgrade_tasks b = [(k, t)]" and "inst_view b k = Some i"
    and "mapOrder e [k] w = ([k], w1)" and "TaskStatus e (director b) t w1 = (Inr ''done'', d, w2)"
  shows "inst_view (fst (snd (AdminUpgradeStatus e b w))) = (inst_view b)(k \<mapsto> set_state ''ready'' i)"
proof -
  have "range_tasks e b w = ([(k, t)], w1)"
    using assms(2,4) by (simp add: range_tasks_def List.map_filter_def)
  then have "fst (snd (AdminUpgradeStatus e b w))
      = fst (saveState e (update_instance k (set_state ''ready'') (b\<lparr>director := d\<rparr>)) w2)"
    using assms(5) by (simp add: AdminUpgradeStatus_def check_upgrade_def split: prod.splits)
  then show ?thesis
    using assms(1,3) update_instance_effect(4) [of "b\<lparr>director := d\<rparr>" k "''ready''"] by simp
qed

theorem AdminUpgradeStatus_overwrites_state_witness:
  "\<exists>b. inst_view b = [''a-1'' \<mapsto> set_state ''ready'' (sample_instance ''a-1'' ''deprovisioning'' 9)]
     \<and> i_State (sample_instance ''a-1'' ''deprovisioning'' 9) = ''deprovisioning''"
proof -
  let ?b = "track_upgrade ''a-1'' 7 (sample_with ''a-1'' ''deprovisioning'' 9)"
    and ?w = "script_start [json_reply 200 done_members]"
  have t: "upgrade_tasks ?b = [(''a-1'', 7)]" and wf: "broker_wf ?b"
    by (simp_all add: track_upgrade_def) (simp add: sample_with_def sample_broker_def)
  have v: "inst_view ?b ''a-1'' = Some (sample_instance ''a-1'' ''deprovisioning'' 9)"
    by simp
  have m: "mapOrder script_ext [''a-1''] ?w = ([''a-1''], ?w)"
    by (simp add: script_ext_def)
  have "uaaURL (director ?b) = []" "urlOK script_ext (directorURL (director ?b) @ ''/tasks/'' @ itoa 7)"
    by code_simp+
  then obtain d w2 where "TaskStatus script_ext (director ?b) 7 ?w = (Inr ''done'', d, w2)"
    using script_TaskStatus_done [of "director ?b" 7] by blast
  from AdminUpgradeStatus_overwrites_state [OF wf t v m this] show ?thesis
    by (intro exI conjI) (auto simp: sample_instance_def)
qed

end
