(* ===== verification/Transition.thy ===== *)
theory Transition
  imports Main
begin

text \<open>
  The interfaces of a state machine, which the broker, its goroutines, the saves of the state file and
  the chat sessions of the gateway interpret: reachable states, invariants, and a simulation of an
  abstract relation.
\<close>

text \<open>A step relation, the states reachable from a set of states, and invariants by rule induction.\<close>

locale transition_system =
  fixes step :: "'s \<Rightarrow> 's \<Rightarrow> bool"
begin

inductive reachable :: "'s \<Rightarrow> 's \<Rightarrow> bool" for s0 where
  start: "reachable s0 s0"
| next_state: "reachable s0 s \<Longrightarrow> step s s' \<Longrightarrow> reachable s0 s'"

lemma reachable_rtranclp: "step\<^sup>*\<^sup>* s0 s \<Longrightarrow> reachable s0 s"
  by (induction rule: rtranclp_induct) (auto intro: reachable.intros)

end

locale invariant_system = transition_system step
  for step :: "'s \<Rightarrow> 's \<Rightarrow> bool" +
  fixes inv :: "'s \<Rightarrow> bool"
  assumes inv_step: "inv s \<Longrightarrow> step s s' \<Longrightarrow> inv s'"
begin

lemma inv_reachable: "reachable s0 s \<Longrightarrow> inv s0 \<Longrightarrow> inv s"
  by (induction rule: reachable.induct) (auto intro: inv_step)

lemmas inv_run = inv_reachable [OF reachable_rtranclp]

end

text \<open>A system in which every part of the state moves along an abstract relation.\<close>

locale simulation_system = invariant_system step inv
  for step :: "'s \<Rightarrow> 's \<Rightarrow> bool" and inv :: "'s \<Rightarrow> bool" +
  fixes abs :: "'k \<Rightarrow> 's \<Rightarrow> 'a" and astep :: "'a \<Rightarrow> 'a \<Rightarrow> bool"
  assumes simulates: "inv s \<Longrightarrow> step s s' \<Longrightarrow> abs k s = abs k s' \<or> astep (abs k s) (abs k s')"
begin

lemma simulates_reachable:
  assumes "reachable s0 s" and "inv s0" and "step s s'"
  shows "inv s \<and> inv s' \<and> (abs k s = abs k s' \<or> astep (abs k s) (abs k s'))"
  using inv_reachable [OF assms(1,2)] inv_step simulates assms(3) by blast

lemmas simulates_run = simulates_reachable [OF reachable_rtranclp]

end

end
