(* ===== verification/Lifecycle.thy ===== *)
theory Lifecycle
  imports Admin Transition
begin

text \<open>
  The broker as a state machine: \<open>serve\<close> dispatches a request to its handler, a run is a sequence of
  requests served one after the other, each in a world of its own choosing, so that nothing is
  assumed of what the Director, the UAA, the clock and the file system do in between. The abstract
  machine is the life of one instance, a relation on phases; every request moves every instance
  along it.
\<close>

section \<open>Serving requests\<close>

datatype request =
    ReqProvision instance_id string "ProvisionRequest option"
  | ReqDeprovision instance_id string
  | ReqUpdate instance_id string "UpdateRequest option"
  | ReqLastOperation instance_id
  | ReqBind instance_id
  | ReqUnbind
  | ReqCatalog
  | ReqListInstances
  | ReqUpgrade "UpgradeRequest option"
  | ReqUpgradeStatus

fun serve :: "('w, 'e) ext_scheme \<Rightarrow> request \<Rightarrow> Broker \<Rightarrow> 'w \<Rightarrow> response \<times> Broker \<times> 'w" where
  "serve e (ReqProvision k acc body) b w = Provision e k acc body b w"
| "serve e (ReqDeprovision k acc) b w = Deprovision e k acc b w"
| "serve e (ReqUpdate k acc body) b w = Update e k acc body b w"
| "serve e (ReqLastOperation k) b w = LastOperation e k b w"
| "serve e (ReqBind k) b w = (Bind k b, b, w)"
| "serve e ReqUnbind b w = (Unbind, b, w)"
| "serve e ReqCatalog b w = (Catalog b, b, w)"
| "serve e ReqListInstances b w = (case AdminListInstances e b w of (resp, w) \<Rightarrow> (resp, b, w))"
| "serve e (ReqUpgrade body) b w = AdminUpgrade e body b w"
| "serve e ReqUpgradeStatus b w = AdminUpgradeStatus e b w"

inductive serves :: "('w, 'e) ext_scheme \<Rightarrow> request \<Rightarrow> Broker \<Rightarrow> Broker \<Rightarrow> bool" for e req where
  "serve e req b w = (resp, b', w') \<Longrightarrow> serves e req b b'"

inductive_cases servesE: "serves e req b b'"

text \<open>A served request, and one that is served in an environment that visits maps once.\<close>

definition broker_step :: "('w, 'e) ext_scheme \<Rightarrow> Broker \<Rightarrow> Broker \<Rightarrow> bool" where
  "broker_step e b b' \<longleftrightarrow> range_visits_once e \<and> (\<exists>req. serves e req b b')"

section \<open>The life of an instance\<close>

datatype phase = Absent | Provisioning | Ready | Failed | Deprovisioning | Unknown

definition phase_of :: "Instance option \<Rightarrow> phase" where
  "phase_of x = (case x of None \<Rightarrow> Absent | Some i \<Rightarrow>
     if i_State i = ''provisioning'' then Provisioning
     else if i_State i = ''ready'' then Ready
     else if i_State i = ''failed'' then Failed
     else if i_State i = ''deprovisioning'' then Deprovisioning
     else Unknown)"

inductive life :: "phase \<Rightarrow> phase \<Rightarrow> bool" where
  created: "life Absent Provisioning"
| orphan: "life Absent Deprovisioning"
| deployed: "life p Ready" if "p \<noteq> Absent"
| broken: "life p Failed" if "p \<noteq> Absent"
| redeployed: "life p Provisioning" if "p \<noteq> Absent"
| deleting: "life p Deprovisioning" if "p \<noteq> Absent"
| deleted: "life Deprovisioning Absent"

inductive_simps life_from_Absent: "life Absent p"
inductive_simps life_to_Absent: "life p Absent"

code_pred life .

section \<open>Every request moves every instance along its life\<close>

definition lives :: "Broker \<Rightarrow> Broker \<Rightarrow> bool" where
  "lives b b' \<longleftrightarrow> broker_wf b' \<and> broker_frame b b' \<and>
     (\<forall>k. phase_of (inst_view b k) = phase_of (inst_view b' k)
        \<or> life (phase_of (inst_view b k)) (phase_of (inst_view b' k)))"

lemma phase_of_simps [simp]:
  "phase_of None = Absent"
  "phase_of (Some (set_state ''provisioning'' i)) = Provisioning"
  "phase_of (Some (set_state ''ready'' i)) = Ready"
  "phase_of (Some (set_state ''failed'' i)) = Failed"
  "phase_of (Some (set_state ''deprovisioning'' i)) = Deprovisioning"
  "phase_of (Some (set_task t i)) = phase_of (Some i)"
  "phase_of (Some (redeployed t i)) = Provisioning"
  "phase_of (Some (upgraded t v i)) = Provisioning"
  "phase_of (Some (set_plan pid plan i)) = phase_of (Some i)"
  "phase_of (Some (orphan_instance k)) = Deprovisioning"
  "phase_of (Some (recoveredInstance e c k plan tb sb)) = Provisioning"
  by (simp_all add: phase_of_def upgraded_def set_plan_def orphan_instance_def)

lemma phase_of_Some: "phase_of (Some i) \<noteq> Absent"
  by (simp add: phase_of_def)

lemma lives_update:
  assumes "broker_wf b'" and "broker_frame b b'" and "inst_view b' = (inst_view b)(k := x)"
    and "phase_of (inst_view b k) = phase_of x \<or> life (phase_of (inst_view b k)) (phase_of x)"
  shows "lives b b'"
  using assms by (simp add: lives_def)

lemma lives_same: "broker_wf b' \<Longrightarrow> broker_frame b b' \<Longrightarrow> inst_view b' = inst_view b \<Longrightarrow> lives b b'"
  by (simp add: lives_def)

lemma Provision_lives:
  assumes "broker_wf b" and "Provision e k acc body b w = (resp, b', w')"
  shows "lives b b'"
  using assms
proof (cases rule: Provision_effect)
  case refused
  then show ?thesis
    by (intro lives_same)
next
  case (accepted req plan tb sb j t)
  have "phase_of (Some j) = Provisioning" "inst_view b k = None"
    using accepted(4) same_but_sso_fields(3) [OF accepted(5)]
    by (simp_all add: phase_of_def provision_admitted_def)
  then show ?thesis
    using lives_update [OF accepted(8,9,7)] life.created by (simp del: inst_view_None)
qed

lemma Deprovision_lives:
  assumes "broker_wf b" and "Deprovision e k acc b w = (resp, b', w')"
  shows "lives b b'"
  using assms
proof (cases rule: Deprovision_effect)
  case (orphan t)
  then show ?thesis
    using lives_update [OF orphan(3-5)] life.orphan by (simp del: inst_view_None)
next
  case (deleting i t)
  then show ?thesis
    using lives_update [OF deleting(4-6)] life.deleting [OF phase_of_Some] by simp
qed (use assms(1) in \<open>simp_all add: lives_same\<close>)

lemma Update_lives:
  assumes "broker_wf b" and "Update e k acc body b w = (resp, b', w')"
  shows "lives b b'"
  using assms
proof (cases rule: Update_effect)
  case refused
  then show ?thesis
    using assms(1) by (simp add: lives_same)
next
  case (failed req i)
  show ?thesis
    using failed(3) life.created
    by (intro lives_update [OF failed(5,6,4)], cases "inst_view b k")
      (auto simp: update_target_def simp del: inst_view_None split: if_splits)
next
  case (accepted req i t)
  show ?thesis
    using life.created life.redeployed [OF phase_of_Some]
    by (intro lives_update [OF accepted(5,6,4)], cases "inst_view b k") (simp_all del: inst_view_None)
qed

lemma LastOperation_lives:
  assumes "broker_wf b" and "LastOperation e k b w = (resp, b', w')"
  shows "lives b b'"
proof (cases "inst_view b k")
  case None
  then show ?thesis
    using LastOperation_spec [OF assms] assms(1) by (auto simp: lives_same simp del: inst_view_None)
next
  case (Some i)
  let ?t = "map_option (task_state e (director b) w) (task_of i)"
  have "phase_of (Some i) = phase_of (settled ?t i) \<or> life (phase_of (Some i)) (phase_of (settled ?t i))"
    using life.deployed life.broken life.deleted by (auto simp: settled_def phase_of_def set_state_def)
  then show ?thesis
    using LastOperation_spec [OF assms] Some lives_update by simp
qed

lemma AdminUpgrade_lives:
  assumes "range_visits_once e" and "broker_wf b" and "AdminUpgrade e body b w = (resp, b', w')"
  shows "lives b b'"
proof (cases "\<exists>req. body = Some req \<and> 0 < g_Count req")
  case False
  then have "b' = b"
    using assms(3) by (auto simp: AdminUpgrade_def split: option.splits if_splits)
  then show ?thesis
    using assms(2) by (simp add: lives_same)
next
  case True
  then obtain req where req: "0 < g_Count req" "AdminUpgrade e (Some req) b w = (resp, b', w')"
    using assms(3) by blast
  from AdminUpgrade_effect [OF assms(1,2) req] obtain D where post: "broker_wf b'" "broker_frame b b'"
    and view: "\<And>k. \<nexists>r. r \<in> D \<and> lookup b k = Some r \<Longrightarrow> inst_view b' k = inst_view b k"
      "\<And>k r. lookup b k = Some r \<Longrightarrow> r \<in> D \<Longrightarrow>
         \<exists>t. inst_view b' k = Some (upgraded t (c_OpenClawVersion (config b)) (heap b ! r))"
    by metis
  have "phase_of (inst_view b k) = phase_of (inst_view b' k)
      \<or> life (phase_of (inst_view b k)) (phase_of (inst_view b' k))" for k
  proof (cases "\<exists>r. r \<in> D \<and> lookup b k = Some r")
    case True
    then obtain r where r: "r \<in> D" "lookup b k = Some r"
      by blast
    then show ?thesis
      using view(2) [OF r(2,1)] life.redeployed [OF phase_of_Some] by (auto simp: inst_view_def deref_def)
  qed (simp add: view(1))
  then show ?thesis
    using post by (simp add: lives_def)
qed

lemma AdminUpgradeStatus_lives:
  assumes "broker_wf b" and "AdminUpgradeStatus e b w = (resp, b', w')"
  shows "lives b b'"
proof -
  from AdminUpgradeStatus_effect [OF assms] have post: "broker_wf b'" "broker_frame b b'"
    and view: "rechecked (inst_view b k) (inst_view b' k)" for k
    by metis+
  have "phase_of (inst_view b k) = phase_of (inst_view b' k)
      \<or> life (phase_of (inst_view b k)) (phase_of (inst_view b' k))" for k
    using view [of k] life.deployed [OF phase_of_Some] life.broken [OF phase_of_Some]
    by (auto simp: rechecked_def)
  then show ?thesis
    using post by (simp add: lives_def)
qed

lemma serve_lives:
  assumes "range_visits_once e" and "broker_wf b" and "serve e req b w = (resp, b', w')"
  shows "lives b b'"
  using assms
  by (cases req) (auto simp: Provision_lives Deprovision_lives Update_lives LastOperation_lives
      AdminUpgrade_lives AdminUpgradeStatus_lives lives_same split: prod.splits)

text \<open>The invariant of the running broker, and the machine it is.\<close>

definition broker_inv :: "Broker \<Rightarrow> bool" where
  "broker_inv b \<longleftrightarrow> broker_wf b \<and> distinct (map fst (upgrade_tasks b))
     \<and> (\<forall>k. phase_of (inst_view b k) \<noteq> Unknown)"

lemma life_known: "life p q \<Longrightarrow> q \<noteq> Unknown"
  by (cases rule: life.cases) auto

lemma lives_inv: "lives b b' \<Longrightarrow> broker_inv b \<Longrightarrow> broker_inv b'"
  unfolding lives_def broker_inv_def broker_frame_def using life_known by metis

interpretation machine: simulation_system "broker_step e" broker_inv "\<lambda>k b. phase_of (inst_view b k)" life
  for e :: "('w, 'e) ext_scheme"
proof unfold_locales
  fix b b' assume "broker_inv b" "broker_step e b b'"
  then have l: "lives b b'"
    by (auto simp: broker_step_def broker_inv_def elim!: servesE intro: serve_lives)
  show "broker_inv b'"
    using lives_inv [OF l] \<open>broker_inv b\<close> .
  show "phase_of (inst_view b k) = phase_of (inst_view b' k)
      \<or> life (phase_of (inst_view b k)) (phase_of (inst_view b' k))" for k
    using l by (simp add: lives_def)
qed

section \<open>What stays with an instance\<close>

text \<open>The part of a record that no request changes while the instance is known.\<close>

definition identity_of :: "Instance \<Rightarrow> string list \<times> bool" where
  "identity_of i = ([i_ID i, i_DeploymentName i, i_Owner i, i_OrgGUID i, i_SpaceGUID i, i_GatewayToken i,
     i_NodeSeed i, i_RouteHostname i, i_AppsDomain i, i_SSOClientID i, i_SSOClientSecret i,
     i_SSOCookieSecret i], i_SSOEnabled i)"

lemma identity_of_simps [simp]:
  "identity_of (set_state st i) = identity_of i" "identity_of (set_task t i) = identity_of i"
  "identity_of (redeployed t i) = identity_of i" "identity_of (upgraded t v i) = identity_of i"
  "identity_of (set_plan pid plan i) = identity_of i"
  by (simp_all add: identity_of_def set_state_def set_task_def redeployed_def upgraded_def set_plan_def)

text \<open>Every known instance keeps its identity, unless \<open>gone\<close> allows it to go.\<close>

definition keeps :: "(instance_id \<Rightarrow> Instance \<Rightarrow> bool) \<Rightarrow> Broker \<Rightarrow> Broker \<Rightarrow> bool" where
  "keeps gone b b' \<longleftrightarrow> (\<forall>k i. inst_view b k = Some i \<longrightarrow>
     (case inst_view b' k of None \<Rightarrow> gone k i | Some j \<Rightarrow> identity_of j = identity_of i))"

lemma keeps_same: "inst_view b' = inst_view b \<Longrightarrow> keeps gone b b'"
  by (simp add: keeps_def)

lemma keeps_update:
  assumes "inst_view b' = (inst_view b)(k := x)"
    and "\<And>i. inst_view b k = Some i \<Longrightarrow> (case x of None \<Rightarrow> gone k i | Some j \<Rightarrow> identity_of j = identity_of i)"
  shows "keeps gone b b'"
  using assms by (auto simp: keeps_def)

lemma Provision_keeps:
  assumes "broker_wf b" and "Provision e k acc body b w = (resp, b', w')"
  shows "keeps gone b b'"
  using assms
proof (cases rule: Provision_effect)
  case (accepted req plan tb sb j t)
  have "inst_view b k = None"
    using accepted(4) by (simp add: provision_admitted_def)
  then show ?thesis
    using keeps_update [OF accepted(7)] by (simp del: inst_view_None)
qed (rule keeps_same)

lemma Deprovision_keeps:
  assumes "broker_wf b" and "Deprovision e k acc b w = (resp, b', w')"
  shows "keeps gone b b'"
  using assms
proof (cases rule: Deprovision_effect)
  case (orphan t)
  then show ?thesis
    using keeps_update [OF orphan(5)] by (simp del: inst_view_None)
next
  case (deleting i t)
  then show ?thesis
    using keeps_update [OF deleting(6)] by simp
qed (simp_all add: keeps_same)

lemma update_target_identity:
  "update_target e b k req i \<Longrightarrow> inst_view b k = Some j \<Longrightarrow> identity_of i = identity_of j"
  by (auto simp: update_target_def split: if_splits)

lemma Update_keeps:
  assumes "broker_wf b" and "Update e k acc body b w = (resp, b', w')"
  shows "keeps gone b b'"
  using assms
proof (cases rule: Update_effect)
  case (failed req i)
  then show ?thesis
    using keeps_update [OF failed(4)] update_target_identity [OF failed(3)] by simp
next
  case (accepted req i t)
  then show ?thesis
    using keeps_update [OF accepted(4)] update_target_identity [OF accepted(3)] by simp
qed (simp add: keeps_same)

text \<open>A poll drops the instance it is about when its deletion is done.\<close>

definition deletion_done :: "('w, 'e) ext_scheme \<Rightarrow> Broker \<Rightarrow> 'w \<Rightarrow> Instance \<Rightarrow> bool" where
  "deletion_done e b w i \<longleftrightarrow> i_State i = ''deprovisioning'' \<and> i_BoshTaskID i \<noteq> 0
     \<and> task_state e (director b) w (i_BoshTaskID i) = ''done''"

lemma LastOperation_keeps:
  assumes "broker_wf b" and "LastOperation e k b w = (resp, b', w')"
  shows "keeps (\<lambda>k' i. k' = k \<and> deletion_done e b w i) b b'"
proof (cases "inst_view b k")
  case None
  then show ?thesis
    using LastOperation_spec [OF assms] by (simp add: keeps_same del: inst_view_None)
next
  case (Some i)
  let ?t = "map_option (task_state e (director b) w) (task_of i)"
  have "inst_view b' = (inst_view b)(k := settled ?t i)"
    using LastOperation_spec [OF assms] Some by simp
  moreover have "case settled ?t i of None \<Rightarrow> k = k \<and> deletion_done e b w i | Some j \<Rightarrow> identity_of j = identity_of i"
    by (auto simp: settled_def deletion_done_def task_of_def split: if_splits)
  ultimately show ?thesis
    using keeps_update [of b' b k "settled ?t i"] Some by simp
qed

lemma AdminUpgrade_keeps:
  assumes "range_visits_once e" and "broker_wf b" and "AdminUpgrade e body b w = (resp, b', w')"
  shows "keeps gone b b'"
proof (cases "\<exists>req. body = Some req \<and> 0 < g_Count req")
  case False
  then have "b' = b"
    using assms(3) by (auto simp: AdminUpgrade_def split: option.splits if_splits)
  then show ?thesis
    by (simp add: keeps_same)
next
  case True
  then obtain req where req: "0 < g_Count req" "AdminUpgrade e (Some req) b w = (resp, b', w')"
    using assms(3) by blast
  from AdminUpgrade_effect [OF assms(1,2) req] obtain D where
    view: "\<And>k. \<nexists>r. r \<in> D \<and> lookup b k = Some r \<Longrightarrow> inst_view b' k = inst_view b k"
      "\<And>k r. lookup b k = Some r \<Longrightarrow> r \<in> D \<Longrightarrow>
         \<exists>t. inst_view b' k = Some (upgraded t (c_OpenClawVersion (config b)) (heap b ! r))"
    by metis
  have "\<exists>j. inst_view b' k = Some j \<and> identity_of j = identity_of i" if i: "inst_view b k = Some i" for k i
  proof (cases "\<exists>r. r \<in> D \<and> lookup b k = Some r")
    case True
    then obtain r where r: "r \<in> D" "lookup b k = Some r"
      by blast
    then show ?thesis
      using view(2) [OF r(2,1)] i by (auto simp: inst_view_def deref_def)
  qed (simp add: view(1) i)
  then show ?thesis
    by (fastforce simp: keeps_def)
qed

lemma AdminUpgradeStatus_keeps:
  assumes "broker_wf b" and "AdminUpgradeStatus e b w = (resp, b', w')"
  shows "keeps gone b b'"
proof -
  from AdminUpgradeStatus_effect [OF assms] have view: "rechecked (inst_view b k) (inst_view b' k)" for k
    by metis
  have "\<exists>j. inst_view b' k = Some j \<and> identity_of j = identity_of i" if i: "inst_view b k = Some i" for k i
    using view [of k] i by (auto simp: rechecked_def)
  then show ?thesis
    by (fastforce simp: keeps_def)
qed

lemma serve_keeps:
  assumes "range_visits_once e" and "broker_wf b" and "serve e req b w = (resp, b', w')"
  shows "keeps (\<lambda>k i. req = ReqLastOperation k \<and> deletion_done e b w i) b b'"
proof (cases req)
  case (ReqLastOperation k)
  then show ?thesis
    using LastOperation_keeps [of b e k w resp b' w'] assms(2,3) by (simp add: eq_commute)
qed (use assms in \<open>auto simp: Provision_keeps Deprovision_keeps Update_keeps AdminUpgrade_keeps
    AdminUpgradeStatus_keeps keeps_same split: prod.splits\<close>)

section \<open>Quotas\<close>

text \<open>Requests that make no instance count that did not count before, in the same organisation.\<close>

definition calm :: "Broker \<Rightarrow> Broker \<Rightarrow> bool" where
  "calm b b' \<longleftrightarrow> (\<forall>k j. inst_view b' k = Some j \<longrightarrow> active j \<longrightarrow>
     (\<exists>i. inst_view b k = Some i \<and> active i \<and> i_OrgGUID i = i_OrgGUID j))"

lemma calm_same: "inst_view b' = inst_view b \<Longrightarrow> calm b b'"
  by (simp add: calm_def)

lemma calm_update:
  assumes "inst_view b' = (inst_view b)(k := x)"
    and "\<And>j. x = Some j \<Longrightarrow> active j \<Longrightarrow> \<exists>i. inst_view b k = Some i \<and> active i \<and> i_OrgGUID i = i_OrgGUID j"
  shows "calm b b'"
  using assms by (auto simp: calm_def)

lemma calm_counts:
  assumes "broker_wf b" "broker_wf b'" "calm b b'"
  shows "countInstances b' \<le> countInstances b" "countInstancesByOrg b' org \<le> countInstancesByOrg b org"
proof -
  show "countInstances b' \<le> countInstances b"
    unfolding countInstances_tally [OF assms(1)] countInstances_tally [OF assms(2)]
    by (rule store.tally_view_le [OF assms(1)]) (use assms(3) in \<open>auto simp: calm_def\<close>)
  show "countInstancesByOrg b' org \<le> countInstancesByOrg b org"
    unfolding countInstancesByOrg_tally [OF assms(1)] countInstancesByOrg_tally [OF assms(2)]
    by (rule store.tally_view_le [OF assms(1)]) (use assms(3) in \<open>fastforce simp: calm_def\<close>)
qed

lemma Deprovision_calm:
  assumes "broker_wf b" and "Deprovision e k acc b w = (resp, b', w')"
  shows "calm b b'"
  using assms
proof (cases rule: Deprovision_effect)
  case (orphan t)
  show ?thesis
    by (rule calm_update [OF orphan(5)]) (auto simp: active_def orphan_instance_def)
next
  case (deleting i t)
  show ?thesis
    by (rule calm_update [OF deleting(6)]) (auto simp: active_def)
qed (simp_all add: calm_same)

lemma LastOperation_calm:
  assumes "broker_wf b" and "LastOperation e k b w = (resp, b', w')"
  shows "calm b b'"
proof (cases "inst_view b k")
  case None
  then show ?thesis
    using LastOperation_spec [OF assms] by (simp add: calm_same del: inst_view_None)
next
  case (Some i)
  let ?t = "map_option (task_state e (director b) w) (task_of i)"
  have "inst_view b' = (inst_view b)(k := settled ?t i)"
    using LastOperation_spec [OF assms] Some by simp
  then show ?thesis
    by (rule calm_update) (auto simp: Some settled_def active_def split: if_splits)
qed

lemma AdminUpgrade_calm:
  assumes "range_visits_once e" and "broker_wf b" and "AdminUpgrade e body b w = (resp, b', w')"
  shows "calm b b'"
proof (cases "\<exists>req. body = Some req \<and> 0 < g_Count req")
  case False
  then have "b' = b"
    using assms(3) by (auto simp: AdminUpgrade_def split: option.splits if_splits)
  then show ?thesis
    by (simp add: calm_same)
next
  case True
  then obtain req where req: "0 < g_Count req" "AdminUpgrade e (Some req) b w = (resp, b', w')"
    using assms(3) by blast
  let ?v = "c_OpenClawVersion (config b)"
  from AdminUpgrade_effect [OF assms(1,2) req] obtain D rs where
    D: "D \<subseteq> set (take (nat (g_Count req)) (filter (\<lambda>r. outdated ?v (deref b r)) rs))" and
    view: "\<And>k. \<nexists>r. r \<in> D \<and> lookup b k = Some r \<Longrightarrow> inst_view b' k = inst_view b k"
      "\<And>k r. lookup b k = Some r \<Longrightarrow> r \<in> D \<Longrightarrow> \<exists>t. inst_view b' k = Some (upgraded t ?v (heap b ! r))"
    by metis
  have "\<exists>i. inst_view b k = Some i \<and> active i \<and> i_OrgGUID i = i_OrgGUID j"
    if j: "inst_view b' k = Some j" "active j" for k j
  proof (cases "\<exists>r. r \<in> D \<and> lookup b k = Some r")
    case True
    then obtain r where r: "r \<in> D" "lookup b k = Some r"
      by blast
    then have "active (heap b ! r)"
      using D by (auto simp: outdated_def deref_def dest!: in_set_takeD subsetD)
    then show ?thesis
      using view(2) [OF r(2,1)] j(1) r(2) by (auto simp: inst_view_def deref_def upgraded_def)
  qed (use j view(1) in auto)
  then show ?thesis
    by (simp add: calm_def)
qed

text \<open>The requests that respect the quotas, and the invariant they keep.\<close>

fun quota_safe :: "request \<Rightarrow> bool" where
  "quota_safe (ReqUpdate _ _ _) = False"
| "quota_safe ReqUpgradeStatus = False"
| "quota_safe _ = True"

definition quota_inv :: "Broker \<Rightarrow> bool" where
  "quota_inv b \<longleftrightarrow> broker_wf b
     \<and> (c_MaxInstances (config b) > 0 \<longrightarrow> int (countInstances b) \<le> c_MaxInstances (config b))
     \<and> (c_MaxInstancesPerOrg (config b) > 0 \<longrightarrow>
          (\<forall>org. int (countInstancesByOrg b org) \<le> c_MaxInstancesPerOrg (config b)))"

lemma calm_quota:
  assumes "quota_inv b" and "lives b b'" and "calm b b'"
  shows "quota_inv b'"
proof -
  have wf: "broker_wf b" "broker_wf b'" and c: "config b' = config b"
    using assms(1,2) by (simp_all add: quota_inv_def lives_def broker_frame_def)
  show ?thesis
    using assms(1) calm_counts [OF wf assms(3)] wf(2) unfolding quota_inv_def c
    by (meson of_nat_mono order_trans)
qed

lemma Provision_quota:
  assumes "quota_inv b" and "Provision e k acc body b w = (resp, b', w')"
  shows "quota_inv b'"
proof -
  have wf: "broker_wf b"
    using assms(1) by (simp add: quota_inv_def)
  note l = Provision_lives [OF wf assms(2)]
  from wf assms(2) show ?thesis
  proof (cases rule: Provision_effect)
    case refused
    then show ?thesis
      using calm_quota [OF assms(1) l calm_same] by simp
  next
    case (accepted req plan tb sb j t)
    let ?i = "set_task t j"
    have i: "active ?i" "i_OrgGUID ?i = q_OrganizationGUID req"
      using accepted(2) same_but_sso_fields [OF accepted(5)] by (simp_all add: active_def)
    have "inst_view b k = None"
      using accepted(4) by (simp add: provision_admitted_def)
    note t = store.tally_view_ins [OF wf this accepted(7)]
    have "countInstances b' = Suc (countInstances b)"
      "countInstancesByOrg b' org = countInstancesByOrg b org + (if org = q_OrganizationGUID req then 1 else 0)" for org
      using t i by (auto simp: countInstances_tally countInstancesByOrg_tally wf accepted(8))
    then show ?thesis
      using assms(1) accepted(4,8,9) by (auto simp: quota_inv_def provision_admitted_def broker_frame_def)
  qed
qed

lemma serve_quota:
  assumes "range_visits_once e" and "quota_inv b" and "serve e req b w = (resp, b', w')" and "quota_safe req"
  shows "quota_inv b'"
proof -
  have wf: "broker_wf b"
    using assms(2) by (simp add: quota_inv_def)
  note l = serve_lives [OF assms(1) wf assms(3)]
  show ?thesis
  proof (cases req)
    case (ReqProvision k acc body)
    then show ?thesis
      using Provision_quota [OF assms(2)] assms(3) by simp
  qed (use assms(3,4) calm_quota [OF assms(2) l] in \<open>auto simp: calm_same split: prod.splits
      dest: Deprovision_calm [OF wf] LastOperation_calm [OF wf] AdminUpgrade_calm [OF assms(1) wf]\<close>)
qed

definition quota_step :: "('w, 'e) ext_scheme \<Rightarrow> Broker \<Rightarrow> Broker \<Rightarrow> bool" where
  "quota_step e b b' \<longleftrightarrow> range_visits_once e \<and> (\<exists>req. quota_safe req \<and> serves e req b b')"

interpretation quota: invariant_system "quota_step e" quota_inv for e :: "('w, 'e) ext_scheme"
  by unfold_locales (auto simp: quota_step_def elim!: servesE intro: serve_quota)

section \<open>Properties\<close>

text \<open>
  C1. The broker refines the life of its instances. Whatever requests are served, in whatever
  environments, a broker that started without instances keeps its invariant (distinct identifiers,
  every record under its own identifier and deployment name, states among the four the source
  names), and each request moves every instance by at most one step of its life: an instance begins
  with provisioning or with the deletion of an unknown deployment, and it is gone again only from
  being deleted.
\<close>

theorem broker_refines_life:
  assumes "broker_wf b0" and "inst_view b0 = Map.empty" and "upgrade_tasks b0 = []"
    and "(broker_step e)\<^sup>*\<^sup>* b0 b" and "broker_step e b b'"
  shows "broker_inv b \<and> broker_inv b' \<and> (phase_of (inst_view b k) = phase_of (inst_view b' k)
    \<or> life (phase_of (inst_view b k)) (phase_of (inst_view b' k)))"
proof -
  have "broker_inv b0"
    using assms(1-3) by (simp add: broker_inv_def)
  then show ?thesis
    using machine.simulates_run [OF assms(4) _ assms(5)] by blast
qed

text \<open>A run of the sample broker: a provisioning request, accepted by the Director.\<close>

lemma accepting_range_visits_once: "range_visits_once accepting_ext"
  by (simp add: range_visits_once_def accepting_ext_def script_ext_def)

lemma sample_run:
  obtains b where "broker_step accepting_ext sample_broker b" "quota_step accepting_ext sample_broker b"
    "phase_of (inst_view b ''inst-1'') = Provisioning"
proof -
  obtain resp b w where eq: "Provision accepting_ext ''inst-1'' ''true'' (Some sample_request) sample_broker
      (script_start []) = (resp, b, w)" and st: "status resp = 202"
    by (rule sample_provisioned)
  have s: "serves accepting_ext (ReqProvision ''inst-1'' ''true'' (Some sample_request)) sample_broker b"
    using eq by (intro serves.intros) simp
  from sample_broker_wf eq have "phase_of (inst_view b ''inst-1'') = Provisioning"
  proof (cases rule: Provision_effect)
    case (accepted req plan tb sb j t)
    then show ?thesis
      using same_but_sso_fields(3) [OF accepted(5)] by (simp add: phase_of_def)
  qed (use st in auto)
  moreover have "broker_step accepting_ext sample_broker b"
    using s accepting_range_visits_once by (auto simp: broker_step_def)
  moreover have "quota_step accepting_ext sample_broker b"
    unfolding quota_step_def using s accepting_range_visits_once
    by (intro conjI exI [of _ "ReqProvision ''inst-1'' ''true'' (Some sample_request)"]) simp_all
  ultimately show thesis
    using that by blast
qed

theorem broker_refines_life_witness:
  "\<exists>b. broker_inv b \<and> phase_of (inst_view b ''inst-1'') = Provisioning \<and> life Absent Provisioning"
proof -
  obtain b where b: "broker_step accepting_ext sample_broker b" "phase_of (inst_view b ''inst-1'') = Provisioning"
    by (rule sample_run)
  have "upgrade_tasks sample_broker = []"
    by (simp add: sample_broker_def)
  from broker_refines_life [OF sample_broker_wf sample_broker_view(1) this rtranclp.rtrancl_refl b(1), of "''inst-1''"] show ?thesis
    using b(2) by (auto simp: sample_broker_view)
qed

text \<open>
  C8. No request loses an instance or changes who it is: a known instance keeps identifier,
  deployment, owner, organisation, space, host name, token, node seed and OAuth client through every
  request, and its record goes in one case only, a poll for that instance that finds the task of its
  deletion done.
\<close>

theorem serve_keeps_identity:
  assumes "range_visits_once e" and "broker_wf b" and "serve e req b w = (resp, b', w')"
    and "inst_view b k = Some i"
  shows "(\<exists>j. inst_view b' k = Some j \<and> identity_of j = identity_of i) \<or>
    (inst_view b' k = None \<and> req = ReqLastOperation k \<and> i_State i = ''deprovisioning'' \<and> i_BoshTaskID i \<noteq> 0
      \<and> task_state e (director b) w (i_BoshTaskID i) = ''done'')"
  using serve_keeps [OF assms(1-3), unfolded keeps_def, rule_format, OF assms(4)]
  by (cases "inst_view b' k") (simp_all add: deletion_done_def del: inst_view_None)

theorem serve_keeps_identity_witness:
  "\<exists>b j. inst_view b ''a-1'' = Some j \<and> identity_of j = identity_of (sample_instance ''a-1'' ''ready'' 3)"
proof -
  let ?b = "sample_with ''a-1'' ''ready'' 3"
  obtain resp b w where eq: "serve accepting_ext (ReqDeprovision ''a-1'' ''true'') ?b (script_start []) = (resp, b, w)"
    by (metis prod_cases3)
  have "inst_view ?b ''a-1'' = Some (sample_instance ''a-1'' ''ready'' 3)"
    by simp
  from serve_keeps_identity [OF accepting_range_visits_once sample_with_props(1) eq this] show ?thesis
    by auto
qed

text \<open>
  C5. The quotas are an invariant of every run of requests other than updates and upgrade polls:
  with a limit set and respected at the start, the number of instances not being deleted, in all and
  in each organisation, never exceeds it.
\<close>

theorem quota_invariant:
  assumes "quota_inv b0" and "(quota_step e)\<^sup>*\<^sup>* b0 b"
  shows "quota_inv b"
  using quota.inv_run [OF assms(2,1)] .

theorem quota_invariant_witness:
  "\<exists>b. quota_inv b \<and> phase_of (inst_view b ''inst-1'') = Provisioning"
proof -
  obtain b where b: "quota_step accepting_ext sample_broker b" "phase_of (inst_view b ''inst-1'') = Provisioning"
    by (rule sample_run)
  have "countInstances sample_broker = 0" "countInstancesByOrg sample_broker org = 0" for org
    by (simp_all add: countInstances_def countInstancesByOrg_def sample_broker_def)
  then have "quota_inv sample_broker"
    using sample_broker_wf by (simp add: quota_inv_def)
  then show ?thesis
    using quota_invariant [OF _ r_into_rtranclp [of "quota_step accepting_ext", OF b(1)]] b(2) by blast
qed

lemma sample_recovery_fails:
  "status (fst (Update offline_ext ''x'' ''true'' (Some sample_update) sample_broker (script_start []))) = 500"
proof -
  have "\<exists>r b1 w1. Update_prepare offline_ext ''x'' sample_update sample_broker (script_start []) = (Inr r, b1, w1)"
    by (simp add: Update_prepare_def sample_broker_view recovery_plan_def sample_update_def sample_plan
        split_def Let_def)
  moreover have "uaaURL (director sample_broker) = []"
    by code_simp
  ultimately show ?thesis
    using Update_status(2) [OF sample_broker_wf] offline_director_refuses by metis
qed

text \<open>
  Updates are outside the quotas: an update of an instance the broker does not know adds an
  instance, whatever the limits and whether or not its deployment is accepted, and the instance
  belongs to no organisation.
\<close>

theorem Update_recovery_ignores_quota:
  assumes "broker_wf b" and "inst_view b k = None"
    and "Update e k acc (Some req) b w = (resp, b', w')" and "status resp \<in> {202, 500}"
  shows "countInstances b' = Suc (countInstances b) \<and>
    (\<forall>org. org \<noteq> [] \<longrightarrow> countInstancesByOrg b' org = countInstancesByOrg b org)"
proof -
  obtain i where i: "broker_wf b'" "inst_view b' = (inst_view b)(k \<mapsto> i)" "active i" "i_OrgGUID i = []"
    using assms(1,3)
  proof (cases rule: Update_effect)
    case (failed req' i)
    then show ?thesis
      using that [of i] assms(2) by (auto simp: update_target_def active_def simp del: inst_view_None)
  next
    case (accepted req' i t)
    then show ?thesis
      using that [of "redeployed t i"] assms(2) by (auto simp: update_target_def active_def simp del: inst_view_None)
  qed (use assms(4) in auto)
  note t = store.tally_view_ins [OF assms(1,2) i(2)]
  show ?thesis
    using t i(3,4) by (auto simp: countInstances_tally countInstancesByOrg_tally assms(1) i(1))
qed

theorem Update_recovery_ignores_quota_witness:
  "\<exists>b. countInstances b = 1 \<and> countInstancesByOrg b ''org'' = 0"
proof -
  obtain resp b w where eq: "Update offline_ext ''x'' ''true'' (Some sample_update) sample_broker (script_start [])
      = (resp, b, w)"
    by (metis prod_cases3)
  then have "status resp = 500"
    using sample_recovery_fails by simp
  moreover have "inst_view sample_broker ''x'' = None"
    by (simp add: sample_broker_view)
  ultimately have "countInstances b = Suc (countInstances sample_broker) \<and>
      (\<forall>org. org \<noteq> [] \<longrightarrow> countInstancesByOrg b org = countInstancesByOrg sample_broker org)"
    using Update_recovery_ignores_quota [OF sample_broker_wf _ eq] by blast
  moreover have "countInstances sample_broker = 0" "countInstancesByOrg sample_broker ''org'' = 0"
    by (simp_all add: countInstances_def countInstancesByOrg_def sample_broker_def)
  ultimately show ?thesis
    by (intro exI [of _ b]) simp
qed

end
