(* ===== verification/Concurrency.thy ===== *)
theory Concurrency
  imports Lifecycle
begin

text \<open>
  Requests served at the same time. Every request runs in a goroutine of its own (\<open>pc\<close>): it
  alternates between lock sections of the broker, calls to the Director and the UAA outside the
  locks, and the steps of \<^verbatim>\<open>saveState\<close> (copy under the read lock, write the temporary file, rename
  it). \<open>advance\<close> performs one such step on the shared broker, \<open>conc_step\<close> lets any goroutine take
  the next one, each in a world of its own, so that nothing is assumed of the schedule or of what
  happens outside in between. A section under the lock is one step; so are a call to another
  service with the writes the source makes to its own record without a lock (\<open>ProvisionSso\<close>), and
  the writing of the temporary file.
\<close>

section \<open>Model\<close>

text \<open>Where a goroutine is, with the local variables that are still needed.\<close>

datatype pc =
    Start request
  | ProvisionSso instance_id ref
  | ProvisionDeploy instance_id ref
  | ProvisionFinish instance_id ref deploy_result
  | DeprovisionDelete instance_id ref "string option" string
  | DeprovisionFinish instance_id ref "string option" "bosh_error + int"
  | UpdateDeploy instance_id ref ManifestParams
  | UpdateFinish instance_id ref deploy_result
  | PollAsk instance_id ref string int
  | PollSettle instance_id ref string string
  | UpgradeNext string "ref list" int
  | UpgradeDeploy string ref "ref list" int ManifestParams
  | UpgradeMark string ref "ref list" int int
  | UpgradeTrack string ref "ref list" int int
  | StatusNext nat "(instance_id \<times> int) list" upgrade_counts
  | StatusMark nat instance_id string "(instance_id \<times> int) list" upgrade_counts
  | SaveCopy response
  | SaveWrite response bytes
  | SaveRename response
  | Done response

fun finished :: "pc \<Rightarrow> bool" where
  "finished (Done _) = True"
| "finished _ = False"

text \<open>Render parameters that were built earlier, and deploy.\<close>

definition deploy_params ::
    "('w, 'e) ext_scheme \<Rightarrow> ManifestParams \<Rightarrow> Broker \<Rightarrow> 'w \<Rightarrow> deploy_result \<times> Broker \<times> 'w" where
  "deploy_params e params b w =
    (case RenderAgentManifest params of
       Inl _ \<Rightarrow> (RenderFailed, b, w)
     | Inr manifest \<Rightarrow>
        (case Deploy e (director b) manifest w of
           (Inl err, d, w) \<Rightarrow> (DeployFailed err, b\<lparr>director := d\<rparr>, w)
         | (Inr taskID, d, w) \<Rightarrow> (Deployed taskID, b\<lparr>director := d\<rparr>, w)))"

text \<open>The answers of a poll that needs no task state.\<close>

definition poll_answer :: "string \<Rightarrow> response" where
  "poll_answer state =
    (if state = ''provisioning'' then last_op ''in progress'' ''Waiting for deployment task...''
     else if state = ''deprovisioning'' then last_op ''in progress'' ''Waiting for delete task...''
     else if state = ''ready'' then last_op ''succeeded'' ''Agent ready''
     else if state = ''failed'' then last_op ''failed'' ''Deployment failed''
     else last_op ''in progress'' ''Processing...'')"

text \<open>The first step of a request: the checks before the lock and the first lock section.\<close>

fun begin_request :: "('w, 'e) ext_scheme \<Rightarrow> request \<Rightarrow> Broker \<Rightarrow> 'w \<Rightarrow> pc \<times> Broker \<times> 'w" where
  "begin_request e (ReqProvision k accepts_incomplete body) b w =
    (if \<not> validInstanceID k then (Done (writeJSON 400 (Error ''Invalid instance_id format'')), b, w)
     else if accepts_incomplete \<noteq> ''true'' then (Done asyncRequired, b, w)
     else case body of
       None \<Rightarrow> (Done (writeJSON 400 (Error ''Bad request'')), b, w)
     | Some req \<Rightarrow>
        (case Provision_reserve e k req b w of
           (Inl resp, b, w) \<Rightarrow> (Done resp, b, w)
         | (Inr r, b, w) \<Rightarrow> (ProvisionSso k r, b, w)))"
| "begin_request e (ReqDeprovision k accepts_incomplete) b w =
    (if accepts_incomplete \<noteq> ''true'' then (Done asyncRequired, b, w)
     else case Deprovision_mark k b of
       (UnderWay, b) \<Rightarrow> (Done (deprovision_accepted k), b, w)
     | (Orphan r deploymentName, b) \<Rightarrow> (DeprovisionDelete k r None deploymentName, b, w)
     | (Marked r previousState deploymentName, b) \<Rightarrow>
         (DeprovisionDelete k r (Some previousState) deploymentName, b, w))"
| "begin_request e (ReqUpdate k accepts_incomplete body) b w =
    (if accepts_incomplete \<noteq> ''true'' then (Done asyncRequired, b, w)
     else case body of
       None \<Rightarrow> (Done (writeJSON 400 (Error ''Bad request'')), b, w)
     | Some req \<Rightarrow>
        (case Update_prepare e k req b w of
           (Inl resp, b, w) \<Rightarrow> (Done resp, b, w)
         | (Inr r, b, w) \<Rightarrow> (UpdateDeploy k r (buildManifestParams (config b) (deref b r)), b, w)))"
| "begin_request e (ReqLastOperation k) b w =
    (case lookup b k of
       None \<Rightarrow> (Done (writeJSON 404 (Error ''Instance not found'')), b, w)
     | Some r \<Rightarrow>
        (let state = i_State (deref b r); taskID = i_BoshTaskID (deref b r) in
         if (state = ''provisioning'' \<or> state = ''deprovisioning'') \<and> taskID \<noteq> 0
         then (PollAsk k r state taskID, b, w) else (Done (poll_answer state), b, w)))"
| "begin_request e (ReqBind k) b w = (Done (Bind k b), b, w)"
| "begin_request e ReqUnbind b w = (Done Unbind, b, w)"
| "begin_request e ReqCatalog b w = (Done (Catalog b), b, w)"
| "begin_request e ReqListInstances b w = (case AdminListInstances e b w of (resp, w) \<Rightarrow> (Done resp, b, w))"
| "begin_request e (ReqUpgrade body) b w =
    (case body of
       None \<Rightarrow> (Done (writeJSON 400 (Error ''Bad request'')), b, w)
     | Some req \<Rightarrow>
        if g_Count req \<le> 0 then (Done (writeJSON 400 (Error ''count must be positive'')), b, w)
        else
          (let configVersion = c_OpenClawVersion (config b);
               (rs, w) = range_instances e b w
           in (UpgradeNext configVersion (collect b configVersion (g_Count req) rs []) 0, b, w)))"
| "begin_request e ReqUpgradeStatus b w =
    (case range_tasks e b w of (ts, w) \<Rightarrow>
       (StatusNext (length (upgrade_tasks b)) ts \<lparr>healthy = 0, failed_count = 0, inProgress = 0\<rparr>, b, w))"

text \<open>The steps of \<^verbatim>\<open>saveState\<close>; renaming fails when another goroutine has renamed the file already.\<close>

definition save_copy :: "response \<Rightarrow> Broker \<Rightarrow> pc" where
  "save_copy resp b = (if c_StateDir (config b) = [] then Done resp else SaveWrite resp (json_MarshalIndent (marshal_instances b)))"

definition save_write ::
    "('w, 'e) ext_scheme \<Rightarrow> response \<Rightarrow> bytes \<Rightarrow> Broker \<Rightarrow> 'w \<Rightarrow> pc \<times> Broker \<times> 'w" where
  "save_write e resp data b w =
    (let tmp = state_path (config b) @ ''.tmp'' in
     case writeFile e w of
       (WriteFailed part, w) \<Rightarrow> (Done resp, b\<lparr>files := (files b)(tmp := part)\<rparr>, w)
     | (Written, w) \<Rightarrow> (SaveRename resp, b\<lparr>files := (files b)(tmp := Some data)\<rparr>, w))"

definition save_rename :: "('w, 'e) ext_scheme \<Rightarrow> Broker \<Rightarrow> 'w \<Rightarrow> Broker \<times> 'w" where
  "save_rename e b w =
    (let path = state_path (config b); tmp = path @ ''.tmp'' in
     case renameOK e w of (ok, w) \<Rightarrow>
       (if ok \<and> files b tmp \<noteq> None then b\<lparr>files := (files b)(tmp := None, path := files b tmp)\<rparr> else b, w))"

definition settle_poll :: "instance_id \<Rightarrow> ref \<Rightarrow> string \<Rightarrow> string \<Rightarrow> Broker \<Rightarrow> pc \<times> Broker" where
  "settle_poll k r state taskState b =
    (if state = ''provisioning'' then
       (if taskState = ''done'' then
          (SaveCopy (last_op ''succeeded'' ''Agent ready''), modify r (set_state ''ready'') b)
        else if taskState = ''error'' \<or> taskState = ''cancelled'' then
          (SaveCopy (last_op ''failed'' ''BOSH deployment failed''), modify r (set_state ''failed'') b)
        else (Done (last_op ''in progress'' ''Deploying agent VM...''), b))
     else
       (if taskState = ''done'' then
          (SaveCopy (last_op ''succeeded'' ''Agent deprovisioned''), remove_instance k b)
        else if taskState = ''error'' \<or> taskState = ''cancelled'' then
          (Done (last_op ''failed'' ''Deprovision failed''), b)
        else (Done (last_op ''in progress'' ''Deprovisioning agent VM...''), b)))"

text \<open>What follows the call to the Director in Provision, Deprovision and Update, and the answer to
  one question of the status loop.\<close>

definition provision_settle :: "instance_id \<Rightarrow> ref \<Rightarrow> deploy_result \<Rightarrow> Broker \<Rightarrow> pc \<times> Broker" where [simp]:
  "provision_settle k r res b =
    (case res of
       RenderFailed \<Rightarrow> (Done (writeJSON 500 (Error ''Failed to render deployment manifest'')), remove_instance k b)
     | DeployFailed _ \<Rightarrow> (Done (writeJSON 500 (Error ''Deployment failed'')), remove_instance k b)
     | Deployed taskID \<Rightarrow>
         (SaveCopy (writeJSON 202 (Provisioned (''https://'' @ i_RouteHostname (deref b r) @ ''.''
            @ c_AppsDomain (config b)) (''provision-'' @ k))), modify r (set_task taskID) b))"

definition deprovision_settle ::
    "instance_id \<Rightarrow> ref \<Rightarrow> string option \<Rightarrow> bosh_error + int \<Rightarrow> Broker \<Rightarrow> pc \<times> Broker" where [simp]:
  "deprovision_settle k r previous res b =
    (case res of
       Inl _ \<Rightarrow>
         (case previous of
            None \<Rightarrow> (Done (writeJSON 410 Empty), remove_instance k b)
          | Some state \<Rightarrow> (Done (writeJSON 500 (Error ''Deprovision failed'')), modify r (set_state state) b))
     | Inr taskID \<Rightarrow> (SaveCopy (deprovision_accepted k), modify r (set_task taskID) b))"

definition update_settle :: "instance_id \<Rightarrow> ref \<Rightarrow> deploy_result \<Rightarrow> Broker \<Rightarrow> pc \<times> Broker" where [simp]:
  "update_settle k r res b =
    (case res of
       RenderFailed \<Rightarrow> (Done (writeJSON 500 (Error ''Failed to render deployment manifest'')), b)
     | DeployFailed _ \<Rightarrow> (Done (writeJSON 500 (Error ''Update deployment failed'')), b)
     | Deployed taskID \<Rightarrow>
         (SaveCopy (writeJSON 202 (Operation (''update-'' @ k))), modify r (redeployed taskID) b))"

definition status_check ::
    "nat \<Rightarrow> instance_id \<Rightarrow> (instance_id \<times> int) list \<Rightarrow> upgrade_counts \<Rightarrow> bosh_error + string \<Rightarrow> pc" where [simp]:
  "status_check total_count k ts n res =
    (case res of
       Inl _ \<Rightarrow> StatusNext total_count ts (n\<lparr>failed_count := Suc (failed_count n)\<rparr>)
     | Inr state \<Rightarrow>
        (if state = ''done'' then StatusMark total_count k ''ready'' ts (n\<lparr>healthy := Suc (healthy n)\<rparr>)
         else if state = ''error'' \<or> state = ''cancelled'' then
           StatusMark total_count k ''failed'' ts (n\<lparr>failed_count := Suc (failed_count n)\<rparr>)
         else StatusNext total_count ts (n\<lparr>inProgress := Suc (inProgress n)\<rparr>)))"

fun advance :: "('w, 'e) ext_scheme \<Rightarrow> pc \<Rightarrow> Broker \<Rightarrow> 'w \<Rightarrow> pc \<times> Broker \<times> 'w" where
  "advance e (Start req) b w = begin_request e req b w"
| "advance e (ProvisionSso k r) b w = (case Provision_sso e k r b w of (b, w) \<Rightarrow> (ProvisionDeploy k r, b, w))"
| "advance e (ProvisionDeploy k r) b w =
    (case deploy_instance e r b w of (res, b, w) \<Rightarrow> (ProvisionFinish k r res, b, w))"
| "advance e (ProvisionFinish k r res) b w = (case provision_settle k r res b of (p, b) \<Rightarrow> (p, b, w))"
| "advance e (DeprovisionDelete k r previous deploymentName) b w =
    (case Deprovision_delete e k deploymentName b w of (res, b, w) \<Rightarrow> (DeprovisionFinish k r previous res, b, w))"
| "advance e (DeprovisionFinish k r previous res) b w =
    (case deprovision_settle k r previous res b of (p, b) \<Rightarrow> (p, b, w))"
| "advance e (UpdateDeploy k r params) b w =
    (case deploy_params e params b w of (res, b, w) \<Rightarrow> (UpdateFinish k r res, b, w))"
| "advance e (UpdateFinish k r res) b w = (case update_settle k r res b of (p, b) \<Rightarrow> (p, b, w))"
| "advance e (PollAsk k r state taskID) b w =
    (case poll_task e taskID b w of (taskState, b, w) \<Rightarrow> (PollSettle k r state taskState, b, w))"
| "advance e (PollSettle k r state taskState) b w =
    (case settle_poll k r state taskState b of (p, b) \<Rightarrow> (p, b, w))"
| "advance e (UpgradeNext v [] n) b w =
    (SaveCopy (writeJSON 200 (Document (JObj [(''upgrading'', JInt n)]))), b, w)"
| "advance e (UpgradeNext v (r # rs) n) b w =
    (UpgradeDeploy v r rs n (buildManifestParams (config b) (deref b r)), b, w)"
| "advance e (UpgradeDeploy v r rs n params) b w =
    (case deploy_params e params b w of
       (Deployed taskID, b, w) \<Rightarrow> (UpgradeMark v r rs n taskID, b, w)
     | (_, b, w) \<Rightarrow> (UpgradeNext v rs n, b, w))"
| "advance e (UpgradeMark v r rs n taskID) b w =
    (UpgradeTrack v r rs n taskID, modify r (upgraded taskID v) b, w)"
| "advance e (UpgradeTrack v r rs n taskID) b w =
    (UpgradeNext v rs (n + 1), track_upgrade (i_ID (deref b r)) taskID b, w)"
| "advance e (StatusNext total_count [] n) b w =
    (SaveCopy (writeJSON 200 (Document (upgrade_report total_count n))), b, w)"
| "advance e (StatusNext total_count ((k, taskID) # ts) n) b w =
    (case TaskStatus e (director b) taskID w of
       (res, d, w) \<Rightarrow> (status_check total_count k ts n res, b\<lparr>director := d\<rparr>, w))"
| "advance e (StatusMark total_count k state ts n) b w =
    (StatusNext total_count ts n, update_instance k (set_state state) b, w)"
| "advance e (SaveCopy resp) b w = (save_copy resp b, b, w)"
| "advance e (SaveWrite resp data) b w = save_write e resp data b w"
| "advance e (SaveRename resp) b w = (case save_rename e b w of (b, w) \<Rightarrow> (Done resp, b, w))"
| "advance e (Done resp) b w = (Done resp, b, w)"

text \<open>Any goroutine that is not finished takes the next step.\<close>

inductive conc_step :: "('w, 'e) ext_scheme \<Rightarrow> pc list \<times> Broker \<Rightarrow> pc list \<times> Broker \<Rightarrow> bool" for e where
  conc_stepI: "j < length ts \<Longrightarrow> \<not> finished (ts ! j) \<Longrightarrow> advance e (ts ! j) b w = (p, b', w') \<Longrightarrow>
    conc_step e (ts, b) (ts[j := p], b')"

inductive_cases conc_stepE: "conc_step e s s'"

text \<open>A goroutine that runs alone for a number of steps.\<close>

fun run_alone :: "nat \<Rightarrow> ('w, 'e) ext_scheme \<Rightarrow> pc \<Rightarrow> Broker \<Rightarrow> 'w \<Rightarrow> pc \<times> Broker \<times> 'w" where
  "run_alone 0 e p b w = (p, b, w)"
| "run_alone (Suc n) e p b w = (case advance e p b w of (p, b, w) \<Rightarrow> run_alone n e p b w)"

section \<open>A goroutine alone\<close>

definition completes :: "('w, 'e) ext_scheme \<Rightarrow> pc \<Rightarrow> Broker \<Rightarrow> 'w \<Rightarrow> response \<times> Broker \<times> 'w \<Rightarrow> bool" where
  "completes e p b w out \<longleftrightarrow> (\<exists>n. run_alone n e p b w = (case out of (resp, b', w') \<Rightarrow> (Done resp, b', w')))"

lemma completes_Done [intro]: "out = (resp, b, w) \<Longrightarrow> completes e (Done resp) b w out"
  by (auto simp: completes_def intro: exI [of _ 0])

lemma completes_step:
  "advance e p b w = (p1, b1, w1) \<Longrightarrow> completes e p1 b1 w1 out \<Longrightarrow> completes e p b w out"
  unfolding completes_def using run_alone.simps(2) by (metis (no_types, lifting) case_prod_conv)

lemma completes_save [intro]:
  assumes out: "out = (resp, saveState e b w)"
  shows "completes e (SaveCopy resp) b w out"
proof (cases "c_StateDir (config b) = []")
  case True
  then have "advance e (SaveCopy resp) b w = (Done resp, b, w)" "out = (resp, b, w)"
    using out by (simp_all add: save_copy_def saveState_def)
  then show ?thesis
    by (auto intro: completes_step)
next
  case False
  let ?tmp = "state_path (config b) @ ''.tmp''" and ?data = "json_MarshalIndent (marshal_instances b)"
  obtain v w1 where v: "writeFile e w = (v, w1)"
    by fastforce
  have "completes e (SaveWrite resp ?data) b w out"
  proof (cases v)
    case Written
    let ?b = "b\<lparr>files := (files b)(?tmp := Some ?data)\<rparr>"
    obtain b2 w2 where s: "saveState e b w = (b2, w2)"
      by fastforce
    have "advance e (SaveRename resp) ?b w1 = (Done resp, b2, w2)"
      using False v Written s by (auto simp: saveState_def save_rename_def Let_def split: prod.splits bool.splits)
    then have "completes e (SaveRename resp) ?b w1 out"
      using out s by (auto intro: completes_step)
    moreover have "advance e (SaveWrite resp ?data) b w = (SaveRename resp, ?b, w1)"
      using v Written by (simp add: save_write_def)
    ultimately show ?thesis
      by (blast intro: completes_step)
  next
    case (WriteFailed part)
    then have "advance e (SaveWrite resp ?data) b w = (Done resp, b\<lparr>files := (files b)(?tmp := part)\<rparr>, w1)"
      "out = (resp, b\<lparr>files := (files b)(?tmp := part)\<rparr>, w1)"
      using False v out by (simp_all add: save_write_def saveState_def)
    then show ?thesis
      by (auto intro: completes_step)
  qed
  moreover have "advance e (SaveCopy resp) b w = (SaveWrite resp ?data, b, w)"
    using False by (simp add: save_copy_def)
  ultimately show ?thesis
    by (blast intro: completes_step)
qed

lemma deploy_params_instance:
  "deploy_params e (buildManifestParams (config b) (deref b r)) b w = deploy_instance e r b w"
  by (simp add: deploy_params_def deploy_instance_def)

lemma completes_advance:
  "(case advance e p b w of (p1, b1, w1) \<Rightarrow> completes e p1 b1 w1 out) \<Longrightarrow> completes e p b w out"
  by (auto split: prod.splits intro: completes_step)

lemma completes_ProvisionFinish:
  "completes e (ProvisionFinish k r res) b w (Provision_finish e k r (i_RouteHostname (deref b r)) res b w)"
  by (rule completes_advance, cases res)
    (auto simp: Provision_finish_def intro!: completes_save split: prod.splits, metis fst_conv saveState_frame(1) modify_fields(1))

lemma completes_Provision: "completes e (Start (ReqProvision k acc body)) b w (Provision e k acc body b w)"
proof (cases "validInstanceID k \<and> acc = ''true''")
  case True
  have deploy: "completes e (ProvisionDeploy k r) b w
      (case deploy_instance e r b w of (res, b, w) \<Rightarrow> Provision_finish e k r (i_RouteHostname (deref b r)) res b w)" for r b w
    by (rule completes_advance) (auto intro: completes_ProvisionFinish split: prod.splits)
  have "completes e (ProvisionSso k r) b w (case Provision_sso e k r b w of (b, w) \<Rightarrow>
      (case deploy_instance e r b w of (res, b, w) \<Rightarrow> Provision_finish e k r (i_RouteHostname (deref b r)) res b w))" for r b w
    by (rule completes_advance) (use deploy in \<open>auto split: prod.splits\<close>)
  then show ?thesis
    using True by (intro completes_advance) (auto simp: Provision_def split: option.splits prod.splits sum.splits)
next
  case False
  then show ?thesis
    by (intro completes_advance) (auto simp: Provision_def)
qed

lemma completes_Deprovision: "completes e (Start (ReqDeprovision k acc)) b w (Deprovision e k acc b w)"
proof -
  have "completes e (DeprovisionFinish k r (Some st) res) b w (Deprovision_finish e k r (modify r (set_state st))
      (writeJSON 500 (Error ''Deprovision failed'')) (res, b, w))"
    "completes e (DeprovisionFinish k r None res) b w (Deprovision_finish e k r (remove_instance k) (writeJSON 410 Empty) (res, b, w))"
    for r st res b w
    by (rule completes_advance, cases res, auto simp: Deprovision_finish_def)+
  then have "completes e (DeprovisionDelete k r (Some st) n) b w (Deprovision_finish e k r (modify r (set_state st))
      (writeJSON 500 (Error ''Deprovision failed'')) (Deprovision_delete e k n b w))"
    "completes e (DeprovisionDelete k r None n) b w (Deprovision_finish e k r (remove_instance k) (writeJSON 410 Empty)
      (Deprovision_delete e k n b w))" for r st n b w
    by (intro completes_advance; force split: prod.splits)+
  then show ?thesis
    by (intro completes_advance) (auto simp: Deprovision_def split: prod.splits deprovision_mark.splits)
qed

lemma completes_Update: "completes e (Start (ReqUpdate k acc body)) b w (Update e k acc body b w)"
proof -
  have "completes e (UpdateFinish k r res) b w (Update_finish e k r res b w)" for r res b w
    by (rule completes_advance, cases res) (auto simp: Update_finish_def)
  then have "completes e (UpdateDeploy k r (buildManifestParams (config b) (deref b r))) b w
      (case deploy_instance e r b w of (res, b, w) \<Rightarrow> Update_finish e k r res b w)" for r b w
    by (intro completes_advance) (simp add: deploy_params_instance split: prod.splits)
  then show ?thesis
    by (intro completes_advance) (auto simp: Update_def split: option.splits prod.splits sum.splits)
qed

lemma completes_LastOperation: "completes e (Start (ReqLastOperation k)) b w (LastOperation e k b w)"
proof (cases "lookup b k")
  case None
  then show ?thesis
    by (intro completes_advance) (auto simp: LastOperation_def)
next
  case (Some r)
  let ?st = "i_State (deref b r)" and ?t = "i_BoshTaskID (deref b r)"
  have s: "?st = ''provisioning'' \<or> ?st = ''deprovisioning'' \<Longrightarrow> ?t \<noteq> 0 \<Longrightarrow> poll_task e ?t b w = (ts, b1, w1) \<Longrightarrow>
      completes e (PollSettle k r ?st ts) b1 w1 (LastOperation e k b w)" for ts b1 w1
    by (rule completes_advance) (auto simp: LastOperation_def Some settle_poll_def settle_with_def)
  show ?thesis
  proof (cases "(?st = ''provisioning'' \<or> ?st = ''deprovisioning'') \<and> ?t \<noteq> 0")
    case True
    then have "completes e (PollAsk k r ?st ?t) b w (LastOperation e k b w)"
      using s by (intro completes_advance) (auto split: prod.splits)
    then show ?thesis
      using True Some by (intro completes_advance) simp
  next
    case False
    then show ?thesis
      using Some by (intro completes_advance) (auto simp: LastOperation_def poll_answer_def Let_def)
  qed
qed

text \<open>The answers at the end of the two loops.\<close>

definition upgrade_answer :: "('w, 'e) ext_scheme \<Rightarrow> int \<times> Broker \<times> 'w \<Rightarrow> response \<times> Broker \<times> 'w" where
  "upgrade_answer e out = (case out of (n, b, w) \<Rightarrow>
     (writeJSON 200 (Document (JObj [(''upgrading'', JInt n)])), saveState e b w))"

definition status_answer ::
    "('w, 'e) ext_scheme \<Rightarrow> nat \<Rightarrow> upgrade_counts \<times> Broker \<times> 'w \<Rightarrow> response \<times> Broker \<times> 'w" where
  "status_answer e c out = (case out of (n, b, w) \<Rightarrow> (writeJSON 200 (Document (upgrade_report c n)), saveState e b w))"

lemma completes_UpgradeNext: "completes e (UpgradeNext v rs n) b w (upgrade_answer e (upgrade_all e v rs n b w))"
proof (induction rs arbitrary: n b w)
  case Nil
  show ?case
    by (rule completes_advance) (auto simp: upgrade_answer_def)
next
  case (Cons r rs)
  have mark: "completes e (UpgradeMark v r rs n t) b w (upgrade_answer e (upgrade_all e v rs (n + 1)
      (track_upgrade (i_ID (deref (modify r (upgraded t v) b) r)) t (modify r (upgraded t v) b)) w))" for t b w
    by (rule completes_advance, simp, rule completes_advance, simp add: Cons.IH)
  have "i_ID (deref (modify r (upgraded t v) b) r) = i_ID (deref b r)" for t b
    by (cases "r < length (heap b)") (simp_all add: modify_def deref_def upgraded_def list_update_beyond)
  then have "completes e (UpgradeDeploy v r rs n (buildManifestParams (config b) (deref b r))) b w
      (upgrade_answer e (upgrade_all e v (r # rs) n b w))"
    using mark by (intro completes_advance) (simp add: deploy_params_instance upgrade_one_def Cons.IH
      split: prod.split deploy_result.split)
  then show ?case
    by (intro completes_advance) simp
qed

lemma completes_StatusNext: "completes e (StatusNext c ts n) b w (status_answer e c (check_upgrades e ts n b w))"
proof (induction ts arbitrary: n b w)
  case Nil
  show ?case
    by (rule completes_advance) (auto simp: status_answer_def)
next
  case (Cons kt ts)
  obtain k t where kt: "kt = (k, t)"
    by fastforce
  have mark: "completes e (StatusMark c k st ts n) b w
    (status_answer e c (check_upgrades e ts n (update_instance k (set_state st) b) w))" for st n b w
    by (rule completes_advance) (simp add: Cons.IH)
  obtain res d w1 where t: "TaskStatus e (director b) t w = (res, d, w1)"
    by (metis prod_cases3)
  show ?case
    unfolding kt by (rule completes_advance, cases res) (simp_all add: t check_upgrade_def Let_def Cons.IH mark)
qed

lemma completes_serve: "completes e (Start req) b w (serve e req b w)"
proof (cases req)
  case (ReqUpgrade body)
  have "AdminUpgrade e (Some r) b w = (case range_instances e b w of (rs, w) \<Rightarrow>
      upgrade_answer e (upgrade_all e (c_OpenClawVersion (config b))
        (collect b (c_OpenClawVersion (config b)) (g_Count r) rs []) 0 b w))" if "g_Count r > 0" for r
    using that by (simp add: AdminUpgrade_def upgrade_answer_def Let_def)
  then show ?thesis
    unfolding ReqUpgrade by (intro completes_advance, cases body)
      (auto simp: completes_UpgradeNext Let_def AdminUpgrade_def split: prod.split)
next
  case ReqUpgradeStatus
  have "AdminUpgradeStatus e b w = (case range_tasks e b w of (ts, w) \<Rightarrow> status_answer e (length (upgrade_tasks b))
      (check_upgrades e ts \<lparr>healthy = 0, failed_count = 0, inProgress = 0\<rparr> b w))"
    by (simp add: AdminUpgradeStatus_def status_answer_def Let_def)
  then show ?thesis
    unfolding ReqUpgradeStatus by (intro completes_advance) (simp add: completes_StatusNext split: prod.split)
next
  case ReqListInstances
  show ?thesis
    unfolding ReqListInstances by (rule completes_advance) (auto split: prod.splits)
next
  case ReqUnbind
  show ?thesis
    unfolding ReqUnbind by (rule completes_advance) auto
next
  case ReqCatalog
  show ?thesis
    unfolding ReqCatalog by (rule completes_advance) auto
next
  case (ReqBind k)
  show ?thesis
    unfolding ReqBind by (rule completes_advance) auto
qed (simp_all add: completes_Provision completes_Deprovision completes_Update completes_LastOperation)

section \<open>Properties\<close>


end
