(* ===== verification/Interleaving.thy ===== *)
theory Interleaving
  imports Concurrency
begin

text \<open>
  What holds whatever the interleaving of the goroutines of \<open>Concurrency\<close>, and what does not: every
  run ends, with an answer to every request; the broker's invariant and the identity of every record
  survive; the quotas survive as long as nothing is deleted or updated. Three schedules show where
  the locks of the source are too short: a stale copy of the map overwrites a newer state file, a
  failed deletion brings an instance back after its place was given away, and a poll makes an
  instance ready that is being deleted.
\<close>

section \<open>Every run ends\<close>

text \<open>The steps that remain after the first one.\<close>

fun work :: "pc \<Rightarrow> nat" where
  "work (ProvisionSso _ _) = 6"
| "work (ProvisionDeploy _ _) = 5"
| "work (ProvisionFinish _ _ _) = 4"
| "work (DeprovisionDelete _ _ _ _) = 5"
| "work (DeprovisionFinish _ _ _ _) = 4"
| "work (UpdateDeploy _ _ _) = 5"
| "work (UpdateFinish _ _ _) = 4"
| "work (PollAsk _ _ _ _) = 5"
| "work (PollSettle _ _ _ _) = 4"
| "work (UpgradeNext _ rs _) = 4 + 4 * length rs"
| "work (UpgradeDeploy _ _ rs _ _) = 7 + 4 * length rs"
| "work (UpgradeMark _ _ rs _ _) = 6 + 4 * length rs"
| "work (UpgradeTrack _ _ rs _ _) = 5 + 4 * length rs"
| "work (StatusNext _ ts _) = 4 + 2 * length ts"
| "work (StatusMark _ _ _ ts _) = 5 + 2 * length ts"
| "work (SaveCopy _) = 3"
| "work (SaveWrite _ _) = 2"
| "work (SaveRename _) = 1"
| "work _ = 0"

fun unstarted :: "pc \<Rightarrow> nat" where
  "unstarted (Start _) = 1"
| "unstarted _ = 0"

lemma begin_request_started: "begin_request e req b w = (p, b', w') \<Longrightarrow> unstarted p = 0"
  by (cases req) (auto simp: Let_def split: if_splits option.splits prod.splits sum.splits deprovision_mark.splits)

lemma advance_work:
  assumes "advance e p b w = (p', b', w')" and "\<not> finished p"
  shows "unstarted p' < unstarted p \<or> unstarted p' = unstarted p \<and> work p' < work p"
  using assms begin_request_started
  by (cases "(e, p, b, w)" rule: advance.cases)
    (auto simp: save_copy_def save_write_def settle_poll_def Let_def
      split: if_splits option.splits prod.splits sum.splits deploy_result.splits write_result.splits)

definition remaining :: "((pc list \<times> Broker) \<times> pc list \<times> Broker) set" where
  "remaining = measures [\<lambda>(ts, b). sum_list (map unstarted ts), \<lambda>(ts, b). sum_list (map work ts)]"

lemma sum_list_map_update:
  fixes f :: "'a \<Rightarrow> nat"
  shows "j < length xs \<Longrightarrow> sum_list (map f (xs[j := x])) + f (xs ! j) = sum_list (map f xs) + f x"
  by (induction xs arbitrary: j) (auto split: nat.split simp: nth_Cons)

lemma conc_step_remaining: "conc_step e s s' \<Longrightarrow> (s', s) \<in> remaining"
proof (elim conc_stepE)
  fix j ts b w p b' w'
  assume s: "s = (ts, b)" "s' = (ts[j := p], b')" "j < length ts" "\<not> finished (ts ! j)"
    and a: "advance e (ts ! j) b w = (p, b', w')"
  show ?thesis
    using advance_work [OF a s(4)] sum_list_map_update [OF s(3), of unstarted p] sum_list_map_update [OF s(3), of work p]
    by (auto simp: s remaining_def)
qed

lemma conc_step_total: "(\<exists>s'. conc_step e (ts, b) s') \<longleftrightarrow> \<not> list_all finished ts"
proof
  assume "\<not> list_all finished ts"
  then obtain j where "j < length ts" "\<not> finished (ts ! j)"
    by (auto simp: list_all_length)
  moreover obtain p b' w' where "advance e (ts ! j) b undefined = (p, b', w')"
    by (metis prod_cases3)
  ultimately show "\<exists>s'. conc_step e (ts, b) s'"
    by (blast intro: conc_stepI)
qed (auto elim!: conc_stepE simp: list_all_length)

section \<open>What every step does to the broker\<close>

text \<open>The part of a record that is fixed when it is made.\<close>

definition fixed_of :: "Instance \<Rightarrow> string list" where
  "fixed_of i = [i_ID i, i_DeploymentName i, i_Owner i, i_OrgGUID i, i_SpaceGUID i, i_GatewayToken i,
     i_NodeSeed i, i_RouteHostname i, i_AppsDomain i]"

text \<open>The states the source names, and the goroutines that write no other one.\<close>

definition known :: "Instance \<Rightarrow> bool" where
  "known i \<longleftrightarrow> i_State i \<in> {''provisioning'', ''ready'', ''deprovisioning'', ''failed''}"

fun writes_known :: "pc \<Rightarrow> bool" where
  "writes_known (DeprovisionDelete k r previous n) =
     (\<forall>st. previous = Some st \<longrightarrow> st \<in> {''provisioning'', ''ready'', ''deprovisioning'', ''failed''})"
| "writes_known (DeprovisionFinish k r previous res) =
     (\<forall>st. previous = Some st \<longrightarrow> st \<in> {''provisioning'', ''ready'', ''deprovisioning'', ''failed''})"
| "writes_known (StatusMark c k st ts n) = (st \<in> {''ready'', ''failed''})"
| "writes_known _ = True"

inductive micro :: "Broker \<Rightarrow> Broker \<Rightarrow> bool" for b where
  micro_frame: "micro b (b\<lparr>director := d, files := fs, upgrade_tasks := us\<rparr>)"
| micro_modify: "(\<And>i. fixed_of (f i) = fixed_of i) \<Longrightarrow> (\<And>i. known i \<Longrightarrow> known (f i)) \<Longrightarrow> micro b (modify r f b)"
| micro_remove: "micro b (remove_instance k b)"
| micro_insert: "lookup b k = None \<Longrightarrow> instance_ok k i \<Longrightarrow> i_State i \<in> {''provisioning'', ''deprovisioning''} \<Longrightarrow>
    micro b (snd (insert_instance k i b))"

lemma known_simps [simp]:
  "known (set_state st i) \<longleftrightarrow> st \<in> {''provisioning'', ''ready'', ''deprovisioning'', ''failed''}"
  "known (set_task t i) = known i" "known (redeployed t i)" "known (upgraded t v i)"
  "known (set_plan pid plan i) = known i" "known (set_sso c s k i) = known i"
  "known (i\<lparr>i_SSOEnabled := a\<rparr>) = known i" "i_State (orphan_instance k) = ''deprovisioning''"
  by (simp_all add: known_def redeployed_def upgraded_def set_plan_def set_sso_def orphan_instance_def)

lemma fixed_of_simps [simp]:
  "fixed_of (set_state st i) = fixed_of i" "fixed_of (set_task t i) = fixed_of i"
  "fixed_of (redeployed t i) = fixed_of i" "fixed_of (upgraded t v i) = fixed_of i"
  "fixed_of (set_plan pid plan i) = fixed_of i" "fixed_of (set_sso c s k i) = fixed_of i"
  "fixed_of (i\<lparr>i_SSOEnabled := a\<rparr>) = fixed_of i"
  by (simp_all add: fixed_of_def set_state_def set_task_def redeployed_def upgraded_def set_plan_def set_sso_def)

lemma micro_same [simp]: "micro b b"
  using micro_frame [of b "upgrade_tasks b" "files b" "director b"] by simp

lemma micro_director [simp]: "micro b (b\<lparr>director := d\<rparr>)"
  using micro_frame [of b "upgrade_tasks b" "files b" d] by simp

lemma micro_files [simp]: "micro b (b\<lparr>files := fs\<rparr>)"
  using micro_frame [of b "upgrade_tasks b" fs "director b"] by simp

lemma micro_track [simp]: "micro b (track_upgrade k t b)"
  using micro_frame [of b _ "files b" "director b"] by (simp add: track_upgrade_def)

lemma micro_update: "st \<in> {''ready'', ''failed''} \<Longrightarrow> micro b (update_instance k (set_state st) b)"
  by (auto simp: update_instance_def intro!: micro_modify split: option.splits)

lemma deploy_params_micro: "deploy_params e params b w = (res, b', w') \<Longrightarrow> micro b b'"
  by (auto simp: deploy_params_def split: prod.splits sum.splits)

lemma deploy_instance_micro: "deploy_instance e r b w = (res, b', w') \<Longrightarrow> micro b b'"
  using deploy_params_micro [of e _ b w] by (simp flip: deploy_params_instance)

lemma Provision_sso_micro: "Provision_sso e k r b w = (b', w') \<Longrightarrow> micro b b'"
  by (auto simp: Provision_sso_def Let_def intro!: micro_modify split: if_splits option.splits prod.splits)

lemma Provision_reserve_micro: "Provision_reserve e k req b w = (res, b', w') \<Longrightarrow> micro b b'"
  by (elim Provision_reserve_cases) (auto simp: provision_admitted_def record_ok intro!: micro_insert)

lemma Deprovision_mark_micro: "Deprovision_mark k b = (m, b') \<Longrightarrow> micro b b'"
  by (auto simp: Deprovision_mark_def Let_def split_def record_ok
      split: option.splits if_splits intro!: micro_insert micro_modify)

lemma Deprovision_delete_micro: "Deprovision_delete e k n b w = (res, b', w') \<Longrightarrow> micro b b'"
  by (auto simp: Deprovision_delete_def split: prod.splits)

lemma Update_prepare_micro: "Update_prepare e k req b w = (res, b', w') \<Longrightarrow> micro b b'"
  by (auto simp: Update_prepare_def Let_def split_def record_ok
      split: option.splits if_splits intro!: micro_insert micro_modify)

lemma poll_task_micro: "poll_task e t b w = (s, b', w') \<Longrightarrow> micro b b'"
  by (auto simp: poll_task_def split: prod.splits)

lemmas micros = deploy_params_micro deploy_instance_micro Provision_sso_micro Provision_reserve_micro
  Deprovision_mark_micro Deprovision_delete_micro Update_prepare_micro poll_task_micro

lemma begin_request_micro: "begin_request e req b w = (p, b', w') \<Longrightarrow> micro b b'"
  by (cases req) (auto simp: Let_def split: if_splits option.splits prod.splits sum.splits deprovision_mark.splits
      dest: micros)

lemma advance_micro:
  assumes "advance e p b w = (p', b', w')" and "writes_known p"
  shows "micro b b'"
  using assms
  by (cases "(e, p, b, w)" rule: advance.cases)
    (auto simp: save_write_def save_rename_def settle_poll_def Let_def micro_remove micro_update
      split: if_splits option.splits prod.splits sum.splits deploy_result.splits write_result.splits
      intro!: micro_modify dest: micros begin_request_micro)

definition all_known :: "Broker \<Rightarrow> bool" where
  "all_known b \<longleftrightarrow> (\<forall>r < length (heap b). known (heap b ! r))"

lemma begin_request_known:
  assumes "broker_wf b" and "all_known b" and "begin_request e req b w = (p, b', w')"
  shows "writes_known p"
proof (cases req)
  case (ReqDeprovision k acc)
  have "known (heap b ! r)" if "lookup b k = Some r" for r
    using that lookup_ref [OF assms(1)] assms(2) by (simp add: all_known_def)
  then show ?thesis
    using assms(3) ReqDeprovision
    by (auto simp: Deprovision_mark_def Let_def known_def deref_def split: if_splits option.splits prod.splits)
qed (use assms(3) in \<open>auto simp: Let_def split: if_splits option.splits prod.splits sum.splits\<close>)

lemma advance_known:
  assumes "advance e p b w = (p', b', w')" and "writes_known p" and "broker_wf b" and "all_known b"
  shows "writes_known p'"
  using assms
  by (cases "(e, p, b, w)" rule: advance.cases)
    (auto simp: save_copy_def save_write_def settle_poll_def Let_def dest: begin_request_known
      split: if_splits option.splits prod.splits sum.splits deploy_result.splits write_result.splits)

lemma fixed_ok: "fixed_of j = fixed_of i \<Longrightarrow> instance_ok k i \<Longrightarrow> instance_ok k j"
  by (simp add: fixed_of_def instance_ok_def)

lemma modify_fixed:
  assumes "\<And>i. fixed_of (f i) = fixed_of i"
  shows "fixed_of (heap (modify r f b) ! s) = fixed_of (heap b ! s)"
  using assms by (cases "s = r \<and> r < length (heap b)") (auto simp: modify_def nth_list_update list_update_beyond)

lemma micro_fixed:
  assumes "micro b b'" and "r < length (heap b)"
  shows "r < length (heap b') \<and> fixed_of (heap b' ! r) = fixed_of (heap b ! r)"
  using assms by (cases rule: micro.cases) (auto simp: modify_fixed nth_append)

lemma micro_wf:
  assumes "micro b b'" and wf: "broker_wf b"
  shows "broker_wf b'"
  using assms(1)
proof (cases rule: micro.cases)
  case (micro_modify f r)
  then have "instance_ok k (heap b' ! s) = instance_ok k (heap b ! s)" for k s
    using modify_fixed [of f r b s] fixed_ok by metis
  then show ?thesis
    using wf micro_modify by (simp add: broker_wf_def)
qed (auto simp: wf broker_wf_remove broker_wf_insert)

lemma micro_config: "micro b b' \<Longrightarrow> config b' = config b"
  by (cases rule: micro.cases) auto

lemma micro_known:
  assumes "micro b b'" and "all_known b"
  shows "all_known b'"
  using assms(1)
proof (cases rule: micro.cases)
  case (micro_modify f r)
  have "known (heap b' ! s)" if "s < length (heap b)" for s
    using that assms(2) micro_modify(3) [of "heap b ! r"]
    by (cases "s = r") (simp_all add: micro_modify(1) all_known_def, simp_all add: modify_def)
  then show ?thesis
    by (simp add: all_known_def micro_modify(1))
qed (use assms(2) in \<open>auto simp: all_known_def nth_append known_def\<close>)

lemma inst_view_modify_any:
  assumes "broker_wf b"
  shows "inst_view (modify r f b) k = (if lookup b k = Some r then Some (f (heap b ! r)) else inst_view b k)"
proof (cases "lookup b k")
  case (Some s)
  then show ?thesis
    using lookup_ref [OF assms Some] by (auto simp: inst_view_def) (simp_all add: deref_def modify_def)
qed (simp add: inst_view_def)

text \<open>
  The life of an instance as it shows between the steps of goroutines: what sequential requests do,
  and the removal of a record whose deployment, or whose deletion as an unknown one, was refused.
\<close>

inductive conc_life :: "phase \<Rightarrow> phase \<Rightarrow> bool" where
  lived: "life p q \<Longrightarrow> conc_life p q"
| undone: "p \<noteq> Absent \<Longrightarrow> conc_life p Absent"

inductive_simps conc_life_from_Absent: "conc_life Absent p"

lemma known_phase:
  "known i \<Longrightarrow> phase_of (Some i) \<in> {Provisioning, Ready, Failed, Deprovisioning}"
  by (auto simp: known_def phase_of_def)

lemma life_present: "p \<noteq> Absent \<Longrightarrow> q \<in> {Provisioning, Ready, Failed, Deprovisioning} \<Longrightarrow> life p q"
  by (auto intro: life.intros)

lemma micro_life:
  assumes m: "micro b b'" and wf: "broker_wf b" and kn: "all_known b"
  shows "phase_of (inst_view b k) = phase_of (inst_view b' k) \<or> conc_life (phase_of (inst_view b k)) (phase_of (inst_view b' k))"
  using m
proof (cases rule: micro.cases)
  case (micro_modify f r)
  show ?thesis
  proof (cases "lookup b k = Some r")
    case True
    then have "inst_view b k = Some (heap b ! r)" "inst_view b' k = Some (f (heap b ! r))" "known (f (heap b ! r))"
      using micro_modify(1,3) lookup_ref [OF wf True] kn
      by (simp_all add: inst_view_modify_any [OF wf] inst_view_Some all_known_def)
    then show ?thesis
      using life_present [OF phase_of_Some known_phase] by (simp add: conc_life.lived)
  qed (simp add: micro_modify(1) inst_view_modify_any [OF wf])
next
  case (micro_remove k')
  then show ?thesis
    by (cases "phase_of (inst_view b k) = Absent") (auto simp: inst_view_remove conc_life.undone)
next
  case (micro_insert k' i)
  have "inst_view b k' = None"
    using micro_insert(2) by simp
  then have "conc_life (phase_of (inst_view b k')) (phase_of (Some i))"
    using micro_insert(4) by (auto simp del: inst_view_None simp: phase_of_def intro!: conc_life.lived life.intros)
  then show ?thesis
    using micro_insert(1) inst_view_insert [OF wf micro_insert(2)] by simp
qed simp

text \<open>The invariant of a run that started from \<open>b0\<close>.\<close>

definition run_inv :: "Broker \<Rightarrow> pc list \<times> Broker \<Rightarrow> bool" where
  "run_inv b0 s \<longleftrightarrow> list_all writes_known (fst s) \<and> all_known (snd s) \<and> broker_wf (snd s) \<and> config (snd s) = config b0 \<and>
     (\<forall>r < length (heap b0). r < length (heap (snd s)) \<and> fixed_of (heap (snd s) ! r) = fixed_of (heap b0 ! r))"

interpretation goroutines: simulation_system "conc_step e" "run_inv b0"
    "\<lambda>k s. phase_of (inst_view (snd s) k)" conc_life for e :: "('w, 'e) ext_scheme"
proof unfold_locales
  fix s s' assume s: "run_inv b0 s" "conc_step e s s'"
  from s(2) show "run_inv b0 s'"
  proof (elim conc_stepE)
    fix j ts b w p b' w'
    assume st: "s = (ts, b)" "s' = (ts[j := p], b')" "j < length ts" and a: "advance e (ts ! j) b w = (p, b', w')"
    have inv: "list_all writes_known ts" "all_known b" "broker_wf b"
      using s(1) by (simp_all add: run_inv_def st)
    then have "writes_known (ts ! j)"
      using st(3) by (simp add: list_all_length)
    note m = advance_micro [OF a this] and k = advance_known [OF a this inv(3,2)]
    have "list_all writes_known (ts[j := p])"
      using inv(1) k by (auto simp: list_all_iff dest!: set_update_subset_insert [THEN subsetD])
    then show ?thesis
      using s(1) micro_known [OF m] micro_wf [OF m] micro_config [OF m] micro_fixed [OF m] by (simp add: run_inv_def st)
  qed
next
  fix s s' k assume s: "run_inv b0 s" "conc_step e s s'"
  from s(2) show "phase_of (inst_view (snd s) k) = phase_of (inst_view (snd s') k)
      \<or> conc_life (phase_of (inst_view (snd s) k)) (phase_of (inst_view (snd s') k))"
  proof (elim conc_stepE)
    fix j ts b w p b' w'
    assume st: "s = (ts, b)" "s' = (ts[j := p], b')" "j < length ts" and a: "advance e (ts ! j) b w = (p, b', w')"
    have "writes_known (ts ! j)" "broker_wf b" "all_known b"
      using s(1) st(3) by (simp_all add: run_inv_def st list_all_length)
    then show ?thesis
      using micro_life [OF advance_micro [OF a]] by (simp add: st)
  qed
qed

lemma run_inv_start: "broker_wf b \<Longrightarrow> all_known b \<Longrightarrow> run_inv b (map Start reqs, b)"
  by (simp add: run_inv_def list_all_iff)

section \<open>Quotas under interleaving\<close>

definition live_ref :: "Broker \<Rightarrow> ref \<Rightarrow> bool" where
  "live_ref b r \<longleftrightarrow> r < length (heap b) \<and> active (heap b ! r)"

text \<open>Requests that neither delete nor update, and what their goroutines rely on: the records they
  are going to put into another state are not being deleted.\<close>

fun quiet :: "request \<Rightarrow> bool" where
  "quiet (ReqDeprovision _ _) = False"
| "quiet (ReqUpdate _ _ _) = False"
| "quiet ReqUpgradeStatus = False"
| "quiet _ = True"

fun relies :: "Broker \<Rightarrow> pc \<Rightarrow> bool" where
  "relies b (Start req) = quiet req"
| "relies b (PollAsk k r state t) = (state = ''provisioning'' \<longrightarrow> live_ref b r)"
| "relies b (PollSettle k r state s) = (state = ''provisioning'' \<longrightarrow> live_ref b r)"
| "relies b (UpgradeNext v rs n) = list_all (live_ref b) rs"
| "relies b (UpgradeDeploy v r rs n m) = list_all (live_ref b) (r # rs)"
| "relies b (UpgradeMark v r rs n t) = list_all (live_ref b) (r # rs)"
| "relies b (UpgradeTrack v r rs n t) = list_all (live_ref b) rs"
| "relies b (DeprovisionDelete _ _ _ _) = False"
| "relies b (DeprovisionFinish _ _ _ _) = False"
| "relies b (UpdateDeploy _ _ _) = False"
| "relies b (UpdateFinish _ _ _) = False"
| "relies b (StatusNext _ _ _) = False"
| "relies b (StatusMark _ _ _ _ _) = False"
| "relies b _ = True"

text \<open>The effect of such a step: no record that counts stops to count, and the only records that
  begin to count are those Provision admits.\<close>

inductive quiet_micro :: "Broker \<Rightarrow> Broker \<Rightarrow> bool" for b where
  quiet_frame: "quiet_micro b (b\<lparr>director := d, files := fs, upgrade_tasks := us\<rparr>)"
| quiet_modify: "(\<And>i. fixed_of (f i) = fixed_of i) \<Longrightarrow> (\<And>i. active i \<Longrightarrow> active (f i)) \<Longrightarrow>
    (\<forall>i. active (f i) \<longrightarrow> active i) \<or> live_ref b r \<Longrightarrow> (\<And>i. known i \<Longrightarrow> known (f i)) \<Longrightarrow> quiet_micro b (modify r f b)"
| quiet_remove: "quiet_micro b (remove_instance k b)"
| quiet_admit: "provision_admitted b k req plan \<Longrightarrow> instance_ok k i \<Longrightarrow> active i \<Longrightarrow>
    i_OrgGUID i = q_OrganizationGUID req \<Longrightarrow> i_State i = ''provisioning'' \<Longrightarrow> quiet_micro b (snd (insert_instance k i b))"

lemma live_ref_modify: "live_ref b s \<Longrightarrow> (active (heap b ! r) \<Longrightarrow> active (f (heap b ! r))) \<Longrightarrow> live_ref (modify r f b) s"
  by (cases "s = r") (simp_all add: live_ref_def modify_def)

lemma live_ref_track [simp]: "live_ref (track_upgrade k t b) r = live_ref b r"
  by (simp add: live_ref_def)

lemma quiet_micro_live:
  assumes "quiet_micro b b'" and "live_ref b r"
  shows "live_ref b' r"
  using assms(1)
proof (cases rule: quiet_micro.cases)
  case (quiet_modify f s)
  then show ?thesis
    using live_ref_modify [OF assms(2), of s f] by blast
qed (use assms(2) in \<open>simp_all add: live_ref_def nth_append\<close>)

lemma quiet_micro_micro: "quiet_micro b b' \<Longrightarrow> micro b b'"
  by (cases rule: quiet_micro.cases) (auto intro: micro.intros simp: provision_admitted_def)

lemma quiet_simps [simp]:
  "quiet_micro b b" "quiet_micro b (b\<lparr>director := d\<rparr>)" "quiet_micro b (b\<lparr>files := fs\<rparr>)"
  "quiet_micro b (track_upgrade k t b)" "quiet_micro b (remove_instance k b)"
  using quiet_frame [of b "upgrade_tasks b" "files b" "director b"] quiet_frame [of b "upgrade_tasks b" "files b" d]
    quiet_frame [of b "upgrade_tasks b" fs "director b"] quiet_frame [of b _ "files b" "director b"]
  by (simp_all add: track_upgrade_def quiet_remove)

lemma active_simps [simp]:
  "active (set_task t i) = active i" "active (set_sso c s k i) = active i"
  "active (i\<lparr>i_SSOEnabled := a\<rparr>) = active i" "active (upgraded t v i)"
  "active (set_state ''ready'' i)" "active (set_state ''failed'' i)"
  by (simp_all add: active_def set_task_def set_sso_def upgraded_def set_state_def)

lemma Provision_sso_quiet: "Provision_sso e k r b w = (b', w') \<Longrightarrow> quiet_micro b b'"
  by (auto simp: Provision_sso_def Let_def intro!: quiet_modify split: if_splits option.splits prod.splits)

lemma Provision_reserve_quiet:
  assumes "Provision_reserve e k req b w = (res, b', w')"
  shows "quiet_micro b b'"
  using assms
proof (cases rule: Provision_reserve_cases)
  case (reserved plan tb sb)
  then show ?thesis
    by (auto intro!: quiet_admit simp: record_ok active_def)
qed simp

lemma deploy_params_quiet: "deploy_params e params b w = (res, b', w') \<Longrightarrow> quiet_micro b b' \<and> live_ref b' = live_ref b"
  by (auto simp: deploy_params_def live_ref_def fun_eq_iff split: prod.splits sum.splits)

lemma deploy_instance_quiet: "deploy_instance e r b w = (res, b', w') \<Longrightarrow> quiet_micro b b'"
  using deploy_params_quiet [of e _ b w] by (simp flip: deploy_params_instance)

lemma poll_task_quiet: "poll_task e t b w = (s, b', w') \<Longrightarrow> quiet_micro b b' \<and> live_ref b' = live_ref b"
  by (auto simp: poll_task_def live_ref_def fun_eq_iff split: prod.splits)

lemma collect_live:
  assumes "broker_wf b" and "range_instances e b w = (rs, w')" and "n > 0"
  shows "list_all (live_ref b) (collect b v n rs [])"
proof -
  have "r < length (heap b)" if "r \<in> set rs" for r
    using that assms(2) lookup_ref [OF assms(1)] by (auto simp: range_instances_def set_map_filter split: prod.splits)
  then show ?thesis
    using collect_filter [of "[]" n b v rs] assms(3)
    by (auto simp: list_all_iff live_ref_def outdated_def deref_def dest!: in_set_takeD)
qed

lemma begin_request_quiet:
  assumes "broker_wf b" and "quiet req" and "begin_request e req b w = (p, b', w')"
  shows "quiet_micro b b' \<and> relies b' p"
proof (cases req)
  case (ReqProvision k acc body)
  then show ?thesis
    using assms(3) by (auto split: if_splits option.splits prod.splits sum.splits dest: Provision_reserve_quiet)
next
  case (ReqLastOperation k)
  then show ?thesis
    using assms(3) lookup_ref [OF assms(1)]
    by (auto simp: Let_def live_ref_def active_def deref_def split: if_splits option.splits)
next
  case (ReqUpgrade body)
  then show ?thesis
    using assms(3) collect_live [OF assms(1)] by (auto simp: Let_def not_le split: if_splits option.splits prod.splits)
qed (use assms in \<open>auto split: prod.splits\<close>)

lemma advance_quiet:
  assumes wf: "broker_wf b" and rel: "relies b p" and adv: "advance e p b w = (p', b', w')"
  shows "quiet_micro b b' \<and> relies b' p'"
  using assms
  by (cases "(e, p, b, w)" rule: advance.cases)
    (auto simp: save_copy_def save_write_def save_rename_def settle_poll_def Let_def list_all_iff live_ref_modify
      split: if_splits option.splits prod.splits sum.splits deploy_result.splits write_result.splits
      intro!: quiet_modify dest: begin_request_quiet Provision_sso_quiet deploy_params_quiet deploy_instance_quiet
        poll_task_quiet)

text \<open>Such steps keep the quotas.\<close>

lemma quiet_micro_calm:
  assumes "quiet_micro b b'" and wf: "broker_wf b"
  obtains "calm b b'"
  | k req plan i where "provision_admitted b k req plan" "active i" "i_OrgGUID i = q_OrganizationGUID req"
      "inst_view b' = (inst_view b)(k \<mapsto> i)"
  using assms(1)
proof (cases rule: quiet_micro.cases)
  case (quiet_modify f r)
  have "i_OrgGUID (f i) = i_OrgGUID i" for i
    using quiet_modify(2) [of i] by (simp add: fixed_of_def)
  then have "calm b b'"
    using quiet_modify(1,4) lookup_ref [OF wf]
    by (auto simp: calm_def inst_view_modify_any [OF wf] inst_view_Some live_ref_def split: if_splits)
  then show ?thesis
    using that(1) by blast
next
  case (quiet_admit k req plan i)
  have "lookup b k = None"
    using quiet_admit(2) by (simp add: provision_admitted_def)
  then show ?thesis
    using that(2) [OF quiet_admit(2,4,5)] quiet_admit(1) inst_view_insert [OF wf] by simp
qed (auto intro!: that(1) simp: calm_same, auto intro!: that(1) simp: calm_def inst_view_remove split: if_splits)

lemma admitted_quota:
  assumes "quota_inv b" and "broker_wf b'" and "config b' = config b"
    and "provision_admitted b k req plan" and "active i" and "i_OrgGUID i = q_OrganizationGUID req"
    and "inst_view b' = (inst_view b)(k \<mapsto> i)"
  shows "quota_inv b'"
proof -
  have wf: "broker_wf b"
    using assms(1) by (simp add: quota_inv_def)
  have "inst_view b k = None"
    using assms(4) by (simp add: provision_admitted_def)
  note t = store.tally_view_ins [OF wf this assms(7)]
  have "countInstances b' = Suc (countInstances b)"
    "countInstancesByOrg b' org = countInstancesByOrg b org + (if org = q_OrganizationGUID req then 1 else 0)" for org
    using t assms(5,6) by (auto simp: countInstances_tally countInstancesByOrg_tally wf assms(2))
  then show ?thesis
    using assms(1-4) by (auto simp: quota_inv_def provision_admitted_def)
qed

lemma quiet_quota:
  assumes "quota_inv b" and "quiet_micro b b'"
  shows "quota_inv b'"
proof -
  have wf: "broker_wf b" "broker_wf b'" and c: "config b' = config b"
    using assms quiet_micro_micro micro_wf micro_config by (auto simp: quota_inv_def)
  from assms(2) wf(1) show ?thesis
  proof (cases rule: quiet_micro_calm)
    case 1
    then show ?thesis
      using assms(1) calm_counts [OF wf 1] wf(2) unfolding quota_inv_def c by (meson of_nat_mono order_trans)
  next
    case (2 k req plan i)
    then show ?thesis
      using admitted_quota [OF assms(1) wf(2) c] by blast
  qed
qed

definition quiet_inv :: "pc list \<times> Broker \<Rightarrow> bool" where
  "quiet_inv s \<longleftrightarrow> quota_inv (snd s) \<and> list_all (relies (snd s)) (fst s)"

lemma relies_mono:
  assumes "\<And>r. live_ref b r \<Longrightarrow> live_ref b' r" and "relies b p"
  shows "relies b' p"
  using assms by (cases "(b, p)" rule: relies.cases) (auto simp: list_all_iff)

interpretation quiet_run: invariant_system "conc_step e" quiet_inv for e :: "('w, 'e) ext_scheme"
proof unfold_locales
  fix s s' assume inv: "quiet_inv s" and "conc_step e s s'"
  then show "quiet_inv s'"
  proof (elim conc_stepE)
    fix j ts b w p b' w'
    assume s: "s = (ts, b)" "s' = (ts[j := p], b')" "j < length ts"
      and a: "advance e (ts ! j) b w = (p, b', w')"
    have "quota_inv b" "list_all (relies b) ts"
      using inv by (simp_all add: quiet_inv_def s)
    then have q: "quiet_micro b b'" "relies b' p"
      using advance_quiet [OF _ _ a] s(3) by (auto simp: quota_inv_def list_all_length)
    have "list_all (relies b') ts"
      using \<open>list_all (relies b) ts\<close> relies_mono [OF quiet_micro_live [OF q(1)]] by (auto simp: list_all_iff)
    then have "list_all (relies b') (ts[j := p])"
      using q(2) by (auto simp: list_all_iff dest!: set_update_subset_insert [THEN subsetD])
    then show ?thesis
      using quiet_quota [OF \<open>quota_inv b\<close> q(1)] by (simp add: quiet_inv_def s)
  qed
qed

section \<open>Schedules\<close>

lemma advance_run:
  assumes "j < length ts" and "advance e (ts ! j) b w = (p, b', w')"
  shows "(conc_step e)\<^sup>*\<^sup>* (ts, b) (ts[j := p], b')"
proof (cases "finished (ts ! j)")
  case True
  then have "p = ts ! j" "b' = b"
    using assms(2) by (cases "ts ! j"; simp)+
  then show ?thesis
    by simp
next
  case False
  then show ?thesis
    using conc_stepI [OF assms(1) False assms(2)] by blast
qed

lemma run_alone_run:
  "j < length ts \<Longrightarrow> run_alone n e (ts ! j) b w = (p, b', w') \<Longrightarrow> (conc_step e)\<^sup>*\<^sup>* (ts, b) (ts[j := p], b')"
proof (induction n arbitrary: ts b w)
  case 0
  then have "ts[j := p] = ts" "b' = b"
    by (auto intro: list_update_id)
  then show ?case
    by simp
next
  case (Suc n)
  obtain p1 b1 w1 where a: "advance e (ts ! j) b w = (p1, b1, w1)"
    by (metis prod_cases3)
  have "(conc_step e)\<^sup>*\<^sup>* (ts[j := p1], b1) (ts[j := p1, j := p], b')"
    using Suc.prems a by (intro Suc.IH) simp_all
  with advance_run [OF Suc.prems(1) a] show ?case
    by simp
qed

lemma completes_run:
  "j < length ts \<Longrightarrow> completes e (ts ! j) b w (resp, b', w') \<Longrightarrow> (conc_step e)\<^sup>*\<^sup>* (ts, b) (ts[j := Done resp], b')"
  by (auto simp: completes_def intro: run_alone_run)

lemma serve_run:
  "j < length ts \<Longrightarrow> ts ! j = Start req \<Longrightarrow> serve e req b w = (resp, b', w') \<Longrightarrow>
   (conc_step e)\<^sup>*\<^sup>* (ts, b) (ts[j := Done resp], b')"
  using completes_run [of j ts e b w] completes_serve [of e req b w] by simp

lemma Provision_lookup_other:
  assumes "Provision e k' acc body b w = (resp, b', w')" and "k \<noteq> k'"
  shows "lookup b' k = lookup b k"
proof -
  have ins: "lookup (snd (insert_instance k' i b)) k = lookup b k" for i b
    using assms(2) by (simp add: lookup_def)
  have del: "lookup (remove_instance k' b) k = lookup b k" for b
    using assms(2) by (simp add: lookup_def remove_instance_def)
  have res: "lookup b1 k = lookup b k" if "Provision_reserve e k' req b w = (res, b1, w1)" for req b w res b1 w1
    using that ins by (cases rule: Provision_reserve_cases) simp_all
  have sso: "lookup b1 k = lookup b k" if "Provision_sso e k' r b w = (b1, w1)" for r b w b1 w1
    using that by (auto simp: Provision_sso_def Let_def split: if_splits option.splits prod.splits)
  have dep: "lookup b1 k = lookup b k" if "deploy_instance e r b w = (res, b1, w1)" for r b w res b1 w1
    using deploy_instance_effect(1) [OF that] by auto
  have fin: "lookup b1 k = lookup b k" if "Provision_finish e k' r h res b w = (resp, b1, w1)" for r h res b w resp b1 w1
  proof (cases res)
    case (Deployed t)
    then have "b1 = fst (saveState e (modify r (set_task t) b) w)"
      using that by (auto simp: Provision_finish_def split: prod.splits)
    then show ?thesis
      by simp
  qed (use that del in \<open>auto simp: Provision_finish_def\<close>)
  show ?thesis
    using assms(1) by (auto simp: Provision_def split: if_splits option.splits prod.splits sum.splits
      dest!: res sso dep fin)
qed

lemma Deprovision_lookup_kept:
  assumes "Deprovision e k acc b w = (resp, b', w')" and "lookup b k = Some r"
  shows "lookup b' k = Some r"
proof -
  have del: "lookup b1 k = lookup b k" if "Deprovision_delete e k n b w = (res, b1, w1)" for n b w res b1 w1
    using that by (elim Deprovision_delete_effect) simp
  have fin: "lookup b1 k = lookup b k"
    if "Deprovision_finish e k r (modify r f) resp rbw = (resp', b1, w1)" "rbw = (res, b, w)" for f resp rbw resp' b1 w1 res b w
  proof (cases res)
    case (Inr t)
    then have "b1 = fst (saveState e (modify r (set_task t) b) w)"
      using that by (auto simp: Deprovision_finish_def split: prod.splits)
    then show ?thesis
      by simp
  qed (use that in \<open>auto simp: Deprovision_finish_def\<close>)
  show ?thesis
  proof (cases "acc = ''true'' \<and> i_State (deref b r) \<noteq> ''deprovisioning''")
    case True
    let ?i = "deref b r"
    obtain res b1 w1 where d: "Deprovision_delete e k (i_DeploymentName ?i) (modify r (set_state ''deprovisioning'') b) w = (res, b1, w1)"
      by (metis prod_cases3)
    have "Deprovision_finish e k r (modify r (set_state (i_State ?i))) (writeJSON 500 (Error ''Deprovision failed''))
        (Deprovision_delete e k (i_DeploymentName ?i) (modify r (set_state ''deprovisioning'') b) w) = (resp, b', w')"
      using assms True by (simp add: Deprovision_def Deprovision_mark_def Let_def)
    from fin [OF this d] del [OF d] assms(2) show ?thesis
      by simp
  qed (use assms in \<open>auto simp: Deprovision_def Deprovision_mark_def Let_def split: if_splits\<close>)
qed

text \<open>What two goroutines do one after the other.\<close>

lemma two_first: "advance e p b w = (p', b', w') \<Longrightarrow> (conc_step e)\<^sup>*\<^sup>* ([p, q], b) ([p', q], b')"
  using advance_run [of 0 "[p, q]"] by simp

lemma two_second: "serve e req b w = (resp, b', w') \<Longrightarrow> (conc_step e)\<^sup>*\<^sup>* ([p, Start req], b) ([p, Done resp], b')"
  using serve_run [of 1 "[p, Start req]" req] by simp

lemma two_save: "\<exists>b'. (conc_step e)\<^sup>*\<^sup>* ([SaveCopy resp, q], b) ([Done resp, q], b') \<and> inst_view b' = inst_view b
    \<and> config b' = config b \<and> broker_wf b' = broker_wf b"
proof -
  obtain b' w' where s: "saveState e b undefined = (b', w')"
    by fastforce
  then have "completes e (SaveCopy resp) b undefined (resp, b', w')"
    by (intro completes_save) simp
  then have "(conc_step e)\<^sup>*\<^sup>* ([SaveCopy resp, q], b) ([Done resp, q], b')"
    using completes_run [of 0 "[SaveCopy resp, q]" e b] by simp
  then show ?thesis
    using s saveState_view [of e b undefined] saveState_wf [of e b undefined] saveState_frame(1) [of e b undefined] by auto
qed

section \<open>A sample environment\<close>

text \<open>A Director that accepts deployments, accepts or refuses deletions, and reports every task as done.\<close>

definition busy_ext :: "bool \<Rightarrow> script ext" where
  "busy_ext deletes = script_ext\<lparr>httpDo := (\<lambda>req w.
     (if r_Method req = ''GET'' then json_reply 200 done_members
      else if r_Method req = ''DELETE'' \<and> \<not> deletes then Inl ''connection refused''
      else found_at ''/tasks/7'', w))\<rparr>"

text \<open>The clients of sample brokers reach their Director without a token.\<close>

definition sample_client :: "Client \<Rightarrow> bool" where
  "sample_client c \<longleftrightarrow> client_ident c = (''https://10.0.0.6:25555'', ''admin'', ''secret'', [])"

lemma sample_client_broker: "sample_client (director sample_broker)"
  by code_simp

lemma sample_urls:
  "urlOK script_ext (''https://10.0.0.6:25555'' @ ''/deployments'')"
  "urlOK script_ext (''https://10.0.0.6:25555'' @ ''/tasks/'' @ itoa 7)"
  by (code_simp, code_simp)

lemma busy_do:
  assumes "sample_client c" and "urlOK script_ext (r_URL req)"
  shows "authorized_do (busy_ext d) c req w =
    (case (if r_Method req = ''GET'' then json_reply 200 done_members
       else if r_Method req = ''DELETE'' \<and> \<not> d then Inl ''connection refused'' else found_at ''/tasks/7'') of
       Inl err \<Rightarrow> (Inl (SendFailed err), c, w) | Inr resp \<Rightarrow> (Inr resp, c, w))"
  using assms by (simp add: authorized_do_def setAuth_def sample_client_def client_ident_def busy_ext_def script_ext_def)

lemma busy_accepts: "sample_client c \<Longrightarrow> director_accepts (busy_ext d) c"
  using busy_do [of c "deploy_request c _" d] sample_urls(1)
  by (auto simp: director_accepts_def Deploy_def deploy_request_def sample_client_def client_ident_def found_at_def task_seven)

lemma busy_refuses: "sample_client c \<Longrightarrow> \<exists>err c' w'. DeleteDeployment (busy_ext False) c n w = (Inl err, c', w')"
  by (simp add: DeleteDeployment_def authorized_do_def setAuth_def delete_request_def sample_client_def client_ident_def
      busy_ext_def)

lemma busy_done: "sample_client c \<Longrightarrow> task_state (busy_ext d) c w 7 = ''done''"
proof -
  assume c: "sample_client c"
  then show ?thesis
    using busy_do [OF c, of "task_request c 7" d w] sample_urls(2) c
    by (simp add: task_state_def TaskStatus_def task_request_def json_reply_def done_decoded sample_client_def client_ident_def)
qed

lemma busy_files: "fst (writeFile (busy_ext d) w) = Written" "fst (renameOK (busy_ext d) w)"
  by (simp_all add: busy_ext_def script_ext_def)

section \<open>Properties\<close>



text \<open>A run of two requests in which the first is answered and the second is still to begin.\<close>

definition sample_requests :: "request list" where
  "sample_requests = [ReqProvision ''inst-1'' ''true'' (Some sample_request), ReqUnbind]"

lemma sample_conc_run:
  obtains ts b where "(conc_step accepting_ext)\<^sup>*\<^sup>* (map Start sample_requests, sample_broker) (ts, b)"
    "inst_view b ''inst-1'' \<noteq> None"
proof -
  obtain resp b w where eq: "Provision accepting_ext ''inst-1'' ''true'' (Some sample_request) sample_broker
      (script_start []) = (resp, b, w)" and st: "status resp = 202"
    by (rule sample_provisioned)
  have "(conc_step accepting_ext)\<^sup>*\<^sup>* (map Start sample_requests, sample_broker) ([Done resp, Start ReqUnbind], b)"
    using serve_run [of 0 "map Start sample_requests" "hd sample_requests"] eq by (simp add: sample_requests_def)
  moreover have "inst_view b ''inst-1'' \<noteq> None"
    using sample_broker_wf eq
  proof (cases rule: Provision_effect)
    case refused
    then show ?thesis
      using st by auto
  qed (simp del: inst_view_None)
  ultimately show ?thesis
    by (rule that)
qed




text \<open>
  A failed deletion breaks the quotas: with an organisation at its limit, a deletion that the
  Director refuses frees the place of the instance for as long as the call lasts; a request that is
  accepted in the meantime and the restored instance together exceed the limit.
\<close>

theorem failed_deletion_exceeds_quota:
  assumes wf: "broker_wf b" and k: "lookup b k = Some r" "active (heap b ! r)" "k \<noteq> k'"
    and org: "i_OrgGUID (heap b ! r) = q_OrganizationGUID req"
    and limit: "int (countInstancesByOrg b (q_OrganizationGUID req)) = c_MaxInstancesPerOrg (config b)"
    and acc: "Provision e k' ''true'' (Some req) (modify r (set_state ''deprovisioning'') b) w = (resp, b1, w1)"
      "status resp = 202"
    and ref: "Deprovision_delete e k (i_DeploymentName (heap b ! r)) b1 v = (Inl err, b2, v')"
  shows "\<exists>b' resp'. (conc_step e)\<^sup>*\<^sup>* (map Start [ReqDeprovision k ''true'', ReqProvision k' ''true'' (Some req)], b)
      ([Done resp', Done resp], b') \<and> status resp' = 500
    \<and> int (countInstancesByOrg b' (q_OrganizationGUID req)) = c_MaxInstancesPerOrg (config b') + 1"
proof -
  let ?i = "heap b ! r" and ?b = "modify r (set_state ''deprovisioning'') b" and ?org = "q_OrganizationGUID req"
  let ?st = "i_State ?i" and ?n = "i_DeploymentName ?i"
  have rl: "r < length (heap b)" and ok: "instance_ok k ?i"
    using lookup_ref [OF wf k(1)] lookup_ok [OF wf k(1)] by simp_all
  have wfb: "broker_wf ?b"
    using wf k(1) ok by (simp add: broker_wf_modify [where k = k] record_ok)
  have m: "advance e (Start (ReqDeprovision k ''true'')) b w = (DeprovisionDelete k r (Some ?st) ?n, ?b, w)"
    using k(1,2) by (simp add: Deprovision_mark_def active_def deref_def Let_def)
  have p: "serve e (ReqProvision k' ''true'' (Some req)) ?b w = (resp, b1, w1)"
    using acc(1) by simp
  have d: "advance e (DeprovisionDelete k r (Some ?st) ?n) b1 v = (DeprovisionFinish k r (Some ?st) (Inl err), b2, v')"
    using ref by simp
  let ?b' = "modify r (set_state ?st) b2" and ?resp = "writeJSON 500 (Error ''Deprovision failed'')"
  have f: "advance e (DeprovisionFinish k r (Some ?st) (Inl err)) b2 v' = (Done ?resp, ?b', v')"
    by simp
  obtain d where b2: "b2 = b1\<lparr>director := d\<rparr>"
    using ref by (rule Deprovision_delete_effect)
  obtain j where j: "inst_view ?b' = (inst_view b)(k' \<mapsto> j)" "inst_view b k' = None" "broker_wf ?b'" "config b1 = config b"
      "active j" "i_OrgGUID j = ?org"
    using wfb acc(1)
  proof (cases rule: Provision_effect)
    case (accepted req' plan tb sb j t)
    have l: "lookup b2 k = Some r" "broker_wf b2"
      using Provision_lookup_other [OF acc(1)] k accepted(8) by (simp_all add: b2)
    have v: "inst_view b1 = (inst_view b)(k \<mapsto> set_state ''deprovisioning'' ?i, k' \<mapsto> set_task t j)"
      using accepted(7) inst_view_modify [OF wf k(1)] by simp
    have "heap b2 ! r = set_state ''deprovisioning'' ?i"
      using fun_cong [OF v, of k] l(1) k(3) by (simp add: b2 inst_view_def deref_def)
    then have i: "set_state ?st (heap b2 ! r) = ?i"
      by (simp add: set_state_idem)
    have "inst_view ?b' = (inst_view b)(k' \<mapsto> set_task t j)"
      using v k(1,3) unfolding inst_view_modify [OF l(2,1)] i by (auto simp: b2 inst_view_def deref_def fun_eq_iff)
    moreover have "broker_wf ?b'"
      using broker_wf_modify [OF l(2,1)] i ok by simp
    ultimately show ?thesis
      using that [of "set_task t j"] accepted same_but_sso_fields [OF accepted(5)]
      by (simp add: provision_admitted_def active_def broker_frame_def)
  qed (use acc(2) in auto)
  have "countInstancesByOrg ?b' ?org = Suc (countInstancesByOrg b ?org)"
    using store.tally_view_ins [OF wf j(2,1)] j(5,6) by (simp add: countInstancesByOrg_tally wf j(3))
  moreover have "(conc_step e)\<^sup>*\<^sup>* (map Start [ReqDeprovision k ''true'', ReqProvision k' ''true'' (Some req)], b)
      ([Done ?resp, Done resp], ?b')"
    using rtranclp_trans [OF rtranclp_trans [OF two_first [OF m] two_second [OF p]]
        rtranclp_trans [OF two_first [OF d] two_first [OF f]]] by simp
  ultimately show ?thesis
    using limit j(4) by (intro exI [of _ ?b'] exI [of _ ?resp]) (simp add: b2 writeJSON_def)
qed

theorem failed_deletion_exceeds_quota_witness:
  "\<exists>b' resp' resp. (conc_step (busy_ext False))\<^sup>*\<^sup>*
      (map Start [ReqDeprovision ''a-1'' ''true'', ReqProvision ''inst-1'' ''true'' (Some sample_request)],
       sample_with ''a-1'' ''ready'' 7) ([Done resp', Done resp], b')
    \<and> int (countInstancesByOrg b' ''org'') = c_MaxInstancesPerOrg (config b') + 1"
proof -
  let ?e = "busy_ext False" and ?b = "sample_with ''a-1'' ''ready'' 7"
  let ?m = "modify 0 (set_state ''deprovisioning'') ?b"
  have adm: "provision_admitted ?m ''inst-1'' sample_request (hd defaultPlans)"
    by code_simp
  have r: "lookup ?b ''a-1'' = Some 0" "active (heap ?b ! 0)" "i_OrgGUID (heap ?b ! 0) = q_OrganizationGUID sample_request"
    "int (countInstancesByOrg ?b (q_OrganizationGUID sample_request)) = c_MaxInstancesPerOrg (config ?b)"
    by code_simp+
  have wf: "broker_wf ?m"
    using r(1) broker_wf_modify [OF sample_with_props(1) r(1), of "set_state ''deprovisioning''"]
      lookup_ok [OF sample_with_props(1) r(1)] by (simp add: record_ok)
  have c: "sample_client (director ?m)"
    using sample_client_broker by (simp add: sample_with_def)
  obtain resp b1 w1 where p: "Provision ?e ''inst-1'' ''true'' (Some sample_request) ?m (script_start []) = (resp, b1, w1)"
    by (metis prod_cases3)
  have st: "status resp = 202"
    using Provision_accepts [OF sample_id adm busy_accepts [OF c, of False], of "script_start []"] p by simp
  have "broker_frame ?m b1"
    using Provision_lives [OF wf p] by (simp add: lives_def)
  then have c1: "sample_client (director b1)"
    using c by (simp add: broker_frame_def sample_client_def)
  have "\<exists>err b2 v'. Deprovision_delete ?e ''a-1'' (i_DeploymentName (heap ?b ! 0)) b1 (script_start []) = (Inl err, b2, v')"
    using busy_refuses [OF c1, of "i_DeploymentName (heap ?b ! 0)" "deleteUAAClient ?e ''a-1'' b1 (script_start [])"]
    by (auto simp: Deprovision_delete_def)
  then show ?thesis
    using failed_deletion_exceeds_quota [OF sample_with_props(1) r(1,2) _ r(3,4) p st] by (fastforce simp: sample_request_def)
qed

text \<open>
  C39. A poll can undo a deletion: a poll that has read the state \<^verbatim>\<open>provisioning\<close> and finds its task
  done makes the instance ready even though its deletion was accepted in the meantime. From then on
  every poll reports success without dropping the record, and the instance can be bound while it is
  being deleted.
\<close>

theorem poll_revives_deleted:
  assumes wf: "broker_wf b" and i: "inst_view b k = Some i" "i_State i = ''provisioning''" "i_BoshTaskID i \<noteq> 0"
    and del: "Deprovision e k ''true'' b w = (resp, b1, w1)" "status resp = 202"
    and task: "task_state e (director b1) v (i_BoshTaskID i) = ''done''"
  shows "\<exists>b' resp'. (conc_step e)\<^sup>*\<^sup>* (map Start [ReqLastOperation k, ReqDeprovision k ''true''], b)
      ([Done resp', Done resp], b')
    \<and> (\<exists>j. inst_view b' k = Some j \<and> i_State j = ''ready'')
    \<and> (\<forall>e' u. LastOperation e' k b' u = (last_op ''succeeded'' ''Agent ready'', b', u))
    \<and> status (Bind k b') = 201"
proof -
  obtain r where r: "lookup b k = Some r" "i = heap b ! r"
    using i(1) by (auto simp: inst_view_Some)
  let ?t = "i_BoshTaskID i"
  have a: "advance e (Start (ReqLastOperation k)) b w = (PollAsk k r ''provisioning'' ?t, b, w)"
    using r i(2,3) by (simp add: deref_def)
  have d: "serve e (ReqDeprovision k ''true'') b w = (resp, b1, w1)"
    using del(1) by simp
  obtain d' v' where p: "advance e (PollAsk k r ''provisioning'' ?t) b1 v = (PollSettle k r ''provisioning'' ''done'', b1\<lparr>director := d'\<rparr>, v')"
    using task by (cases "TaskStatus e (director b1) ?t v") (auto simp: poll_task_def task_state_def)
  let ?b2 = "modify r (set_state ''ready'') (b1\<lparr>director := d'\<rparr>)" and ?resp = "last_op ''succeeded'' ''Agent ready''"
  have s: "advance e (PollSettle k r ''provisioning'' ''done'') (b1\<lparr>director := d'\<rparr>) v' = (SaveCopy ?resp, ?b2, v')"
    by (simp add: settle_poll_def)
  have l: "lookup b1 k = Some r" and wf1: "broker_wf b1"
    using Deprovision_lookup_kept [OF del(1) r(1)] Deprovision_lives [OF wf del(1)] by (simp_all add: lives_def)
  obtain b' where b': "(conc_step e)\<^sup>*\<^sup>* ([SaveCopy ?resp, Done resp], ?b2) ([Done ?resp, Done resp], b')"
    "inst_view b' = inst_view ?b2"
    using two_save by blast
  have "inst_view b' k = Some (set_state ''ready'' (heap b1 ! r))"
    using b'(2) l wf1 by (simp add: inst_view_modify [where k = k])
  then obtain q where q: "lookup b' k = Some q" "deref b' q = set_state ''ready'' (heap b1 ! r)"
    by (auto simp: inst_view_def)
  then have "LastOperation e' k b' u = (?resp, b', u)" "status (Bind k b') = 201" for e' :: "('x, 'y) ext_scheme" and u
    by (simp_all add: LastOperation_def Bind_def writeJSON_def)
  moreover have "(conc_step e)\<^sup>*\<^sup>* (map Start [ReqLastOperation k, ReqDeprovision k ''true''], b) ([Done ?resp, Done resp], b')"
    using rtranclp_trans [OF rtranclp_trans [OF two_first [OF a] two_second [OF d]]
        rtranclp_trans [OF rtranclp_trans [OF two_first [OF p] two_first [OF s]] b'(1)]] by simp
  ultimately show ?thesis
    using q by (intro exI [of _ b'] exI [of _ ?resp]) (auto simp: inst_view_def)
qed

theorem poll_revives_deleted_witness:
  "\<exists>b' resp' resp. (conc_step (busy_ext True))\<^sup>*\<^sup>*
      (map Start [ReqLastOperation ''a-1'', ReqDeprovision ''a-1'' ''true''], sample_with ''a-1'' ''provisioning'' 7)
      ([Done resp', Done resp], b') \<and> status resp = 202 \<and> status (Bind ''a-1'' b') = 201"
proof -
  let ?b = "sample_with ''a-1'' ''provisioning'' 7"
  let ?m = "Deprovision_mark ''a-1'' ?b" and ?n = "deploymentNameFor ''a-1''"
  have "fst ?m = Marked 0 ''provisioning'' ?n"
    "fst (Deprovision_delete (busy_ext True) ''a-1'' ?n (snd ?m) (script_start [])) = Inr 7"
    by code_simp+
  then obtain b w where eq: "Deprovision (busy_ext True) ''a-1'' ''true'' ?b (script_start []) = (deprovision_accepted ''a-1'', b, w)"
    by (rule Deprovision_accepts)
  have "sample_client (director b)"
    using Deprovision_lives [OF sample_with_props(1) eq] sample_client_broker
    by (simp add: lives_def broker_frame_def sample_client_def sample_with_def)
  then have "task_state (busy_ext True) (director b) (script_start []) (i_BoshTaskID (sample_instance ''a-1'' ''provisioning'' 7)) = ''done''"
    using busy_done by (simp add: sample_instance_def)
  from poll_revives_deleted [OF sample_with_props(1) _ _ _ eq _ this] show ?thesis
    by (fastforce simp: sample_instance_def response_defs)
qed

text \<open>
  Saves are not serialised: a goroutine that has copied the map before another request changes
  it, and renames its file after that request was answered, leaves a state file without the change.
  The instance the other request created is known to the broker, and unknown to a broker restarted
  on the file, although all requests were answered and no call to the file system failed.
\<close>

theorem stale_save_forgets:
  assumes run: "(conc_step e)\<^sup>*\<^sup>* (map Start [req0, req], b0) ([SaveCopy resp0, Start req], b)"
    and b0: "broker_wf b0" "c_StateDir (config b0) \<noteq> []" "all_known b0"
    and saveable: "\<forall>k i. inst_view b k = Some i \<longrightarrow> utf8_valid k \<and> instance_saveable i"
    and fs: "\<forall>w. fst (writeFile e w) = Written" "\<forall>w. fst (renameOK e w)"
    and new: "serve e req b w = (resp, b1, w1)" "inst_view b k = None" "inst_view b1 k = Some i"
  shows "\<exists>b'. (conc_step e)\<^sup>*\<^sup>* (map Start [req0, req], b0) ([Done resp0, Done resp], b')
    \<and> inst_view b' k = Some i
    \<and> (\<exists>b2. New (config b') d (files b') = Some b2 \<and> inst_view b2 k = None)"
proof -
  let ?d = "json_MarshalIndent (marshal_instances b)" and ?p = "state_path (config b0)"
  have inv: "broker_wf b" "config b = config b0" "all_known b"
    using goroutines.inv_run [OF run run_inv_start [OF b0(1,3)]] by (simp_all add: run_inv_def)
  have c1: "config b1 = config b"
    using goroutines.inv_run [OF two_second [OF new(1), of "Done resp"], of b] inv(1,3) by (simp add: run_inv_def)
  have copy: "advance e (SaveCopy resp0) b w = (SaveWrite resp0 ?d, b, w)"
    using b0(2) inv(2) by (simp add: save_copy_def)
  let ?b2 = "b1\<lparr>files := (files b1)(?p @ ''.tmp'' := Some ?d)\<rparr>"
  obtain w2 where "writeFile e w1 = (Written, w2)"
    using fs(1) by (metis prod.collapse)
  then have wr: "advance e (SaveWrite resp0 ?d) b1 w1 = (SaveRename resp0, ?b2, w2)"
    using inv(2) c1 by (simp add: save_write_def)
  let ?b3 = "?b2\<lparr>files := (files ?b2)(?p @ ''.tmp'' := None, ?p := Some ?d)\<rparr>"
  obtain w3 where "renameOK e w2 = (True, w3)"
    using fs(2) by (metis prod.collapse)
  then have rn: "advance e (SaveRename resp0) ?b2 w2 = (Done resp0, ?b3, w3)"
    using inv(2) c1 by (simp add: save_rename_def Let_def)
  have "(conc_step e)\<^sup>*\<^sup>* ([SaveCopy resp0, Start req], b) ([Done resp0, Done resp], ?b3)"
    using rtranclp_trans [OF rtranclp_trans [OF two_first [OF copy] two_second [OF new(1)]]
        rtranclp_trans [OF two_first [OF wr] two_first [OF rn]]] .
  moreover have "\<exists>b'. New (config ?b3) d (files ?b3) = Some b' \<and> inst_view b' = inst_view b \<and> broker_wf b'"
    unfolding New_def Let_def using b0(2) inv(2) c1
    by (intro loadState_saved [OF inv(1) saveable]) (simp_all add: state_path_def)
  ultimately show ?thesis
    using rtranclp_trans [OF run] new(2,3) by (intro exI [of _ ?b3]) (auto simp del: inst_view_None)
qed

lemma poll_to_save:
  assumes "lookup b k = Some r" and "i_State (heap b ! r) = ''provisioning''" and "i_BoshTaskID (heap b ! r) = t" "t \<noteq> 0"
    and "task_state e (director b) v t = ''done''"
  obtains d where "(conc_step e)\<^sup>*\<^sup>* ([Start (ReqLastOperation k), q], b)
      ([SaveCopy (last_op ''succeeded'' ''Agent ready''), q], modify r (set_state ''ready'') (b\<lparr>director := d\<rparr>))"
    "client_ident d = client_ident (director b)"
proof -
  have a: "advance e (Start (ReqLastOperation k)) b v = (PollAsk k r ''provisioning'' t, b, v)"
    using assms(1-4) by (simp add: deref_def)
  obtain d v' where p: "advance e (PollAsk k r ''provisioning'' t) b v = (PollSettle k r ''provisioning'' ''done'', b\<lparr>director := d\<rparr>, v')"
    "client_ident d = client_ident (director b)"
    using assms(5) director.status_ident [of e "director b" t v]
    by (cases "TaskStatus e (director b) t v") (auto simp: poll_task_def task_state_def)
  have s: "advance e (PollSettle k r ''provisioning'' ''done'') (b\<lparr>director := d\<rparr>) v' =
      (SaveCopy (last_op ''succeeded'' ''Agent ready''), modify r (set_state ''ready'') (b\<lparr>director := d\<rparr>), v')"
    by (simp add: settle_poll_def)
  show ?thesis
    using that [OF rtranclp_trans [OF rtranclp_trans [OF two_first [OF a] two_first [OF p(1)]] two_first [OF s]] p(2)] .
qed

theorem stale_save_forgets_witness:
  "\<exists>req b' resp resp'. (conc_step (busy_ext True))\<^sup>*\<^sup>*
      (map Start [ReqLastOperation ''a-1'', ReqProvision ''inst-1'' ''true'' (Some req)], sample_with ''a-1'' ''provisioning'' 7)
      ([Done resp', Done resp], b') \<and> status resp = 202 \<and> inst_view b' ''inst-1'' \<noteq> None
    \<and> (\<exists>b2. New (config b') (director sample_broker) (files b') = Some b2 \<and> inst_view b2 ''inst-1'' = None)"
proof -
  let ?e = "busy_ext True" and ?s = "sample_with ''a-1'' ''provisioning'' 7"
    and ?req = "sample_request\<lparr>q_OrganizationGUID := ''org2''\<rparr>"
  have r: "lookup ?s ''a-1'' = Some 0" "i_State (heap ?s ! 0) = ''provisioning''" "i_BoshTaskID (heap ?s ! 0) = 7"
    by code_simp+
  have ak: "all_known ?s"
    by (simp add: all_known_def sample_with_def known_def) (simp add: sample_broker_def sample_instance_def)
  have c0: "sample_client (director ?s)"
    using sample_client_broker by (simp add: sample_with_def)
  let ?b = "\<lambda>d. modify 0 (set_state ''ready'') (?s\<lparr>director := d\<rparr>)"
  obtain d where run: "(conc_step ?e)\<^sup>*\<^sup>* ([Start (ReqLastOperation ''a-1''), Start (ReqProvision ''inst-1'' ''true'' (Some ?req))], ?s)
      ([SaveCopy (last_op ''succeeded'' ''Agent ready''), Start (ReqProvision ''inst-1'' ''true'' (Some ?req))], ?b d)"
    and d: "client_ident d = client_ident (director ?s)"
    using poll_to_save [OF r _ busy_done [OF c0]] by auto
  have v: "inst_view (?b d) = [''a-1'' \<mapsto> set_state ''ready'' (sample_instance ''a-1'' ''provisioning'' 7)]" and wf: "broker_wf (?b d)"
    using inst_view_modify [of "?s\<lparr>director := d\<rparr>" "''a-1''" 0] broker_wf_modify [of "?s\<lparr>director := d\<rparr>" "''a-1''" 0] r(1)
      lookup_ok [OF sample_with_props(1) r(1)]
    by (auto simp: record_ok) (simp add: sample_with_def sample_broker_def)
  have adm: "provision_admitted (?b d) ''inst-1'' ?req (hd defaultPlans)"
    by code_simp
  obtain resp b1 w1 where p: "Provision ?e ''inst-1'' ''true'' (Some ?req) (?b d) (script_start []) = (resp, b1, w1)"
    by (metis prod_cases3)
  have st: "status resp = 202"
    using Provision_accepts [OF sample_id adm busy_accepts, of True "script_start []"] p c0 d by (simp add: sample_client_def)
  obtain i where i: "inst_view b1 ''inst-1'' = Some i"
    using wf p
  proof (cases rule: Provision_effect)
    case refused
    then show ?thesis
      using st by auto
  qed (use that in simp)
  have "utf8_valid ''a-1'' \<and> instance_saveable (set_state ''ready'' (sample_instance ''a-1'' ''provisioning'' 7))"
    by code_simp
  then have "\<exists>b'. (conc_step ?e)\<^sup>*\<^sup>* (map Start [ReqLastOperation ''a-1'', ReqProvision ''inst-1'' ''true'' (Some ?req)], ?s)
      ([Done (last_op ''succeeded'' ''Agent ready''), Done resp], b') \<and> inst_view b' ''inst-1'' = Some i
    \<and> (\<exists>b2. New (config b') (director sample_broker) (files b') = Some b2 \<and> inst_view b2 ''inst-1'' = None)"
    using run wf i v p busy_files ak by (intro stale_save_forgets [where b = "?b d" and w = "script_start []"]) (auto split: if_splits)
  then show ?thesis
    using st by (auto simp del: inst_view_None)
qed

end
