(* ===== verification/State_File.thy ===== *)
theory State_File
  imports Persistence Transition
begin

text \<open>
  The state file at the level of system calls. \<open>saveState\<close> of \<open>Persistence\<close> is one step; here
  \<^verbatim>\<open>os.WriteFile\<close> opens and truncates the temporary file, writes it in one or more pieces through the
  descriptor it got, and \<^verbatim>\<open>os.Rename\<close> moves the name, on a disk whose names point to inodes. The steps
  of one save implement the single step, so that a process killed at any moment leaves a complete
  state file; two saves at once share the temporary file and can leave a file that is no document.
\<close>

section \<open>Model\<close>

record disk =
  dir :: "string \<Rightarrow> nat option"
  inodes :: "bytes list"

definition disk_view :: "disk \<Rightarrow> file_system" where
  "disk_view d p = map_option (\<lambda>i. inodes d ! i) (dir d p)"

text \<open>\<^verbatim>\<open>open\<close> with \<^verbatim>\<open>O_WRONLY|O_CREATE|O_TRUNC\<close>: the inode behind the descriptor.\<close>

definition open_trunc :: "string \<Rightarrow> disk \<Rightarrow> nat \<times> disk" where
  "open_trunc p d =
    (case dir d p of
       Some i \<Rightarrow> (i, d\<lparr>inodes := (inodes d)[i := []]\<rparr>)
     | None \<Rightarrow> (length (inodes d), d\<lparr>dir := (dir d)(p \<mapsto> length (inodes d)), inodes := inodes d @ [[]]\<rparr>))"

text \<open>\<^verbatim>\<open>write\<close> at the offset of the descriptor; a gap is filled with zero bytes.\<close>

definition overwrite :: "nat \<Rightarrow> bytes \<Rightarrow> bytes \<Rightarrow> bytes" where
  "overwrite off chunk c =
     take off c @ replicate (off - length c) (CHR 0x00) @ chunk @ drop (off + length chunk) c"

definition write_at :: "nat \<Rightarrow> nat \<Rightarrow> bytes \<Rightarrow> disk \<Rightarrow> disk" where
  "write_at i off chunk d = d\<lparr>inodes := (inodes d)[i := overwrite off chunk (inodes d ! i)]\<rparr>"

definition rename_file :: "string \<Rightarrow> string \<Rightarrow> disk \<Rightarrow> disk" where
  "rename_file old new d =
    (case dir d old of
       None \<Rightarrow> d
     | Some i \<Rightarrow> d\<lparr>dir := (dir d)(old := None, new \<mapsto> i)\<rparr>)"

text \<open>
  A goroutine inside \<^verbatim>\<open>saveState\<close> after it has copied the map: before the open, with a descriptor, its
  offset and what is left to write, before the rename, and done. Every call may fail; the function
  then returns.
\<close>

datatype saver = Opening bytes | Writing nat nat bytes | Renaming | Finished

inductive saver_step :: "string \<Rightarrow> saver \<times> disk \<Rightarrow> saver \<times> disk \<Rightarrow> bool" for path where
  opened: "open_trunc (path @ ''.tmp'') d = (i, d') \<Longrightarrow> saver_step path (Opening data, d) (Writing i 0 data, d')"
| open_failed: "saver_step path (Opening data, d) (Finished, d)"
| wrote: "chunk \<noteq> [] \<Longrightarrow>
    saver_step path (Writing i off (chunk @ rest), d) (Writing i (off + length chunk) rest, write_at i off chunk d)"
| write_failed: "saver_step path (Writing i off rest, d) (Finished, d)"
| closed: "saver_step path (Writing i off [], d) (Renaming, d)"
| renamed: "saver_step path (Renaming, d) (Finished, rename_file (path @ ''.tmp'') path d)"
| rename_failed: "saver_step path (Renaming, d) (Finished, d)"

inductive_cases saver_stepE: "saver_step path (s, d) sd'"

text \<open>Any number of saves in any order.\<close>

inductive savers_step :: "string \<Rightarrow> saver list \<times> disk \<Rightarrow> saver list \<times> disk \<Rightarrow> bool" for path where
  one: "n < length ss \<Longrightarrow> saver_step path (ss ! n, d) (s', d') \<Longrightarrow>
    savers_step path (ss, d) (ss[n := s'], d')"

section \<open>One save\<close>

text \<open>Names point to inodes that exist, no two to the same one.\<close>

definition disk_ok :: "disk \<Rightarrow> bool" where
  "disk_ok d \<longleftrightarrow> (\<forall>p i. dir d p = Some i \<longrightarrow> i < length (inodes d))
     \<and> (\<forall>p q i. dir d p = Some i \<longrightarrow> dir d q = Some i \<longrightarrow> p = q)"

lemma overwrite_append: "overwrite (length c) chunk c = c @ chunk"
  by (simp add: overwrite_def)

lemma disk_view_set:
  "disk_ok d \<Longrightarrow> dir d p = Some i \<Longrightarrow> disk_view (d\<lparr>inodes := (inodes d)[i := c]\<rparr>) = (disk_view d)(p \<mapsto> c)"
  by (auto simp: disk_view_def disk_ok_def fun_eq_iff nth_list_update split: option.split intro!: map_option_cong)

lemma disk_ok_set: "disk_ok d \<Longrightarrow> disk_ok (d\<lparr>inodes := (inodes d)[i := c]\<rparr>)"
  by (simp add: disk_ok_def)

lemma open_trunc_effect:
  assumes "disk_ok d" and "open_trunc p d = (i, d')"
  shows "disk_ok d'" "dir d' p = Some i" "disk_view d' = (disk_view d)(p \<mapsto> [])"
proof (atomize (full), cases "dir d p")
  case None
  then have "i = length (inodes d)" "d' = d\<lparr>dir := (dir d)(p \<mapsto> length (inodes d)), inodes := inodes d @ [[]]\<rparr>"
    using assms(2) by (auto simp: open_trunc_def)
  moreover have "dir d q \<noteq> Some (length (inodes d))" for q
    using assms(1) by (auto simp: disk_ok_def)
  moreover have "(inodes d @ [[]]) ! j = inodes d ! j" if "dir d q = Some j" for q j
    using assms(1) that by (auto simp: disk_ok_def nth_append)
  ultimately show "disk_ok d' \<and> dir d' p = Some i \<and> disk_view d' = (disk_view d)(p \<mapsto> [])"
    using assms(1) by (auto simp: disk_ok_def disk_view_def fun_eq_iff less_Suc_eq split: option.split intro!: map_option_cong)
next
  case (Some j)
  then have "i = j" "d' = d\<lparr>inodes := (inodes d)[j := []]\<rparr>"
    using assms(2) by (auto simp: open_trunc_def)
  then show "disk_ok d' \<and> dir d' p = Some i \<and> disk_view d' = (disk_view d)(p \<mapsto> [])"
    using assms(1) Some by (simp add: disk_ok_set disk_view_set)
qed

lemma rename_file_effect:
  assumes "disk_ok d" and "disk_view d old = Some c" and "old \<noteq> new"
  shows "disk_view (rename_file old new d) = (disk_view d)(old := None, new \<mapsto> c)"
  using assms by (auto simp: rename_file_def disk_view_def fun_eq_iff)

text \<open>What the files look like at every point of a save that nobody interferes with.\<close>

definition save_inv :: "string \<Rightarrow> bytes \<Rightarrow> disk \<Rightarrow> saver \<times> disk \<Rightarrow> bool" where
  "save_inv path data d0 = (\<lambda>(s, d). let tmp = path @ ''.tmp'' in
    case s of
      Opening x \<Rightarrow> x = data \<and> d = d0
    | Writing i off rest \<Rightarrow> disk_ok d \<and> dir d tmp = Some i
        \<and> (\<exists>pre. data = pre @ rest \<and> off = length pre \<and> disk_view d = (disk_view d0)(tmp \<mapsto> pre))
    | Renaming \<Rightarrow> disk_ok d \<and> disk_view d = (disk_view d0)(tmp \<mapsto> data)
    | Finished \<Rightarrow> disk_view d \<in> insert (disk_view d0) {(disk_view d0)(tmp \<mapsto> pre) |pre. prefix pre data}
        \<union> {(disk_view d0)(tmp := None, path \<mapsto> data)})"

lemma save_inv_step:
  assumes ok: "disk_ok d0" and inv: "save_inv path data d0 sd" and step: "saver_step path sd sd'"
  shows "save_inv path data d0 sd'"
  using step inv
proof cases
  case (opened d i d' x)
  then show ?thesis
    using inv ok open_trunc_effect [of d "path @ ''.tmp''" i d'] by (simp add: save_inv_def)
next
  case (wrote chunk i off rest d)
  then obtain pre where pre: "disk_ok d" "dir d (path @ ''.tmp'') = Some i" "data = pre @ chunk @ rest" "off = length pre"
    "disk_view d = (disk_view d0)(path @ ''.tmp'' \<mapsto> pre)"
    using inv by (auto simp: save_inv_def Let_def)
  have "inodes d ! i = pre"
    using pre(2) fun_cong [OF pre(5), of "path @ ''.tmp''"] by (simp add: disk_view_def)
  then have "write_at i off chunk d = d\<lparr>inodes := (inodes d)[i := pre @ chunk]\<rparr>"
    using pre(4) by (simp add: write_at_def overwrite_append)
  then show ?thesis
    using wrote pre by (auto simp: save_inv_def Let_def disk_ok_set disk_view_set intro!: exI [of _ "pre @ chunk"])
next
  case (renamed d)
  then show ?thesis
    using inv rename_file_effect [of d "path @ ''.tmp''" data path] by (auto simp: save_inv_def Let_def)
qed (use inv in \<open>auto simp: save_inv_def Let_def\<close>)

interpretation one_save: invariant_system "saver_step path" "\<lambda>sd. disk_ok d0 \<and> save_inv path data d0 sd"
  for path data d0
  by unfold_locales (auto intro: save_inv_step)

lemma save_inv_run:
  assumes "disk_ok d" and "(saver_step path)\<^sup>*\<^sup>* (Opening data, d) sd"
  shows "save_inv path data d sd"
  using one_save.inv_run [OF assms(2), of d data] assms(1) by (simp add: save_inv_def)

lemma save_inv_view:
  assumes "save_inv path data d0 (s, d)"
  shows "disk_view d path = disk_view d0 path \<or> disk_view d path = Some data"
    and "q \<noteq> path \<Longrightarrow> q \<noteq> path @ ''.tmp'' \<Longrightarrow> disk_view d q = disk_view d0 q"
  using assms by (auto simp: save_inv_def Let_def split: saver.splits)

abbreviation state_text_of :: "Broker \<Rightarrow> bytes" where
  "state_text_of b \<equiv> json_MarshalIndent (marshal_instances b)"

section \<open>Two saves\<close>

lemma saver_first:
  "saver_step path (s, d) (s', d') \<Longrightarrow> savers_step path ([s, t], d) ([s', t], d')"
  using savers_step.one [of 0 "[s, t]" path d s' d'] by simp

lemma saver_second:
  "saver_step path (t, d) (t', d') \<Longrightarrow> savers_step path ([s, t], d) ([s, t'], d')"
  using savers_step.one [of 1 "[s, t]" path d t' d'] by simp

text \<open>
  Both goroutines open the temporary file before either has written; the second one writes and
  renames, and the first one then writes through its descriptor into what has become the state file.
\<close>

lemma torn_run:
  assumes "x \<noteq> []" and "y \<noteq> []" and ok: "disk_ok d"
  obtains d' where "(savers_step path)\<^sup>*\<^sup>* ([Opening x, Opening y], d) ([Finished, Finished], d')"
    "disk_view d' path = Some (x @ drop (length x) y)"
proof -
  let ?tmp = "path @ ''.tmp''"
  obtain i d1 where o1: "open_trunc ?tmp d = (i, d1)"
    by fastforce
  note e1 = open_trunc_effect [OF ok o1]
  define d2 where "d2 = d1\<lparr>inodes := (inodes d1)[i := []]\<rparr>"
  have o2: "open_trunc ?tmp d1 = (i, d2)"
    using e1(2) by (simp add: open_trunc_def d2_def)
  define d3 where "d3 = write_at i 0 y d2"
  define d4 where "d4 = rename_file ?tmp path d3"
  define d5 where "d5 = write_at i 0 x d4"
  have i: "i < length (inodes d1)"
    using e1(1,2) by (auto simp: disk_ok_def)
  have d4: "d4 = d1\<lparr>dir := (dir d1)(?tmp := None, path \<mapsto> i), inodes := (inodes d1)[i := y]\<rparr>"
    using i e1(2) by (simp add: d4_def d3_def d2_def write_at_def rename_file_def overwrite_def)
  have "disk_view d5 path = Some (x @ drop (length x) y)" and gone: "dir d5 ?tmp = None"
    using i by (simp_all add: d5_def d4 write_at_def disk_view_def overwrite_def)
  moreover have "(savers_step path)\<^sup>*\<^sup>* ([Opening x, Opening y], d) ([Finished, Finished], d5)"
  proof -
    note [trans] = rtranclp.rtrancl_into_rtrancl
    have "(savers_step path)\<^sup>*\<^sup>* ([Opening x, Opening y], d) ([Writing i 0 x, Opening y], d1)"
      by (rule r_into_rtranclp, rule saver_first, rule opened, rule o1)
    also have "savers_step path \<dots> ([Writing i 0 x, Writing i 0 y], d2)"
      by (rule saver_second [OF opened [OF o2]])
    also have "savers_step path \<dots> ([Writing i 0 x, Writing i (length y) []], d3)"
      using saver_second [OF wrote [OF assms(2), of path i 0 "[]" d2]] by (simp add: d3_def)
    also have "savers_step path \<dots> ([Writing i 0 x, Renaming], d3)"
      by (rule saver_second [OF closed])
    also have "savers_step path \<dots> ([Writing i 0 x, Finished], d4)"
      unfolding d4_def by (rule saver_second [OF renamed])
    also have "savers_step path \<dots> ([Writing i (length x) [], Finished], d5)"
      using saver_first [OF wrote [OF assms(1), of path i 0 "[]" d4]] by (simp add: d5_def)
    also have "savers_step path \<dots> ([Renaming, Finished], d5)"
      by (rule saver_first [OF closed])
    also have "savers_step path \<dots> ([Finished, Finished], rename_file ?tmp path d5)"
      by (rule saver_first [OF renamed])
    finally show ?thesis
      using gone by (simp add: rename_file_def)
  qed
  ultimately show ?thesis
    using that by blast
qed

text \<open>A document followed by the end of a longer one is none.\<close>

lemma torn_text:
  assumes "length (state_text_of a) < length (state_text_of b)"
  shows "json_Unmarshal (state_text_of a @ drop (length (state_text_of a)) (state_text_of b)) = None"
proof -
  let ?r = "drop (length (state_text_of a)) (state_text_of b)"
  obtain ms where a: "marshal_instances a = JObj ms"
    by (simp add: marshal_instances_def)
  have "last (state_text_of b) = CHR ''}''"
    by (simp add: marshal_instances_def json_MarshalIndent_def)
  then have "last ?r = CHR ''}''" "?r \<noteq> []"
    using assms by (simp_all add: last_drop)
  then have "CHR ''}'' \<in> set ?r"
    using last_in_set [of ?r] by simp
  moreover have "\<not> json_space (CHR ''}'')"
    by (simp add: json_space_def)
  ultimately have "\<not> list_all json_space ?r"
    by (auto simp: list_all_iff)
  then show ?thesis
    using json_object_trailing [OF layouts(2), of ms ?r 0] marshal_instances_fits [of a] a
    by (simp add: json_MarshalIndent_def)
qed

text \<open>A disk without files, and one that holds one file.\<close>

definition empty_disk :: disk where
  "empty_disk = \<lparr>dir = (\<lambda>_. None), inodes = []\<rparr>"

definition one_file :: "string \<Rightarrow> bytes \<Rightarrow> disk" where
  "one_file p c = \<lparr>dir = [p \<mapsto> 0], inodes = [c]\<rparr>"

lemma sample_disks: "disk_ok empty_disk" "disk_ok (one_file p c)" "disk_view empty_disk = Map.empty" "disk_view (one_file p c) p = Some c"
  by (auto simp: empty_disk_def one_file_def disk_ok_def disk_view_def fun_eq_iff split: if_splits)

lemma sample_texts: "state_text_of sample_broker = ''{}''" "length (state_text_of (sample_with k st t)) > 2"
proof -
  have "instances (sample_with k st t) \<noteq> []"
    by (simp add: sample_with_def sample_broker_def insert_instance_def alloc_def)
  then have "sort_key fst (instances (sample_with k st t)) \<noteq> []"
    by (metis length_0_conv length_sort)
  then show "length (state_text_of (sample_with k st t)) > 2"
    by (simp add: marshal_instances_def json_MarshalIndent_def)
qed (simp add: marshal_instances_def sample_broker_def json_MarshalIndent_def)

section \<open>Properties\<close>

text \<open>
  C16. The system calls of a save implement \<^verbatim>\<open>saveState\<close> as the broker's model has it: whatever call
  fails and in however many pieces the file is written, a save that is not interfered with leaves
  the files in a state that the single step allows.
\<close>

theorem save_steps_refine:
  assumes "disk_ok d" and "files b = disk_view d" and "c_StateDir (config b) \<noteq> []"
    and "(saver_step (state_path (config b)))\<^sup>*\<^sup>* (Opening (state_text_of b), d) (Finished, d')"
  shows "\<exists>(e :: script ext) w. files (fst (saveState e b w)) = disk_view d'"
proof -
  let ?path = "state_path (config b)" and ?w = "script_start []"
  let ?fail = "\<lambda>part. script_ext\<lparr>writeFile := (\<lambda>w. (WriteFailed part, w))\<rparr>"
  have "save_inv ?path (state_text_of b) d (Finished, d')"
    by (rule save_inv_run [OF assms(1,4)])
  then consider "disk_view d' = files b" | pre where "disk_view d' = (files b)(?path @ ''.tmp'' \<mapsto> pre)"
    | "disk_view d' = (files b)(?path @ ''.tmp'' := None, ?path \<mapsto> state_text_of b)"
    unfolding save_inv_def assms(2) Let_def by auto
  then show ?thesis
  proof cases
    case 1
    then have "files (fst (saveState (?fail (files b (?path @ ''.tmp''))) b ?w)) = disk_view d'"
      using assms(3) by (simp add: saveState_def)
    then show ?thesis
      by blast
  next
    case 2
    then have "files (fst (saveState (?fail (Some pre)) b ?w)) = disk_view d'"
      using assms(3) by (simp add: saveState_def)
    then show ?thesis
      by blast
  next
    case 3
    then have "files (fst (saveState script_ext b ?w)) = disk_view d'"
      using assms(3) by (simp add: saveState_def script_ext_def Let_def)
    then show ?thesis
      by blast
  qed
qed

theorem save_steps_refine_witness:
  "\<exists>(e :: script ext) w. files (fst (saveState e sample_broker w)) (state_path sample_config) = Some ''{}''"
proof -
  let ?p = "state_path sample_config"
  let ?d1 = "one_file (?p @ ''.tmp'') []" and ?d2 = "one_file (?p @ ''.tmp'') ''{}''"
  have "saver_step ?p (Opening ''{}'', empty_disk) (Writing 0 0 ''{}'', ?d1)"
    by (rule opened) (simp add: open_trunc_def empty_disk_def one_file_def)
  moreover have "saver_step ?p (Writing 0 0 ''{}'', ?d1) (Writing 0 (Suc (Suc 0)) [], ?d2)"
    using wrote [of "''{}''" ?p 0 0 "[]" ?d1] by (simp add: write_at_def one_file_def overwrite_def)
  moreover have "saver_step ?p (Writing 0 (Suc (Suc 0)) [], ?d2) (Renaming, ?d2)"
    by (rule closed)
  moreover have "saver_step ?p (Renaming, ?d2) (Finished, rename_file (?p @ ''.tmp'') ?p ?d2)"
    by (rule renamed)
  ultimately have "(saver_step ?p)\<^sup>*\<^sup>* (Opening ''{}'', empty_disk) (Finished, rename_file (?p @ ''.tmp'') ?p ?d2)"
    by (meson converse_rtranclp_into_rtranclp rtranclp.rtrancl_refl)
  then have "\<exists>(e :: script ext) w. files (fst (saveState e sample_broker w)) = disk_view (rename_file (?p @ ''.tmp'') ?p ?d2)"
    using save_steps_refine [OF sample_disks(1), of sample_broker] sample_disks(3) sample_texts(1)
    by (simp add: sample_broker_def)
  then show ?thesis
    by (metis rename_file_effect [OF sample_disks(2) sample_disks(4)] fun_upd_same self_append_conv list.distinct(1))
qed

text \<open>
  C17. A crash in the middle of a save loses nothing: if the process is killed after any number of
  system calls, the next broker starts with the map that was saved before or with the one that was
  being saved, complete in either case.
\<close>

theorem crash_during_save:
  assumes "disk_ok d" and "c_StateDir (config b) \<noteq> []" and "c_StateDir cfg = c_StateDir (config b)"
    and "broker_wf a" "\<forall>k i. inst_view a k = Some i \<longrightarrow> utf8_valid k \<and> instance_saveable i"
    and "broker_wf b" "\<forall>k i. inst_view b k = Some i \<longrightarrow> utf8_valid k \<and> instance_saveable i"
    and "disk_view d (state_path (config b)) = Some (state_text_of a)"
    and "(saver_step (state_path (config b)))\<^sup>*\<^sup>* (Opening (state_text_of b), d) (s, d')"
  shows "\<exists>b'. New cfg c (disk_view d') = Some b' \<and> broker_wf b' \<and> (inst_view b' = inst_view a \<or> inst_view b' = inst_view b)"
proof -
  have "disk_view d' (state_path (config b)) \<in> {Some (state_text_of a), Some (state_text_of b)}"
    using save_inv_view(1) [OF save_inv_run [OF assms(1,9)]] assms(8) by auto
  moreover have "\<exists>b'. New cfg c (disk_view d') = Some b' \<and> inst_view b' = inst_view x \<and> broker_wf b'"
    if "disk_view d' (state_path (config b)) = Some (state_text_of x)" "broker_wf x"
      "\<forall>k i. inst_view x k = Some i \<longrightarrow> utf8_valid k \<and> instance_saveable i" for x
    unfolding New_def Let_def using that assms(2,3)
    by (intro loadState_saved [OF that(2,3)]) (simp_all add: state_path_def)
  ultimately show ?thesis
    using assms(4-7) by blast
qed

theorem crash_during_save_witness:
  "\<exists>d' b'. (saver_step (state_path sample_config))\<^sup>*\<^sup>*
       (Opening (state_text_of (sample_with ''a-1'' ''ready'' 7)), one_file (state_path sample_config) ''{}'') (Writing 1 0
       (state_text_of (sample_with ''a-1'' ''ready'' 7)), d')
     \<and> New sample_config (director sample_broker) (disk_view d') = Some b' \<and> broker_wf b'"
proof -
  let ?b = "sample_with ''a-1'' ''ready'' 7" and ?p = "state_path sample_config"
  let ?d = "one_file ?p ''{}''"
  have ok: "utf8_valid ''a-1'' \<and> instance_saveable (sample_instance ''a-1'' ''ready'' 7)"
    by code_simp
  obtain d' where "open_trunc (?p @ ''.tmp'') ?d = (1, d')"
    by (simp add: open_trunc_def one_file_def)
  then have run: "(saver_step ?p)\<^sup>*\<^sup>* (Opening (state_text_of ?b), ?d) (Writing 1 0 (state_text_of ?b), d')"
    by (intro r_into_rtranclp opened)
  have "\<exists>b'. New sample_config (director sample_broker) (disk_view d') = Some b' \<and> broker_wf b'
      \<and> (inst_view b' = inst_view sample_broker \<or> inst_view b' = inst_view ?b)"
    using run ok sample_disks(2,4) by (intro crash_during_save [of ?d ?b sample_config sample_broker])
      (auto simp: sample_broker_wf sample_broker_view sample_texts split: if_splits)
  then show ?thesis
    using run by blast
qed

text \<open>
  C37. Two saves at once can lose every instance: both open the one temporary file, one of them renames
  it, and the other then writes its shorter document over the beginning of the state file. What
  remains is no JSON document, both saves return, and a broker started on it knows no instance.
\<close>

theorem torn_save_loses_instances:
  assumes "disk_ok d" and "c_StateDir (config b) \<noteq> []" and "c_StateDir cfg = c_StateDir (config b)"
    and "length (state_text_of a) < length (state_text_of b)"
  shows "\<exists>d' b'. (savers_step (state_path (config b)))\<^sup>*\<^sup>*
        ([Opening (state_text_of a), Opening (state_text_of b)], d) ([Finished, Finished], d')
      \<and> New cfg c (disk_view d') = Some b' \<and> inst_view b' = Map.empty"
proof -
  have ne: "state_text_of x \<noteq> []" for x
    by (simp add: marshal_instances_def json_MarshalIndent_def)
  obtain d' where d': "(savers_step (state_path (config b)))\<^sup>*\<^sup>*
        ([Opening (state_text_of a), Opening (state_text_of b)], d) ([Finished, Finished], d')"
      "disk_view d' (state_path (config b)) = Some (state_text_of a @ drop (length (state_text_of a)) (state_text_of b))"
    by (rule torn_run [OF ne ne assms(1)])
  have "\<exists>b'. New cfg c (disk_view d') = Some b' \<and> inst_view b' = Map.empty"
    using assms(2,3) d'(2) torn_text [OF assms(4)]
    by (auto simp: New_def Let_def loadState_def state_path_def inst_view_def lookup_def)
  then show ?thesis
    using d'(1) by blast
qed

theorem torn_save_loses_instances_witness:
  "\<exists>d' b'. (savers_step (state_path sample_config))\<^sup>*\<^sup>*
        ([Opening ''{}'', Opening (state_text_of (sample_with ''a-1'' ''ready'' 7))], empty_disk) ([Finished, Finished], d')
      \<and> New sample_config (director sample_broker) (disk_view d') = Some b' \<and> inst_view b' = Map.empty"
proof -
  have "length (state_text_of sample_broker) < length (state_text_of (sample_with ''a-1'' ''ready'' 7))"
    using sample_texts(1) sample_texts(2) [of "''a-1''" "''ready''" 7] by (simp add: numeral_2_eq_2)
  then show ?thesis
    using torn_save_loses_instances [OF sample_disks(1), of "sample_with ''a-1'' ''ready'' 7" sample_config sample_broker
        "director sample_broker"] sample_texts(1) by simp
qed

end
