(* ===== verification/Durability.thy ===== *)
theory Durability
  imports Interleaving State_File
begin

text \<open>
  What a broker that is started again knows. Requests served one after the other, on a disk that takes
  the writes, keep the state file in step with the map of instances, with one exception: an update that
  fails changes the map and saves nothing. Goroutines in any interleaving leave the file, at every
  moment, as the complete picture of some earlier moment of the run.
\<close>

section \<open>Which requests save\<close>

text \<open>The broker is what a save returned, or the files were left alone.\<close>

definition saved :: "('w, 'e) ext_scheme \<Rightarrow> Broker \<Rightarrow> bool" where
  "saved e b \<longleftrightarrow> (\<exists>b1 w1. b = fst (saveState e b1 w1))"

lemma savedI [intro]: "saveState e b1 w1 = (b, w) \<Longrightarrow> saved e b"
  by (metis saved_def fst_conv)

lemma deploy_instance_files: "deploy_instance e r b w = (res, b', w') \<Longrightarrow> files b' = files b"
  by (auto simp: deploy_instance_def split: prod.splits sum.splits)

lemma Provision_sso_files: "Provision_sso e k r b w = (b', w') \<Longrightarrow> files b' = files b"
  by (auto simp: Provision_sso_def Let_def split: if_splits option.splits prod.splits)

lemma Provision_reserve_files: "Provision_reserve e k req b w = (res, b', w') \<Longrightarrow> files b' = files b"
  by (cases rule: Provision_reserve_cases) auto

lemma Provision_reserve_refuses: "Provision_reserve e k req b w = (Inl resp, b', w') \<Longrightarrow> status resp \<noteq> 202"
  by (cases rule: Provision_reserve_cases) auto

lemma Update_prepare_refuses:
  "Update_prepare e k req b w = (Inl resp, b', w') \<Longrightarrow> b' = b \<and> status resp = 400"
  by (auto simp: Update_prepare_def Let_def response_defs insert_instance_def alloc_def
      split: if_splits option.splits prod.splits)

lemmas files_kept = deploy_instance_files Provision_sso_files Provision_reserve_files

lemma Provision_saves:
  "Provision e k acc body b w = (resp, b', w') \<Longrightarrow> saved e b' \<or> status resp \<noteq> 202 \<and> files b' = files b"
  by (auto simp: Provision_def Provision_finish_def response_defs
      split: if_splits option.splits prod.splits sum.splits deploy_result.splits
      dest: Provision_reserve_refuses) (metis files_kept)+

lemma Deprovision_delete_files: "Deprovision_delete e k n b w = (res, b', w') \<Longrightarrow> files b' = files b"
  by (rule Deprovision_delete_effect) auto

lemma Deprovision_mark_files: "Deprovision_mark k b = (m, b') \<Longrightarrow> files b' = files b"
  by (auto simp: Deprovision_mark_def Let_def split_def insert_instance_def alloc_def split: option.splits if_splits)

lemma Deprovision_saves:
  assumes "Deprovision e k acc b w = (resp, b', w')"
  shows "saved e b' \<or> b' = b \<or> status resp \<noteq> 202 \<and> files b' = files b"
proof -
  obtain m b1 where m: "Deprovision_mark k b = (m, b1)"
    by fastforce
  have "b1 = b" if "m = UnderWay"
    using m that by (auto simp: Deprovision_mark_def Let_def split: option.splits if_splits prod.splits)
  then show ?thesis
    using assms Deprovision_mark_files [OF m] m
    by (auto simp: Deprovision_def Deprovision_finish_def response_defs
        split: if_splits prod.splits sum.splits deprovision_mark.splits dest!: Deprovision_delete_files)
qed

lemma Update_saves:
  "Update e k acc body b w = (resp, b', w') \<Longrightarrow> saved e b' \<or> b' = b \<or> status resp = 500"
  by (auto simp: Update_def Update_finish_def response_defs
      split: if_splits option.splits prod.splits sum.splits deploy_result.splits dest!: Update_prepare_refuses)

lemma LastOperation_saves:
  "LastOperation e k b w = (resp, b', w') \<Longrightarrow> saved e b' \<or> files b' = files b \<and> inst_view b' = inst_view b"
  by (auto simp: LastOperation_def settle_with_def poll_task_def Let_def split: if_splits option.splits prod.splits)

lemma AdminUpgrade_saves: "AdminUpgrade e body b w = (resp, b', w') \<Longrightarrow> saved e b' \<or> b' = b"
  by (auto simp: AdminUpgrade_def Let_def split: option.splits if_splits prod.splits)

lemma AdminUpgradeStatus_saves: "AdminUpgradeStatus e b w = (resp, b', w') \<Longrightarrow> saved e b'"
  by (auto simp: AdminUpgradeStatus_def Let_def split: prod.splits)

text \<open>An update that was answered with an error after it had changed the map.\<close>

fun failed_update :: "request \<Rightarrow> response \<Rightarrow> bool" where
  "failed_update (ReqUpdate k acc body) resp = (status resp = 500)"
| "failed_update _ resp = False"

lemma serve_saves:
  assumes wf: "broker_wf b" and eq: "serve e req b w = (resp, b', w')" and ok: "\<not> failed_update req resp"
  shows "saved e b' \<or> files b' = files b \<and> inst_view b' = inst_view b"
proof (cases req)
  case (ReqProvision k acc body)
  then show ?thesis
    using Provision_saves [of e k acc body b w] Provision_effect [OF wf, of e k acc body w] eq by force
next
  case (ReqDeprovision k acc)
  then have d: "Deprovision e k acc b w = (resp, b', w')"
    using eq by simp
  have "inst_view b' = inst_view b" if "status resp \<noteq> 202"
    using wf d that by (cases rule: Deprovision_effect) (auto simp: response_defs)
  then show ?thesis
    using Deprovision_saves [OF d] by blast
next
  case (ReqUpdate k acc body)
  then show ?thesis
    using Update_saves [of e k acc body b w] eq ok by auto
next
  case (ReqLastOperation k)
  then show ?thesis
    using LastOperation_saves [of e k b w] eq by auto
next
  case (ReqUpgrade body)
  then show ?thesis
    using AdminUpgrade_saves [of e body b w] eq by auto
next
  case ReqUpgradeStatus
  then show ?thesis
    using AdminUpgradeStatus_saves [of e b w] eq by auto
qed (use eq in \<open>auto split: prod.splits\<close>)

section \<open>One request after the other\<close>

text \<open>
  The file holds the map: there is none and no instance either, or it is the text of a broker with
  these very instances.
\<close>

definition on_file :: "Broker \<Rightarrow> bool" where
  "on_file b \<longleftrightarrow>
    (case files b (state_path (config b)) of
       None \<Rightarrow> inst_view b = Map.empty
     | Some t \<Rightarrow> \<exists>x. broker_wf x \<and> inst_view x = inst_view b \<and> t = state_text_of x)"

definition disk_works :: "('w, 'e) ext_scheme \<Rightarrow> bool" where
  "disk_works e \<longleftrightarrow> (\<forall>w. fst (writeFile e w) = Written \<and> fst (renameOK e w))"

definition saveable :: "Broker \<Rightarrow> bool" where
  "saveable b \<longleftrightarrow> (\<forall>k i. inst_view b k = Some i \<longrightarrow> utf8_valid k \<and> instance_saveable i)"

lemma saved_text:
  assumes "saved e b" and "disk_works e" and "c_StateDir (config b) \<noteq> []"
  obtains x where "files b (state_path (config b)) = Some (state_text_of x)" "inst_view x = inst_view b" "broker_wf x = broker_wf b"
proof -
  obtain b1 w1 where b: "b = fst (saveState e b1 w1)"
    using assms(1) by (auto simp: saved_def)
  obtain w2 w3 where "writeFile e w1 = (Written, w2)" "renameOK e w2 = (True, w3)"
    using assms(2) by (metis disk_works_def prod.collapse)
  moreover have "c_StateDir (config b1) \<noteq> []"
    using assms(3) b by simp
  ultimately have "files b (state_path (config b1)) = Some (state_text_of b1)"
    by (simp add: b saveState_def Let_def)
  then show ?thesis
    using b that [of b1] by simp
qed

lemma saved_on_file:
  "saved e b \<Longrightarrow> disk_works e \<Longrightarrow> broker_wf b \<Longrightarrow> c_StateDir (config b) \<noteq> [] \<Longrightarrow> on_file b"
  by (erule saved_text) (auto simp: on_file_def)

lemma text_restart:
  assumes "files b (state_path (config b)) = Some (state_text_of x)" and "broker_wf x" and "saveable x"
    and "c_StateDir (config b) \<noteq> []" and "c_StateDir cfg = c_StateDir (config b)"
  shows "\<exists>b'. New cfg c (files b) = Some b' \<and> inst_view b' = inst_view x \<and> broker_wf b'"
  unfolding New_def Let_def using assms
  by (intro loadState_saved) (simp_all add: state_path_def saveable_def)

lemma no_file_restart:
  assumes "files b (state_path (config b)) = None" and "c_StateDir cfg = c_StateDir (config b)"
  shows "\<exists>b'. New cfg c (files b) = Some b' \<and> inst_view b' = Map.empty \<and> broker_wf b'"
  using assms by (simp add: New_def Let_def loadState_def state_path_def inst_view_def lookup_def broker_wf_def fun_eq_iff)

lemma on_file_restart:
  assumes "on_file b" and "saveable b" and "c_StateDir (config b) \<noteq> []" and "c_StateDir cfg = c_StateDir (config b)"
  shows "\<exists>b'. New cfg c (files b) = Some b' \<and> inst_view b' = inst_view b \<and> broker_wf b'"
proof (cases "files b (state_path (config b))")
  case None
  then show ?thesis
    using no_file_restart [OF None assms(4)] assms(1) by (simp add: on_file_def)
next
  case (Some t)
  then obtain x where x: "broker_wf x" "inst_view x = inst_view b" "files b (state_path (config b)) = Some (state_text_of x)"
    using assms(1) by (auto simp: on_file_def)
  then show ?thesis
    using text_restart [OF x(3,1) _ assms(3,4)] assms(2) by (simp add: saveable_def)
qed

text \<open>A request served by a process whose disk works, other than an update that fails.\<close>

definition durable_step :: "('w, 'e) ext_scheme \<Rightarrow> Broker \<Rightarrow> Broker \<Rightarrow> bool" where
  "durable_step e b b' \<longleftrightarrow> range_visits_once e \<and> disk_works e
     \<and> (\<exists>req w resp w'. serve e req b w = (resp, b', w') \<and> \<not> failed_update req resp)"

definition durable_inv :: "Broker \<Rightarrow> bool" where
  "durable_inv b \<longleftrightarrow> broker_wf b \<and> c_StateDir (config b) \<noteq> [] \<and> on_file b"

interpretation durable: invariant_system "durable_step e" durable_inv for e :: "('w, 'e) ext_scheme"
proof unfold_locales
  fix b b' assume inv: "durable_inv b" and step: "durable_step e b b'"
  obtain req w resp w' where s: "serve e req b w = (resp, b', w')" "\<not> failed_update req resp"
    and e: "range_visits_once e" "disk_works e"
    using step by (auto simp: durable_step_def)
  have wf: "broker_wf b" "broker_wf b'" and c: "config b' = config b" "c_StateDir (config b) \<noteq> []"
    using inv serve_lives [OF e(1) _ s(1)] by (auto simp: durable_inv_def lives_def broker_frame_def)
  have "on_file b'"
    using serve_saves [OF wf(1) s]
  proof
    assume "saved e b'"
    then show ?thesis
      by (rule saved_on_file) (use e(2) wf(2) c in simp_all)
  next
    assume "files b' = files b \<and> inst_view b' = inst_view b"
    then show ?thesis
      using inv c(1) by (auto simp: durable_inv_def on_file_def split: option.splits)
  qed
  then show "durable_inv b'"
    using wf c by (simp add: durable_inv_def)
qed

section \<open>Goroutines\<close>

text \<open>Saving is the only thing that touches the files, and its steps follow each other.\<close>

fun saving :: "pc \<Rightarrow> bool" where
  "saving (SaveWrite resp data) = True"
| "saving (SaveRename resp) = True"
| "saving _ = False"

lemma deploy_params_files: "deploy_params e ps b w = (res, b', w') \<Longrightarrow> files b' = files b"
  by (auto simp: deploy_params_def split: prod.splits sum.splits)

lemma poll_task_files: "poll_task e t b w = (st, b', w') \<Longrightarrow> files b' = files b"
  by (auto simp: poll_task_def split: prod.splits)

lemma Update_prepare_files: "Update_prepare e k req b w = (res, b', w') \<Longrightarrow> files b' = files b"
  by (auto simp: Update_prepare_def Let_def insert_instance_def alloc_def split: if_splits option.splits prod.splits)

lemma track_upgrade_files [simp]: "files (track_upgrade k t b) = files b"
  by (simp add: track_upgrade_def)

lemma update_instance_files [simp]: "files (update_instance k f b) = files b"
  by (simp add: update_instance_def split: option.splits)

lemma begin_request_files:
  "begin_request e req b w = (p, b', w') \<Longrightarrow> files b' = files b \<and> \<not> saving p"
  by (cases req) (auto simp: Let_def split: if_splits option.splits prod.splits sum.splits deprovision_mark.splits
      dest: Provision_reserve_files Deprovision_mark_files Update_prepare_files)

lemma advance_files:
  assumes "advance e p b w = (p', b', w')" and "\<not> saving p"
  shows "files b' = files b \<and> (saving p' \<longrightarrow> (\<exists>resp. p' = SaveWrite resp (state_text_of b)) \<and> b' = b)"
  using assms
  by (cases "(e, p, b, w)" rule: advance.cases)
    (auto simp: settle_poll_def save_copy_def split: if_splits prod.splits option.splits sum.splits deploy_result.splits
      dest: begin_request_files Provision_sso_files deploy_instance_files Deprovision_delete_files deploy_params_files poll_task_files)

text \<open>The brokers a run has passed through, and the texts a save of one of them writes.\<close>

definition past :: "('w, 'e) ext_scheme \<Rightarrow> pc list \<times> Broker \<Rightarrow> pc list \<times> Broker \<Rightarrow> Broker set" where
  "past e s0 s = {b. \<exists>ts. (conc_step e)\<^sup>*\<^sup>* s0 (ts, b) \<and> (conc_step e)\<^sup>*\<^sup>* (ts, b) s}"

definition picture :: "('w, 'e) ext_scheme \<Rightarrow> pc list \<times> Broker \<Rightarrow> pc list \<times> Broker \<Rightarrow> bytes \<Rightarrow> bool" where
  "picture e s0 s t \<longleftrightarrow> (\<exists>b\<in>past e s0 s. t = state_text_of b)"

lemma past_step: "conc_step e s s' \<Longrightarrow> b \<in> past e s0 s \<Longrightarrow> b \<in> past e s0 s'"
  by (auto simp: past_def intro: rtranclp.rtrancl_into_rtrancl)

lemma picture_step: "conc_step e s s' \<Longrightarrow> picture e s0 s t \<Longrightarrow> picture e s0 s' t"
  using past_step [of e s s'] unfolding picture_def by blast

lemma past_now: "(conc_step e)\<^sup>*\<^sup>* s0 (ts, b) \<Longrightarrow> b \<in> past e s0 (ts, b)"
  by (auto simp: past_def)

text \<open>
  What a goroutine inside a save holds, in a world whose writes succeed: the text it copied, and, once
  it has written, a temporary file that is gone or complete.
\<close>

fun holds :: "(bytes \<Rightarrow> bool) \<Rightarrow> Broker \<Rightarrow> pc \<Rightarrow> bool" where
  "holds P b (SaveWrite resp data) = P data"
| "holds P b (SaveRename resp) = (case files b (state_path (config b) @ ''.tmp'') of None \<Rightarrow> True | Some t \<Rightarrow> P t)"
| "holds P b _ = True"

definition file_inv :: "('w, 'e) ext_scheme \<Rightarrow> pc list \<times> Broker \<Rightarrow> pc list \<times> Broker \<Rightarrow> bool" where
  "file_inv e s0 s \<longleftrightarrow> (conc_step e)\<^sup>*\<^sup>* s0 s \<and> run_inv (snd s0) s \<and> (\<forall>w. fst (writeFile e w) = Written)
     \<and> list_all (holds (picture e s0 s) (snd s)) (fst s)
     \<and> (let path = state_path (config (snd s0)) in
        files (snd s) path = files (snd s0) path \<or> (\<exists>t. files (snd s) path = Some t \<and> picture e s0 s t))"

lemma holds_mono:
  "holds P b p \<Longrightarrow> config b' = config b \<Longrightarrow> (\<And>t. P t \<Longrightarrow> Q t) \<Longrightarrow>
   (case files b' (state_path (config b) @ ''.tmp'') of None \<Rightarrow> True | Some t \<Rightarrow> Q t) \<or> files b' = files b \<Longrightarrow>
   holds Q b' p"
  by (cases p) (auto split: option.splits)

lemma not_saving_holds [simp]: "\<not> saving p \<Longrightarrow> holds P b p"
  by (cases p) auto

lemma advance_holds:
  assumes a: "advance e p b w = (p', b', w')" and h: "holds P b p" and now: "P (state_text_of b)"
    and wr: "\<And>w. fst (writeFile e w) = Written" and c: "config b' = config b"
  defines "path \<equiv> state_path (config b)"
  shows "holds P b' p'"
    "files b' = files b \<or> (case files b' (path @ ''.tmp'') of None \<Rightarrow> True | Some t \<Rightarrow> P t)"
    "files b' path = files b path \<or> (\<exists>t. files b' path = Some t \<and> P t)"
proof -
  have "holds P b' p' \<and> (files b' = files b \<or> (case files b' (path @ ''.tmp'') of None \<Rightarrow> True | Some t \<Rightarrow> P t))
      \<and> (files b' path = files b path \<or> (\<exists>t. files b' path = Some t \<and> P t))"
  proof (cases "saving p")
    case False
    then show ?thesis
      using advance_files [OF a] now by (cases "saving p'") auto
  next
    case True
    then show ?thesis
    proof (cases p rule: saving.cases)
      case (1 resp data)
      then show ?thesis
        using a h wr [of w] by (cases "writeFile e w") (auto simp: save_write_def path_def Let_def)
    next
      case (2 resp)
      then show ?thesis
        using a h by (cases "renameOK e w") (auto simp: save_rename_def path_def Let_def split: if_splits option.splits)
    qed auto
  qed
  then show "holds P b' p'"
    "files b' = files b \<or> (case files b' (path @ ''.tmp'') of None \<Rightarrow> True | Some t \<Rightarrow> P t)"
    "files b' path = files b path \<or> (\<exists>t. files b' path = Some t \<and> P t)"
    by blast+
qed

interpretation pictures: invariant_system "conc_step e" "file_inv e s0" for e :: "('w, 'e) ext_scheme" and s0
proof unfold_locales
  fix s s' assume inv: "file_inv e s0 s" and step: "conc_step e s s'"
  have run: "(conc_step e)\<^sup>*\<^sup>* s0 s'" "run_inv (snd s0) s'"
    using inv step goroutines.inv_step [of "snd s0" s e s'] by (auto simp: file_inv_def intro: rtranclp.rtrancl_into_rtrancl)
  from step show "file_inv e s0 s'"
  proof (elim conc_stepE)
    fix j ts b w p b' w'
    assume st: "s = (ts, b)" "s' = (ts[j := p], b')" "j < length ts" and a: "advance e (ts ! j) b w = (p, b', w')"
    let ?P = "picture e s0 s" and ?Q = "picture e s0 s'"
    have c: "config b = config (snd s0)" "config b' = config b"
      using inv run(2) by (simp_all add: st file_inv_def run_inv_def)
    have wr: "\<And>w. fst (writeFile e w) = Written"
      using inv by (simp add: file_inv_def)
    have h: "holds ?P b (ts ! i)" if "i < length ts" for i
      using inv that by (simp add: st file_inv_def list_all_length)
    have "?P (state_text_of b)"
      using inv past_now [of e s0 ts b] unfolding st file_inv_def picture_def by blast
    note adv = advance_holds [OF a h [OF st(3)] this wr c(2)]
    have mono: "?Q t" if "?P t" for t
      using picture_step [OF step that] .
    have "holds ?Q b' (ts[j := p] ! i)" if "i < length ts" for i
    proof (cases "i = j")
      case True
      then show ?thesis
        using holds_mono [OF adv(1), of b' ?Q] mono that by simp
    next
      case False
      then show ?thesis
        using holds_mono [OF h [OF that] c(2), of ?Q] adv(2) mono by (auto split: option.splits)
    qed
    then have "list_all (holds ?Q b') (ts[j := p])"
      by (simp add: list_all_length)
    then show ?thesis
      using inv run wr adv(3) mono c by (auto simp: st file_inv_def Let_def)
  qed
qed

lemma file_inv_run:
  assumes "broker_wf b" and "all_known b" and "\<And>w. fst (writeFile e w) = Written"
    and "(conc_step e)\<^sup>*\<^sup>* (map Start reqs, b) (ts, b')"
  shows "file_inv e (map Start reqs, b) (ts, b')"
  by (rule pictures.inv_run [OF assms(4)]) (use assms(1-3) run_inv_start in \<open>simp add: file_inv_def list_all_iff\<close>)

lemma past_wf: "broker_wf b \<Longrightarrow> all_known b \<Longrightarrow> x \<in> past e (map Start reqs, b) s \<Longrightarrow> broker_wf x \<and> config x = config b"
  using goroutines.inv_run [OF _ run_inv_start, of e reqs b] by (auto simp: past_def run_inv_def)

text \<open>
  Wherever a run of goroutines ends, the state file is the one it began with or the picture of an
  earlier moment, and a broker started on that picture sees exactly that map.
\<close>

lemma restart_after_kill:
  assumes "broker_wf b" and "all_known b" and "c_StateDir (config b) \<noteq> []" and "\<And>w. fst (writeFile e w) = Written"
    and "(conc_step e)\<^sup>*\<^sup>* (map Start reqs, b) (ts, b')" and "c_StateDir cfg = c_StateDir (config b)"
    and "files b' (state_path cfg) \<noteq> files b (state_path cfg)"
  shows "\<exists>ts1 b1. (conc_step e)\<^sup>*\<^sup>* (map Start reqs, b) (ts1, b1) \<and> (conc_step e)\<^sup>*\<^sup>* (ts1, b1) (ts, b')
    \<and> files b' (state_path cfg) = Some (state_text_of b1)
    \<and> (saveable b1 \<longrightarrow> (\<exists>b''. New cfg c (files b') = Some b'' \<and> inst_view b'' = inst_view b1 \<and> broker_wf b''))"
proof -
  let ?s0 = "(map Start reqs, b)"
  have path: "state_path (config b) = state_path cfg"
    using assms(6) by (simp add: state_path_def)
  have inv: "file_inv e ?s0 (ts, b')"
    by (rule file_inv_run [OF assms(1,2,4,5)])
  then have c: "config b' = config b"
    by (simp add: file_inv_def run_inv_def)
  obtain b1 where b1: "b1 \<in> past e ?s0 (ts, b')" "files b' (state_path cfg) = Some (state_text_of b1)"
    using inv assms(7) by (auto simp: file_inv_def picture_def Let_def path)
  have "\<exists>b''. New cfg c (files b') = Some b'' \<and> inst_view b'' = inst_view b1 \<and> broker_wf b''" if "saveable b1"
    using text_restart [of b' b1 cfg] past_wf [OF assms(1,2) b1(1)] b1(2) that assms(3,6) c path by simp
  then show ?thesis
    using b1 by (auto simp: past_def)
qed

section \<open>Properties\<close>

text \<open>
  C13. A broker can be stopped between any two requests: as long as the disk takes the writes and no update
  fails, a process that is ended at any moment between requests and started again, with whatever other
  configuration but the same state directory, knows exactly the instances it knew, in the states they
  were in. This holds from the first start, without a state file, on. The records must be
  representable in JSON.
\<close>

theorem restart_between_requests:
  assumes "broker_wf b" and "c_StateDir (config b) \<noteq> []" and "on_file b"
    and "(durable_step e)\<^sup>*\<^sup>* b b'" and "saveable b'" and "c_StateDir cfg = c_StateDir (config b')"
  shows "\<exists>b''. New cfg c (files b') = Some b'' \<and> inst_view b'' = inst_view b' \<and> broker_wf b''"
proof -
  have "durable_inv b'"
    using durable.inv_run [OF assms(4)] assms(1-3) by (simp add: durable_inv_def)
  then show ?thesis
    using on_file_restart assms(5,6) by (simp add: durable_inv_def)
qed

text \<open>A broker that has saved one instance, and what a poll does to it.\<close>

definition saved_broker :: Broker where
  "saved_broker = fst (saveState (busy_ext True) (sample_with ''a-1'' ''provisioning'' 7) (script_start []))"

lemma saved_broker_simps:
  "broker_wf saved_broker" "config saved_broker = sample_config" "saved (busy_ext True) saved_broker"
  "inst_view saved_broker = [''a-1'' \<mapsto> sample_instance ''a-1'' ''provisioning'' 7]"
  "director saved_broker = director sample_broker" "all_known saved_broker"
  by (auto simp: saved_broker_def saved_def sample_with_props all_known_def known_def)
    (simp_all add: sample_with_def sample_broker_def sample_instance_def)

lemma busy_disk: "disk_works (busy_ext d)" "range_visits_once (busy_ext d)"
  using busy_files by (simp_all add: disk_works_def range_visits_once_def busy_ext_def script_ext_def)

lemma sample_state_dir: "c_StateDir sample_config \<noteq> []"
  by code_simp

lemma saved_broker_on_file: "on_file saved_broker"
  using saved_on_file [OF saved_broker_simps(3) busy_disk(1) saved_broker_simps(1)] sample_state_dir
  by (simp add: saved_broker_simps)

lemma sample_polled:
  assumes b0: "broker_wf b0" "inst_view b0 = [''a-1'' \<mapsto> sample_instance ''a-1'' ''provisioning'' 7]"
    "director b0 = director sample_broker" "config b0 = sample_config"
  obtains resp b w where "serve (busy_ext True) (ReqLastOperation ''a-1'') b0 (script_start []) = (resp, b, w)"
    "inst_view b = [''a-1'' \<mapsto> set_state ''ready'' (sample_instance ''a-1'' ''provisioning'' 7)]" "config b = sample_config"
    "on_file b"
proof -
  let ?i = "sample_instance ''a-1'' ''provisioning'' 7"
  obtain resp b w where eq: "LastOperation (busy_ext True) ''a-1'' b0 (script_start []) = (resp, b, w)"
    by (metis prod_cases3)
  have i: "i_State ?i = ''provisioning''" "i_BoshTaskID ?i = 7"
    by (simp_all add: sample_instance_def)
  have ne: "set_state ''ready'' ?i \<noteq> ?i"
    by (rule notI, drule arg_cong [of _ _ i_State]) (simp add: i)
  have "task_state (busy_ext True) (director b0) (script_start []) 7 = ''done''"
    using busy_done sample_client_broker by (simp add: b0)
  then have b: "inst_view b = [''a-1'' \<mapsto> set_state ''ready'' ?i]" "broker_frame b0 b" "broker_wf b"
    using LastOperation_spec [OF b0(1) eq] i by (auto simp: b0 task_of_def settled_def)
  then have c: "config b = sample_config"
    by (simp add: broker_frame_def b0)
  have "saved (busy_ext True) b"
    using LastOperation_saves [OF eq] b(1) ne by (auto simp: b0 dest: fun_cong [of _ _ "''a-1''"])
  then have "on_file b"
    by (rule saved_on_file) (use busy_disk b(3) c sample_state_dir in simp_all)
  then show thesis
    using that [of resp b w] eq b(1) c by simp
qed

theorem restart_between_requests_witness:
  "\<exists>b' b''. durable_step (busy_ext True) saved_broker b' \<and> New sample_config (director sample_broker) (files b') = Some b''
     \<and> map_option i_State (inst_view b'' ''a-1'') = Some ''ready''"
proof -
  obtain resp b w where b: "serve (busy_ext True) (ReqLastOperation ''a-1'') saved_broker (script_start []) = (resp, b, w)"
    "inst_view b = [''a-1'' \<mapsto> set_state ''ready'' (sample_instance ''a-1'' ''provisioning'' 7)]" "config b = sample_config"
    by (rule sample_polled [OF saved_broker_simps(1,4,5,2)])
  have step: "durable_step (busy_ext True) saved_broker b"
    unfolding durable_step_def using b(1) busy_disk failed_update.simps by blast
  have "utf8_valid ''a-1'' \<and> instance_saveable (set_state ''ready'' (sample_instance ''a-1'' ''provisioning'' 7))"
    by code_simp
  then have "saveable b"
    using b(2) by (auto simp: saveable_def split: if_splits)
  moreover have "on_file saved_broker"
    by (rule saved_broker_on_file)
  ultimately have "\<exists>b''. New sample_config (director sample_broker) (files b) = Some b'' \<and> inst_view b'' = inst_view b \<and> broker_wf b''"
    using restart_between_requests [OF saved_broker_simps(1), of "busy_ext True" b sample_config "director sample_broker"]
      step sample_state_dir b(3) by (simp add: saved_broker_simps r_into_rtranclp)
  then show ?thesis
    using step b(2) by auto
qed

end
