(* ===== verification/Server.thy ===== *)
theory Server
  imports Lifecycle "HOL-Library.Monad_Syntax"
begin

text \<open>
  The process around the handlers (\<^verbatim>\<open>main.go\<close>): reading the configuration, the credentials of the
  GenAI service and the chat model, setting up the broker, and basic authentication in front of
  every route. A file is what the state file is: absent, not JSON, or a JSON value. Where a member
  of array type occurs twice in one object the last one counts. Serving and the shutdown are
  in \<open>Process\<close>.
\<close>

section \<open>Reading nested structs\<close>

text \<open>A struct inside a struct, a pointer to a struct, and slices; the first argument reads the members.\<close>

type_synonym members = "(string \<times> json) list"

fun field_struct :: "(members \<Rightarrow> 'a \<Rightarrow> 'a option) \<Rightarrow> string \<Rightarrow> members \<Rightarrow> 'a \<Rightarrow> 'a option" where
  "field_struct dec tag [] cur = Some cur"
| "field_struct dec tag ((k, v) # ms) cur =
    (if key_match tag k
     then (case v of
             JObj fs \<Rightarrow> (case dec fs cur of None \<Rightarrow> None | Some x \<Rightarrow> field_struct dec tag ms x)
           | JNull \<Rightarrow> field_struct dec tag ms cur
           | _ \<Rightarrow> None)
     else field_struct dec tag ms cur)"

fun field_ptr :: "(members \<Rightarrow> 'a \<Rightarrow> 'a option) \<Rightarrow> 'a \<Rightarrow> string \<Rightarrow> members \<Rightarrow> 'a option \<Rightarrow> 'a option option" where
  "field_ptr dec zero tag [] cur = Some cur"
| "field_ptr dec zero tag ((k, v) # ms) cur =
    (if key_match tag k
     then (case v of
             JObj fs \<Rightarrow>
               (case dec fs (case cur of None \<Rightarrow> zero | Some x \<Rightarrow> x) of
                  None \<Rightarrow> None
                | Some x \<Rightarrow> field_ptr dec zero tag ms (Some x))
           | JNull \<Rightarrow> field_ptr dec zero tag ms None
           | _ \<Rightarrow> None)
     else field_ptr dec zero tag ms cur)"

fun field_slice :: "(json \<Rightarrow> 'a option) \<Rightarrow> string \<Rightarrow> members \<Rightarrow> 'a list \<Rightarrow> 'a list option" where
  "field_slice dec tag [] cur = Some cur"
| "field_slice dec tag ((k, v) # ms) cur =
    (if key_match tag k
     then (case v of
             JArr vs \<Rightarrow> (case those (map dec vs) of None \<Rightarrow> None | Some xs \<Rightarrow> field_slice dec tag ms xs)
           | JNull \<Rightarrow> field_slice dec tag ms []
           | _ \<Rightarrow> None)
     else field_slice dec tag ms cur)"

text \<open>The elements of a slice of strings and of a slice of structs; \<^verbatim>\<open>null\<close> is the zero value.\<close>

fun string_elem :: "json \<Rightarrow> string option" where
  "string_elem (JStr s) = Some s"
| "string_elem JNull = Some []"
| "string_elem _ = None"

definition struct_elem :: "(members \<Rightarrow> 'a \<Rightarrow> 'a option) \<Rightarrow> 'a \<Rightarrow> json \<Rightarrow> 'a option" where
  "struct_elem dec zero j = (case json_members j of None \<Rightarrow> None | Some ms \<Rightarrow> dec ms zero)"

section \<open>GenAI credentials\<close>

record GenAIEndpoint =
  e_APIBase :: string
  e_APIKey :: string
  e_ConfigURL :: string
  e_Name :: string

record GenAIServiceKeyCreds =
  k_APIBase :: string
  k_APIKey :: string
  k_ModelName :: string
  k_Endpoint :: "GenAIEndpoint option"

record GenAIServiceKey =
  Credentials_ptr :: "GenAIServiceKeyCreds option"
  TopLevel :: GenAIServiceKeyCreds

definition decode_endpoint :: "members \<Rightarrow> GenAIEndpoint \<Rightarrow> GenAIEndpoint option" where
  "decode_endpoint ms x = do {
     base \<leftarrow> field_string ''api_base'' ms (e_APIBase x);
     key \<leftarrow> field_string ''api_key'' ms (e_APIKey x);
     url \<leftarrow> field_string ''config_url'' ms (e_ConfigURL x);
     name \<leftarrow> field_string ''name'' ms (e_Name x);
     Some \<lparr>e_APIBase = base, e_APIKey = key, e_ConfigURL = url, e_Name = name\<rparr> }"

definition zero_endpoint :: GenAIEndpoint where
  "zero_endpoint = \<lparr>e_APIBase = [], e_APIKey = [], e_ConfigURL = [], e_Name = []\<rparr>"

definition decode_creds :: "members \<Rightarrow> GenAIServiceKeyCreds \<Rightarrow> GenAIServiceKeyCreds option" where
  "decode_creds ms x = do {
     base \<leftarrow> field_string ''api_base'' ms (k_APIBase x);
     key \<leftarrow> field_string ''api_key'' ms (k_APIKey x);
     model \<leftarrow> field_string ''model_name'' ms (k_ModelName x);
     ep \<leftarrow> field_ptr decode_endpoint zero_endpoint ''endpoint'' ms (k_Endpoint x);
     Some \<lparr>k_APIBase = base, k_APIKey = key, k_ModelName = model, k_Endpoint = ep\<rparr> }"

definition zero_creds :: GenAIServiceKeyCreds where
  "zero_creds = \<lparr>k_APIBase = [], k_APIKey = [], k_ModelName = [], k_Endpoint = None\<rparr>"

text \<open>The embedded struct shares the members of the key itself.\<close>

definition decode_service_key :: "json \<Rightarrow> GenAIServiceKey option" where
  "decode_service_key j = do {
     ms \<leftarrow> json_members j;
     wrapped \<leftarrow> field_ptr decode_creds zero_creds ''credentials'' ms None;
     top \<leftarrow> decode_creds ms zero_creds;
     Some \<lparr>Credentials_ptr = wrapped, TopLevel = top\<rparr> }"

record AdvertisedModel =
  a_Name :: string
  a_Capabilities :: "string list"

definition decode_model :: "members \<Rightarrow> AdvertisedModel \<Rightarrow> AdvertisedModel option" where
  "decode_model ms x = do {
     name \<leftarrow> field_string ''name'' ms (a_Name x);
     caps \<leftarrow> field_slice string_elem ''capabilities'' ms (a_Capabilities x);
     Some \<lparr>a_Name = name, a_Capabilities = caps\<rparr> }"

definition decode_models :: "json option \<Rightarrow> AdvertisedModel list option" where
  "decode_models body = do {
     j \<leftarrow> body;
     ms \<leftarrow> json_members j;
     field_slice (struct_elem decode_model \<lparr>a_Name = [], a_Capabilities = []\<rparr>) ''advertisedModels'' ms [] }"

datatype genai_error =
    CredsUnreadable
  | CredsUnparsable
  | CredsIncomplete
  | ModelRequest
  | ModelFetch string
  | ModelStatus int
  | ModelUnparsable
  | NoChatModel

text \<open>The two nested loops over the advertised models.\<close>

fun has_chat :: "string list \<Rightarrow> bool" where
  "has_chat [] = False"
| "has_chat (cap # caps) = (cap = ''CHAT'' \<or> has_chat caps)"

fun first_chat :: "AdvertisedModel list \<Rightarrow> string option" where
  "first_chat [] = None"
| "first_chat (m # ms) = (if has_chat (a_Capabilities m) then Some (a_Name m) else first_chat ms)"

definition discoverChatModel ::
    "('w, 'e) ext_scheme \<Rightarrow> string \<Rightarrow> string \<Rightarrow> 'w \<Rightarrow> (genai_error + string) \<times> 'w" where
  "discoverChatModel e configURL apiKey w =
    (if \<not> urlOK e configURL then (Inl ModelRequest, w)
     else case httpDo e \<lparr>r_Method = ''GET'', r_URL = configURL,
                 r_Header = [(''Authorization'', ''Bearer '' @ apiKey)], r_Body = NoBody\<rparr> w of
       (Inl err, w) \<Rightarrow> (Inl (ModelFetch err), w)
     | (Inr resp, w) \<Rightarrow>
        if StatusCode resp \<noteq> 200 then (Inl (ModelStatus (StatusCode resp)), w)
        else case decode_models (json_Decode (Body resp)) of
          None \<Rightarrow> (Inl ModelUnparsable, w)
        | Some ms \<Rightarrow>
           (case first_chat ms of
              None \<Rightarrow> (Inl NoChatModel, w)
            | Some name \<Rightarrow> (Inr name, w)))"

definition creds_in_use :: "GenAIServiceKey \<Rightarrow> GenAIServiceKeyCreds" where
  "creds_in_use key =
    (case Credentials_ptr key of
       Some c \<Rightarrow> if k_APIBase c \<noteq> [] \<or> k_APIKey c \<noteq> [] \<or> k_Endpoint c \<noteq> None then c else TopLevel key
     | None \<Rightarrow> TopLevel key)"

text \<open>\<^verbatim>\<open>filepath.Dir\<close> of a path without dot components and repeated slashes, and \<^verbatim>\<open>filepath.Join\<close> of its
  result and a file name.\<close>

definition filepath_Dir :: "string \<Rightarrow> string" where
  "filepath_Dir p =
    (let d = rev (drop 1 (dropWhile (\<lambda>c. c \<noteq> CHR ''/'') (rev p)))
     in if d \<noteq> [] then d else if CHR ''/'' \<in> set p then ''/'' else ''.'')"

definition filepath_Join :: "string \<Rightarrow> string \<Rightarrow> string" where
  "filepath_Join d f = (if d = ''/'' then ''/'' @ f else if d = ''.'' then f else d @ ''/'' @ f)"

text \<open>The result is endpoint, key and model.\<close>

definition loadGenAICredentials ::
    "('w, 'e) ext_scheme \<Rightarrow> file_system \<Rightarrow> string \<Rightarrow> 'w
     \<Rightarrow> (genai_error + string \<times> string \<times> string) \<times> 'w" where
  "loadGenAICredentials e fs configDir w =
    (case fs (filepath_Join configDir ''genai-credentials.json'') of
       None \<Rightarrow> (Inl CredsUnreadable, w)
     | Some data \<Rightarrow>
        (case Option.bind (json_Unmarshal data) decode_service_key of
           None \<Rightarrow> (Inl CredsUnparsable, w)
         | Some key \<Rightarrow>
            (let creds = creds_in_use key;
                 endpoint = (case k_Endpoint creds of
                    Some ep \<Rightarrow> if k_APIBase creds = [] then e_APIBase ep else k_APIBase creds
                  | None \<Rightarrow> k_APIBase creds);
                 apiKey = (case k_Endpoint creds of
                    Some ep \<Rightarrow> if k_APIKey creds = [] then e_APIKey ep else k_APIKey creds
                  | None \<Rightarrow> k_APIKey creds);
                 model = k_ModelName creds
             in if endpoint = [] \<or> apiKey = [] then (Inl CredsIncomplete, w)
                else case k_Endpoint creds of
                  Some ep \<Rightarrow>
                    if model = [] \<and> e_ConfigURL ep \<noteq> [] then
                      (case discoverChatModel e (e_ConfigURL ep) apiKey w of
                         (Inl _, w) \<Rightarrow> (Inr (endpoint, apiKey, model), w)
                       | (Inr discovered, w) \<Rightarrow> (Inr (endpoint, apiKey, discovered), w))
                    else (Inr (endpoint, apiKey, model), w)
                | None \<Rightarrow> (Inr (endpoint, apiKey, model), w))))"

section \<open>Basic authentication\<close>

text \<open>\<^verbatim>\<open>base64.StdEncoding.DecodeString\<close>: line breaks are skipped, padding is required.\<close>

definition b64_Std_decode :: "string \<Rightarrow> bytes option" where
  "b64_Std_decode s =
    (let t = filter (\<lambda>c. c \<noteq> newline \<and> c \<noteq> CHR 0x0D) s;
         body = takeWhile (\<lambda>c. c \<noteq> CHR ''='') t;
         pad = drop (length body) t
     in if length t mod 4 = 0 \<and> pad \<in> {[], ''='', ''==''} \<and> CHR ''-'' \<notin> set body \<and> CHR ''_'' \<notin> set body
        then b64_RawURL_decode (map (\<lambda>c. if c = CHR ''+'' then CHR ''-''
               else if c = CHR ''/'' then CHR ''_'' else c) body)
        else None)"

text \<open>\<^verbatim>\<open>Request.BasicAuth\<close> on the value of the header, empty when there is none.\<close>

definition BasicAuth :: "string \<Rightarrow> (string \<times> string) option" where
  "BasicAuth auth =
    (if length auth < 6 \<or> map ascii_lower (take 6 auth) \<noteq> ''basic '' then None
     else case b64_Std_decode (drop 6 auth) of
       None \<Rightarrow> None
     | Some cs \<Rightarrow> (case strings_Cut (CHR '':'') cs of (u, p, ok) \<Rightarrow> if ok then Some (u, p) else None))"

definition unauthorized :: response where
  "unauthorized = \<lparr>status = 401, content = PlainText (''Unauthorized'' @ [newline])\<rparr>"

definition basicAuthMiddleware ::
    "string \<Rightarrow> string \<Rightarrow> (Broker \<Rightarrow> 'w \<Rightarrow> response \<times> Broker \<times> 'w) \<Rightarrow> string \<Rightarrow> Broker \<Rightarrow> 'w
     \<Rightarrow> response \<times> Broker \<times> 'w" where
  "basicAuthMiddleware username password nxt authorization b w =
    (case BasicAuth authorization of
       None \<Rightarrow> (unauthorized, b, w)
     | Some (u, p) \<Rightarrow> if u \<noteq> username \<or> p \<noteq> password then (unauthorized, b, w) else nxt b w)"

section \<open>Configuration\<close>

fun field_map :: "(json \<Rightarrow> 'a option) \<Rightarrow> string \<Rightarrow> members \<Rightarrow> (string \<times> 'a) list \<Rightarrow> (string \<times> 'a) list option" where
  "field_map dec tag [] cur = Some cur"
| "field_map dec tag ((k, v) # ms) cur =
    (if key_match tag k
     then (case v of
             JObj fs \<Rightarrow>
               (case those (map (\<lambda>(k, v). map_option (Pair k) (dec v)) fs) of
                  None \<Rightarrow> None
                | Some es \<Rightarrow> field_map dec tag ms (fold (\<lambda>(k, v) al. AList.update k v al) es cur))
           | JNull \<Rightarrow> field_map dec tag ms []
           | _ \<Rightarrow> None)
     else field_map dec tag ms cur)"

fun bool_elem :: "json \<Rightarrow> bool option" where
  "bool_elem (JBool b) = Some b"
| "bool_elem JNull = Some False"
| "bool_elem _ = None"

definition decode_plan :: "members \<Rightarrow> Plan \<Rightarrow> Plan option" where
  "decode_plan ms p = do {
     name \<leftarrow> field_string ''name'' ms (p_Name p);
     pid \<leftarrow> field_string ''id'' ms (p_ID p);
     descr \<leftarrow> field_string ''description'' ms (p_Description p);
     pdescr \<leftarrow> field_string ''plan_description'' ms (p_PlanDescription p);
     vm \<leftarrow> field_string ''vm_type'' ms (p_VMType p);
     disk \<leftarrow> field_string ''disk_type'' ms (p_DiskType p);
     mem \<leftarrow> field_int ''memory'' ms (p_Memory p);
     azs \<leftarrow> field_slice string_elem ''azs'' ms (p_AZs p);
     feats \<leftarrow> field_map bool_elem ''features'' ms (p_Features p);
     meta \<leftarrow> field_map interface_value ''metadata'' ms (p_Metadata p);
     Some \<lparr>p_Name = name, p_ID = pid, p_Description = descr, p_PlanDescription = pdescr, p_VMType = vm,
       p_DiskType = disk, p_Memory = mem, p_AZs = azs, p_Features = feats, p_Metadata = meta\<rparr> }"

text \<open>\<^verbatim>\<open>Config\<close>; a field of a nested struct carries the names of the structs around it.\<close>

record Config =
  Port :: int
  Auth_Username :: string
  Auth_Password :: string
  BOSH_DirectorURL :: string
  BOSH_UaaURL :: string
  BOSH_ClientID :: string
  BOSH_ClientSecret :: string
  BOSH_CACert :: string
  AgentDefaults_OpenClawVersion :: string
  AgentDefaults_Stemcell :: string
  AgentDefaults_Network :: string
  AgentDefaults_AZ :: string
  Security_MinOpenClawVersion :: string
  Security_SandboxMode :: string
  Security_BlockedCommands :: string
  Security_SSOEnabled :: bool
  Security_SSOOIDCIssuerURL :: string
  Security_SSOAllowedEmailDomains :: string
  Security_SSOSessionTimeoutHours :: int
  CFUAA_URL :: string
  CFUAA_AdminClientID :: string
  CFUAA_AdminClientSecret :: string
  GenAI_Provider :: string
  GenAI_Endpoint :: string
  GenAI_APIKey :: string
  GenAI_Model :: string
  GenAI_PreferredModel :: string
  GenAI_APIEndpoint :: string
  GenAI_OfferingName :: string
  GenAI_PlanName :: string
  NATS_TLS_Enabled :: bool
  NATS_TLS_ClientCert :: string
  NATS_TLS_ClientKey :: string
  NATS_TLS_CACert :: string
  OnDemand_ServiceName :: string
  OnDemand_Plans :: "Plan list"
  OnDemand_StemcellOS :: string
  OnDemand_StemcellVersion :: string
  OnDemand_Network :: string
  OnDemand_AZs :: "string list"
  OnDemand_OpenClawReleaseVersion :: string
  OnDemand_BPMReleaseVersion :: string
  OnDemand_RoutingReleaseVersion :: string
  CF_SystemDomain :: string
  CF_AppsDomain :: string
  CF_DeploymentName :: string
  CF_APIURL :: string
  CF_AdminUsername :: string
  CF_AdminPassword :: string
  CF_SkipSSLValidation :: bool
  Plans :: "Plan list"
  Limits_MaxInstances :: int
  Limits_MaxInstancesPerOrg :: int

definition zero_config :: Config where
  "zero_config = \<lparr>Port = 0, Auth_Username = [], Auth_Password = [], BOSH_DirectorURL = [], BOSH_UaaURL = [], 
     BOSH_ClientID = [], BOSH_ClientSecret = [], BOSH_CACert = [], 
     AgentDefaults_OpenClawVersion = [], AgentDefaults_Stemcell = [], AgentDefaults_Network = [], 
     AgentDefaults_AZ = [], Security_MinOpenClawVersion = [], Security_SandboxMode = [], 
     Security_BlockedCommands = [], Security_SSOEnabled = False, Security_SSOOIDCIssuerURL = [], 
     Security_SSOAllowedEmailDomains = [], Security_SSOSessionTimeoutHours = 0, CFUAA_URL = [], 
     CFUAA_AdminClientID = [], CFUAA_AdminClientSecret = [], GenAI_Provider = [], 
     GenAI_Endpoint = [], GenAI_APIKey = [], GenAI_Model = [], GenAI_PreferredModel = [], 
     GenAI_APIEndpoint = [], GenAI_OfferingName = [], GenAI_PlanName = [], NATS_TLS_Enabled = False, 
     NATS_TLS_ClientCert = [], NATS_TLS_ClientKey = [], NATS_TLS_CACert = [], 
     OnDemand_ServiceName = [], OnDemand_Plans = [], OnDemand_StemcellOS = [], 
     OnDemand_StemcellVersion = [], OnDemand_Network = [], OnDemand_AZs = [], 
     OnDemand_OpenClawReleaseVersion = [], OnDemand_BPMReleaseVersion = [], 
     OnDemand_RoutingReleaseVersion = [], CF_SystemDomain = [], CF_AppsDomain = [], 
     CF_DeploymentName = [], CF_APIURL = [], CF_AdminUsername = [], CF_AdminPassword = [], 
     CF_SkipSSLValidation = False, Plans = [], Limits_MaxInstances = 0, 
     Limits_MaxInstancesPerOrg = 0\<rparr>"

definition decode_auth :: "members \<Rightarrow> Config \<Rightarrow> Config option" where
  "decode_auth ms c = do {
     x0 \<leftarrow> field_string ''username'' ms (Auth_Username c);
     x1 \<leftarrow> field_string ''password'' ms (Auth_Password c);
     Some (c\<lparr>Auth_Username := x0, Auth_Password := x1\<rparr>) }"

definition decode_bosh :: "members \<Rightarrow> Config \<Rightarrow> Config option" where
  "decode_bosh ms c = do {
     x0 \<leftarrow> field_string ''director_url'' ms (BOSH_DirectorURL c);
     x1 \<leftarrow> field_string ''uaa_url'' ms (BOSH_UaaURL c);
     x2 \<leftarrow> field_string ''client_id'' ms (BOSH_ClientID c);
     x3 \<leftarrow> field_string ''client_secret'' ms (BOSH_ClientSecret c);
     x4 \<leftarrow> field_string ''ca_cert'' ms (BOSH_CACert c);
     Some (c\<lparr>BOSH_DirectorURL := x0, BOSH_UaaURL := x1, BOSH_ClientID := x2, BOSH_ClientSecret := x3,
       BOSH_CACert := x4\<rparr>) }"

definition decode_agent_defaults :: "members \<Rightarrow> Config \<Rightarrow> Config option" where
  "decode_agent_defaults ms c = do {
     x0 \<leftarrow> field_string ''openclaw_version'' ms (AgentDefaults_OpenClawVersion c);
     x1 \<leftarrow> field_string ''stemcell'' ms (AgentDefaults_Stemcell c);
     x2 \<leftarrow> field_string ''network'' ms (AgentDefaults_Network c);
     x3 \<leftarrow> field_string ''az'' ms (AgentDefaults_AZ c);
     Some (c\<lparr>AgentDefaults_OpenClawVersion := x0, AgentDefaults_Stemcell := x1,
       AgentDefaults_Network := x2, AgentDefaults_AZ := x3\<rparr>) }"

definition decode_security :: "members \<Rightarrow> Config \<Rightarrow> Config option" where
  "decode_security ms c = do {
     x0 \<leftarrow> field_string ''min_openclaw_version'' ms (Security_MinOpenClawVersion c);
     x1 \<leftarrow> field_string ''sandbox_mode'' ms (Security_SandboxMode c);
     x2 \<leftarrow> field_string ''blocked_commands'' ms (Security_BlockedCommands c);
     x3 \<leftarrow> field_bool ''sso_enabled'' ms (Security_SSOEnabled c);
     x4 \<leftarrow> field_string ''sso_oidc_issuer_url'' ms (Security_SSOOIDCIssuerURL c);
     x5 \<leftarrow> field_string ''sso_allowed_email_domains'' ms (Security_SSOAllowedEmailDomains c);
     x6 \<leftarrow> field_int ''sso_session_timeout_hours'' ms (Security_SSOSessionTimeoutHours c);
     Some (c\<lparr>Security_MinOpenClawVersion := x0, Security_SandboxMode := x1,
       Security_BlockedCommands := x2, Security_SSOEnabled := x3,
       Security_SSOOIDCIssuerURL := x4, Security_SSOAllowedEmailDomains := x5,
       Security_SSOSessionTimeoutHours := x6\<rparr>) }"

definition decode_cf_uaa :: "members \<Rightarrow> Config \<Rightarrow> Config option" where
  "decode_cf_uaa ms c = do {
     x0 \<leftarrow> field_string ''url'' ms (CFUAA_URL c);
     x1 \<leftarrow> field_string ''admin_client_id'' ms (CFUAA_AdminClientID c);
     x2 \<leftarrow> field_string ''admin_client_secret'' ms (CFUAA_AdminClientSecret c);
     Some (c\<lparr>CFUAA_URL := x0, CFUAA_AdminClientID := x1, CFUAA_AdminClientSecret := x2\<rparr>) }"

definition decode_genai :: "members \<Rightarrow> Config \<Rightarrow> Config option" where
  "decode_genai ms c = do {
     x0 \<leftarrow> field_string ''provider'' ms (GenAI_Provider c);
     x1 \<leftarrow> field_string ''endpoint'' ms (GenAI_Endpoint c);
     x2 \<leftarrow> field_string ''api_key'' ms (GenAI_APIKey c);
     x3 \<leftarrow> field_string ''model'' ms (GenAI_Model c);
     x4 \<leftarrow> field_string ''preferred_model'' ms (GenAI_PreferredModel c);
     x5 \<leftarrow> field_string ''api_endpoint'' ms (GenAI_APIEndpoint c);
     x6 \<leftarrow> field_string ''offering_name'' ms (GenAI_OfferingName c);
     x7 \<leftarrow> field_string ''plan_name'' ms (GenAI_PlanName c);
     Some (c\<lparr>GenAI_Provider := x0, GenAI_Endpoint := x1, GenAI_APIKey := x2, GenAI_Model := x3,
       GenAI_PreferredModel := x4, GenAI_APIEndpoint := x5, GenAI_OfferingName := x6,
       GenAI_PlanName := x7\<rparr>) }"

definition decode_nats_tls :: "members \<Rightarrow> Config \<Rightarrow> Config option" where
  "decode_nats_tls ms c = do {
     x0 \<leftarrow> field_bool ''enabled'' ms (NATS_TLS_Enabled c);
     x1 \<leftarrow> field_string ''client_cert'' ms (NATS_TLS_ClientCert c);
     x2 \<leftarrow> field_string ''client_key'' ms (NATS_TLS_ClientKey c);
     x3 \<leftarrow> field_string ''ca_cert'' ms (NATS_TLS_CACert c);
     Some (c\<lparr>NATS_TLS_Enabled := x0, NATS_TLS_ClientCert := x1, NATS_TLS_ClientKey := x2,
       NATS_TLS_CACert := x3\<rparr>) }"

definition decode_on_demand :: "members \<Rightarrow> Config \<Rightarrow> Config option" where
  "decode_on_demand ms c = do {
     x0 \<leftarrow> field_string ''service_name'' ms (OnDemand_ServiceName c);
     x1 \<leftarrow> field_slice (struct_elem decode_plan zero_plan) ''plans'' ms (OnDemand_Plans c);
     x2 \<leftarrow> field_string ''stemcell_os'' ms (OnDemand_StemcellOS c);
     x3 \<leftarrow> field_string ''stemcell_version'' ms (OnDemand_StemcellVersion c);
     x4 \<leftarrow> field_string ''network'' ms (OnDemand_Network c);
     x5 \<leftarrow> field_slice string_elem ''azs'' ms (OnDemand_AZs c);
     x6 \<leftarrow> field_string ''openclaw_release_version'' ms (OnDemand_OpenClawReleaseVersion c);
     x7 \<leftarrow> field_string ''bpm_release_version'' ms (OnDemand_BPMReleaseVersion c);
     x8 \<leftarrow> field_string ''routing_release_version'' ms (OnDemand_RoutingReleaseVersion c);
     Some (c\<lparr>OnDemand_ServiceName := x0, OnDemand_Plans := x1, OnDemand_StemcellOS := x2,
       OnDemand_StemcellVersion := x3, OnDemand_Network := x4, OnDemand_AZs := x5,
       OnDemand_OpenClawReleaseVersion := x6, OnDemand_BPMReleaseVersion := x7,
       OnDemand_RoutingReleaseVersion := x8\<rparr>) }"

definition decode_cf :: "members \<Rightarrow> Config \<Rightarrow> Config option" where
  "decode_cf ms c = do {
     x0 \<leftarrow> field_string ''system_domain'' ms (CF_SystemDomain c);
     x1 \<leftarrow> field_string ''apps_domain'' ms (CF_AppsDomain c);
     x2 \<leftarrow> field_string ''deployment_name'' ms (CF_DeploymentName c);
     x3 \<leftarrow> field_string ''api_url'' ms (CF_APIURL c);
     x4 \<leftarrow> field_string ''admin_username'' ms (CF_AdminUsername c);
     x5 \<leftarrow> field_string ''admin_password'' ms (CF_AdminPassword c);
     x6 \<leftarrow> field_bool ''skip_ssl_validation'' ms (CF_SkipSSLValidation c);
     Some (c\<lparr>CF_SystemDomain := x0, CF_AppsDomain := x1, CF_DeploymentName := x2, CF_APIURL := x3,
       CF_AdminUsername := x4, CF_AdminPassword := x5, CF_SkipSSLValidation := x6\<rparr>) }"

definition decode_limits :: "members \<Rightarrow> Config \<Rightarrow> Config option" where
  "decode_limits ms c = do {
     x0 \<leftarrow> field_int ''max_instances'' ms (Limits_MaxInstances c);
     x1 \<leftarrow> field_int ''max_instances_per_org'' ms (Limits_MaxInstancesPerOrg c);
     Some (c\<lparr>Limits_MaxInstances := x0, Limits_MaxInstancesPerOrg := x1\<rparr>) }"

definition decode_nats :: "members \<Rightarrow> Config \<Rightarrow> Config option" where
  "decode_nats ms c = field_struct decode_nats_tls ''tls'' ms c"

definition decode_config :: "members \<Rightarrow> Config \<Rightarrow> Config option" where
  "decode_config ms c = do {
     port \<leftarrow> field_int ''port'' ms (Port c);
     plans \<leftarrow> field_slice (struct_elem decode_plan zero_plan) ''plans'' ms (Plans c);
     c \<leftarrow> Some (c\<lparr>Port := port, Plans := plans\<rparr>);
     c \<leftarrow> field_struct decode_auth ''auth'' ms c;
     c \<leftarrow> field_struct decode_bosh ''bosh'' ms c;
     c \<leftarrow> field_struct decode_agent_defaults ''agent_defaults'' ms c;
     c \<leftarrow> field_struct decode_security ''security'' ms c;
     c \<leftarrow> field_struct decode_cf_uaa ''cf_uaa'' ms c;
     c \<leftarrow> field_struct decode_genai ''genai'' ms c;
     c \<leftarrow> field_struct decode_nats ''nats'' ms c;
     c \<leftarrow> field_struct decode_on_demand ''on_demand'' ms c;
     c \<leftarrow> field_struct decode_cf ''cf'' ms c;
     c \<leftarrow> field_struct decode_limits ''limits'' ms c;
     Some c }"

datatype config_error = ConfigUnreadable | ConfigUnparsable

definition loadConfig :: "file_system \<Rightarrow> string \<Rightarrow> config_error + Config" where
  "loadConfig fs path =
    (case fs path of
       None \<Rightarrow> Inl ConfigUnreadable
     | Some data \<Rightarrow>
        (case do { j \<leftarrow> json_Unmarshal data; ms \<leftarrow> json_members j; decode_config ms zero_config } of
           None \<Rightarrow> Inl ConfigUnparsable
         | Some cfg \<Rightarrow> Inr (if Port cfg = 0 then cfg\<lparr>Port := 8080\<rparr> else cfg)))"

section \<open>Start\<close>

definition broker_config :: "Config \<Rightarrow> BrokerConfig" where
  "broker_config cfg =
    \<lparr>c_MinOpenClawVersion = Security_MinOpenClawVersion cfg,
     c_SandboxMode = Security_SandboxMode cfg,
     c_OpenClawVersion = AgentDefaults_OpenClawVersion cfg,
     c_Plans = (if OnDemand_Plans cfg = [] then Plans cfg else OnDemand_Plans cfg),
     c_AppsDomain = CF_AppsDomain cfg,
     c_Network = OnDemand_Network cfg,
     c_AZs = OnDemand_AZs cfg,
     c_StemcellOS = OnDemand_StemcellOS cfg,
     c_StemcellVersion = OnDemand_StemcellVersion cfg,
     c_CFDeploymentName = CF_DeploymentName cfg,
     c_OpenClawReleaseVersion = OnDemand_OpenClawReleaseVersion cfg,
     c_BPMReleaseVersion = OnDemand_BPMReleaseVersion cfg,
     c_RoutingReleaseVersion = OnDemand_RoutingReleaseVersion cfg,
     c_SSOEnabled = Security_SSOEnabled cfg,
     c_SSOOIDCIssuerURL = Security_SSOOIDCIssuerURL cfg,
     c_SSOAllowedEmailDomains = Security_SSOAllowedEmailDomains cfg,
     c_SSOSessionTimeoutHours = Security_SSOSessionTimeoutHours cfg,
     c_CFUaaURL = CFUAA_URL cfg,
     c_CFUaaAdminClientID = CFUAA_AdminClientID cfg,
     c_CFUaaAdminClientSecret = CFUAA_AdminClientSecret cfg,
     c_MaxInstances = Limits_MaxInstances cfg,
     c_MaxInstancesPerOrg = Limits_MaxInstancesPerOrg cfg,
     c_LLMProvider = GenAI_Provider cfg,
     c_LLMEndpoint = GenAI_Endpoint cfg,
     c_LLMAPIKey = GenAI_APIKey cfg,
     c_LLMModel = GenAI_Model cfg,
     c_LLMPreferredModel = GenAI_PreferredModel cfg,
     c_LLMAPIEndpoint = GenAI_APIEndpoint cfg,
     c_GenAIOfferingName = GenAI_OfferingName cfg,
     c_GenAIPlanName = GenAI_PlanName cfg,
     c_BlockedCommands = Security_BlockedCommands cfg,
     c_NATSTLSEnabled = NATS_TLS_Enabled cfg,
     c_NATSTLSClientCert = NATS_TLS_ClientCert cfg,
     c_NATSTLSClientKey = NATS_TLS_ClientKey cfg,
     c_NATSTLSCACert = NATS_TLS_CACert cfg,
     c_StateDir = ''/var/vcap/store/openclaw-broker''\<rparr>"

datatype fatal = LoadFailed config_error | EmptyCredentials | GenAIFailed genai_error

text \<open>The configuration the process runs with, or the reason it exits.\<close>

definition main_config ::
    "('w, 'e) ext_scheme \<Rightarrow> file_system \<Rightarrow> string \<Rightarrow> 'w \<Rightarrow> (fatal + Config) \<times> 'w" where
  "main_config e fs configPath w =
    (case loadConfig fs configPath of
       Inl err \<Rightarrow> (Inl (LoadFailed err), w)
     | Inr cfg \<Rightarrow>
        if Auth_Username cfg = [] \<or> Auth_Password cfg = [] then (Inl EmptyCredentials, w)
        else if GenAI_Provider cfg \<noteq> ''tanzu_genai'' then (Inr cfg, w)
        else case loadGenAICredentials e fs (filepath_Dir configPath) w of
          (Inl err, w) \<Rightarrow> (Inl (GenAIFailed err), w)
        | (Inr (endpoint, apiKey, model), w) \<Rightarrow>
            (Inr (cfg\<lparr>GenAI_Endpoint := endpoint, GenAI_APIKey := apiKey,
                   GenAI_Model := (if model \<noteq> [] \<and> GenAI_Model cfg = [] then model else GenAI_Model cfg)\<rparr>), w))"

text \<open>The broker it builds, \<open>None\<close> when the state file holds \<^verbatim>\<open>null\<close> (see \<open>New\<close>).\<close>

definition main_broker :: "file_system \<Rightarrow> Config \<Rightarrow> Broker option" where
  "main_broker fs cfg =
     New (broker_config cfg)
       (NewClient (BOSH_DirectorURL cfg) (BOSH_ClientID cfg) (BOSH_ClientSecret cfg) (BOSH_UaaURL cfg)) fs"

text \<open>A key in the unwrapped and in the wrapped format.\<close>

definition unwrapped_key :: "members \<Rightarrow> json" where
  "unwrapped_key ms = JObj ms"

definition wrapped_key :: "members \<Rightarrow> json" where
  "wrapped_key ms = JObj [(''credentials'', JObj ms)]"

section \<open>Lemmas\<close>

lemma b64_Std_shape:
  "b64_Std s = map (\<lambda>c. if c = CHR ''-'' then CHR ''+'' else if c = CHR ''_'' then CHR ''/'' else c) (b64_RawURL s)
     @ replicate ((4 - length (b64_RawURL s) mod 4) mod 4) (CHR ''='')"
  by (simp add: b64_Std_def Let_def)

lemma b64_length_mod: "length (b64_RawURL s) mod 4 \<noteq> 1"
  by (induction s rule: b64_RawURL.induct) (simp_all add: mod_Suc)

lemma b64_pad: "replicate ((4 - length (b64_RawURL s) mod 4) mod 4) (CHR ''='') \<in> {[], ''='', ''==''}"
  "(length (b64_RawURL s) + (4 - length (b64_RawURL s) mod 4) mod 4) mod 4 = 0"
proof -
  define n where "n = length (b64_RawURL s)"
  have "n mod 4 \<noteq> 1" "n mod 4 < 4"
    using b64_length_mod [of s] by (simp_all add: n_def)
  then consider "n mod 4 = 0" | "n mod 4 = 2" | "n mod 4 = 3"
    by linarith
  then have "replicate ((4 - n mod 4) mod 4) (CHR ''='') \<in> {[], ''='', ''==''} \<and> (n + (4 - n mod 4) mod 4) mod 4 = 0"
  proof cases
    case 2
    then have "(n + 2) mod 4 = 0"
      by (metis mod_add_left_eq mod_self numeral_Bit0)
    with 2 show ?thesis
      by (simp add: numeral_2_eq_2)
  next
    case 3
    then have "(n + 1) mod 4 = 0"
      by (simp add: mod_Suc)
    with 3 show ?thesis
      by simp
  qed simp
  then show "replicate ((4 - length (b64_RawURL s) mod 4) mod 4) (CHR ''='') \<in> {[], ''='', ''==''}"
    "(length (b64_RawURL s) + (4 - length (b64_RawURL s) mod 4) mod 4) mod 4 = 0"
    by (simp_all only: n_def)
qed

lemma b64_Std_decode_encode: "b64_Std_decode (b64_Std s) = Some s"
proof -
  let ?std = "\<lambda>c. if c = CHR ''-'' then CHR ''+'' else if c = CHR ''_'' then CHR ''/'' else c"
  let ?url = "\<lambda>c. if c = CHR ''+'' then CHR ''-'' else if c = CHR ''/'' then CHR ''_'' else c"
  let ?b = "map ?std (b64_RawURL s)" and ?p = "replicate ((4 - length (b64_RawURL s) mod 4) mod 4) (CHR ''='')"
  have c: "?std c \<notin> {CHR ''='', CHR ''-'', CHR ''_'', newline, CHR 0x0D} \<and> ?url (?std c) = c"
    if "c \<in> set (b64_RawURL s)" for c
    using b64_alphabet [OF that] by (auto simp: is_b64url_def is_upper_def is_lower_def is_digit_def)
  have f: "filter (\<lambda>c. c \<noteq> newline \<and> c \<noteq> CHR 0x0D) (b64_Std s) = ?b @ ?p"
    unfolding b64_Std_shape using c by (intro filter_True) fastforce
  have t: "takeWhile (\<lambda>c. c \<noteq> CHR ''='') (?b @ ?p) = ?b"
    using c by (subst takeWhile_append2) (fastforce, cases "(4 - length (b64_RawURL s) mod 4) mod 4", auto)
  have u: "map ?url ?b = b64_RawURL s"
    using c by (auto intro!: map_idI simp: o_def)
  have "CHR ''-'' \<notin> set ?b" "CHR ''_'' \<notin> set ?b"
    using c by fastforce+
  then show ?thesis
    unfolding b64_Std_decode_def Let_def f t using b64_pad [of s] u b64_decode_encode [of s] by simp
qed

lemma strings_Cut_colon: "CHR '':'' \<notin> set u \<Longrightarrow> strings_Cut (CHR '':'') (u @ CHR '':'' # p) = (u, p, True)"
proof -
  assume "CHR '':'' \<notin> set u"
  then have "takeWhile (\<lambda>c. c \<noteq> CHR '':'') (u @ CHR '':'' # p) = u"
    by (induction u) auto
  then show ?thesis
    by (simp add: strings_Cut_def Let_def)
qed

lemma BasicAuth_basic_auth: "CHR '':'' \<notin> set u \<Longrightarrow> BasicAuth (basic_auth u p) = Some (u, p)"
proof -
  assume u: "CHR '':'' \<notin> set u"
  have "take 6 (basic_auth u p) = ''Basic ''" "length (basic_auth u p) \<ge> 6"
    by (simp_all add: basic_auth_def numeral_eq_Suc)
  moreover have "map ascii_lower ''Basic '' = ''basic ''"
    by code_simp
  moreover have "drop 6 (basic_auth u p) = b64_Std (u @ '':'' @ p)"
    by (simp add: basic_auth_def numeral_eq_Suc)
  ultimately show ?thesis
    using u by (simp add: BasicAuth_def b64_Std_decode_encode strings_Cut_colon)
qed

lemma has_chat_mem: "has_chat caps \<longleftrightarrow> ''CHAT'' \<in> set caps"
  by (induction caps) auto

lemma first_chat_append:
  "\<forall>m' \<in> set pre. ''CHAT'' \<notin> set (a_Capabilities m') \<Longrightarrow> ''CHAT'' \<in> set (a_Capabilities m) \<Longrightarrow>
   first_chat (pre @ m # post) = Some (a_Name m)"
  by (induction pre) (auto simp: has_chat_mem)

lemma first_chat_split:
  "first_chat ms = Some n \<Longrightarrow> \<exists>pre m post. ms = pre @ m # post \<and> a_Name m = n \<and> ''CHAT'' \<in> set (a_Capabilities m)
     \<and> (\<forall>m' \<in> set pre. ''CHAT'' \<notin> set (a_Capabilities m'))"
proof (induction ms)
  case (Cons m ms)
  show ?case
  proof (cases "''CHAT'' \<in> set (a_Capabilities m)")
    case True
    then show ?thesis
      using Cons.prems by (intro exI [of _ "[]"] exI [of _ m] exI [of _ ms]) (simp add: has_chat_mem)
  next
    case False
    then obtain pre m' post where "ms = pre @ m' # post" "a_Name m' = n" "''CHAT'' \<in> set (a_Capabilities m')"
      "\<forall>m'' \<in> set pre. ''CHAT'' \<notin> set (a_Capabilities m'')"
      using Cons by (auto simp: has_chat_mem)
    then show ?thesis
      using False by (intro exI [of _ "m # pre"] exI [of _ m'] exI [of _ post]) simp
  qed
qed simp

lemma first_chat_iff:
  "first_chat ms = Some n \<longleftrightarrow> (\<exists>pre m post. ms = pre @ m # post \<and> a_Name m = n
     \<and> ''CHAT'' \<in> set (a_Capabilities m) \<and> (\<forall>m' \<in> set pre. ''CHAT'' \<notin> set (a_Capabilities m')))"
  using first_chat_split first_chat_append by metis

text \<open>What a header decodes to determines who passes.\<close>

lemma basicAuthMiddleware_iff:
  "basicAuthMiddleware user pass h a b w =
    (if BasicAuth a = Some (user, pass) then h b w else (unauthorized, b, w))"
  by (auto simp: basicAuthMiddleware_def split: option.splits)

lemma BasicAuth_no_colon: "BasicAuth a = Some (u, p) \<Longrightarrow> CHR '':'' \<notin> set u"
  by (auto simp: BasicAuth_def strings_Cut_def Let_def split: if_splits option.splits dest: set_takeWhileD)

lemma loadConfig_port: "loadConfig fs path = Inr cfg \<Longrightarrow> Port cfg \<noteq> 0"
  by (auto simp: loadConfig_def split: option.splits if_splits)

lemma main_config_loaded:
  assumes "main_config e fs path w = (Inr cfg, w')"
  obtains cfg0 where "loadConfig fs path = Inr cfg0" "Auth_Username cfg0 \<noteq> []" "Auth_Password cfg0 \<noteq> []"
    "Auth_Username cfg = Auth_Username cfg0" "Auth_Password cfg = Auth_Password cfg0" "Port cfg = Port cfg0"
  using assms by (auto simp: main_config_def split: sum.splits prod.splits if_splits)

text \<open>A member that matches no tag of the credentials leaves them alone.\<close>

lemma field_string_skip: "\<not> key_match tag k \<Longrightarrow> field_string tag [(k, v)] cur = Some cur"
  by simp

lemma decode_creds_skip:
  assumes "list_all (\<lambda>t. \<not> key_match t k) [''api_base'', ''api_key'', ''model_name'', ''endpoint'']"
  shows "decode_creds [(k, v)] zero_creds = Some zero_creds"
  using assms by (simp add: decode_creds_def zero_creds_def)

lemma field_ptr_skip: "\<forall>(k, v) \<in> set ms. \<not> key_match tag k \<Longrightarrow> field_ptr dec zero tag ms cur = Some cur"
  by (induction ms) auto

section \<open>Properties\<close>

text \<open>
  Authentication is exact. A header that encodes a user name without colon and a password, as
  every HTTP client writes it, reaches the handler exactly when both are the configured ones;
  otherwise the answer is 401 and neither the broker nor the world is touched.
\<close>

theorem basicAuthMiddleware_exact:
  assumes "CHR '':'' \<notin> set u"
  shows "basicAuthMiddleware user pass h (basic_auth u p) b w =
    (if u = user \<and> p = pass then h b w else (unauthorized, b, w))"
  by (simp add: basicAuthMiddleware_iff BasicAuth_basic_auth [OF assms])

theorem basicAuthMiddleware_exact_witness:
  "CHR '':'' \<notin> set ''broker'' \<and>
   basicAuthMiddleware ''broker'' ''pw'' (serve script_ext ReqUnbind) (basic_auth ''broker'' ''guess'')
     sample_broker (script_start []) = (unauthorized, sample_broker, script_start [])"
  using basicAuthMiddleware_exact [of "''broker''" "''broker''" "''pw''" _ "''guess''"] by simp

text \<open>
  Model discovery returns a name exactly when the service answers 200 with a document whose
  first model of capability CHAT has it.
\<close>

theorem discoverChatModel_first:
  "discoverChatModel e url key w = (Inr n, w') \<longleftrightarrow>
    urlOK e url \<and> (\<exists>resp pre m post.
      httpDo e \<lparr>r_Method = ''GET'', r_URL = url, r_Header = [(''Authorization'', ''Bearer '' @ key)], r_Body = NoBody\<rparr> w
        = (Inr resp, w')
      \<and> StatusCode resp = 200 \<and> decode_models (json_Decode (Body resp)) = Some (pre @ m # post) \<and> a_Name m = n
      \<and> ''CHAT'' \<in> set (a_Capabilities m) \<and> list_all (\<lambda>m'. ''CHAT'' \<notin> set (a_Capabilities m')) pre)"
  (is "?l \<longleftrightarrow> ?r")
proof -
  have "?l \<longleftrightarrow> urlOK e url \<and> (\<exists>resp ms.
      httpDo e \<lparr>r_Method = ''GET'', r_URL = url, r_Header = [(''Authorization'', ''Bearer '' @ key)], r_Body = NoBody\<rparr> w
        = (Inr resp, w') \<and> StatusCode resp = 200 \<and> decode_models (json_Decode (Body resp)) = Some ms \<and> first_chat ms = Some n)"
    by (auto simp: discoverChatModel_def split: prod.splits sum.splits option.splits)
  then show ?thesis
    by (simp add: first_chat_iff list_all_iff) blast
qed

text \<open>
  C36. The wrapped and the unwrapped format of the service key mean the same: with either the process
  gets the same endpoint, key and model, or the same error, and makes the same calls.
\<close>

theorem service_key_formats_agree:
  assumes "fs (filepath_Join dir ''genai-credentials.json'') = Some data" "json_Unmarshal data = Some (unwrapped_key ms)"
    and "fs' (filepath_Join dir ''genai-credentials.json'') = Some data'" "json_Unmarshal data' = Some (wrapped_key ms)"
    and "list_all (\<lambda>(k, v). \<not> key_match ''credentials'' k) ms"
  shows "loadGenAICredentials e fs dir w = loadGenAICredentials e fs' dir w"
proof (cases "decode_creds ms zero_creds")
  case None
  then have "decode_service_key (unwrapped_key ms) = None" "decode_service_key (wrapped_key ms) = None"
    by (simp_all add: decode_service_key_def unwrapped_key_def wrapped_key_def split: Option.bind_splits)
  then show ?thesis
    by (simp add: loadGenAICredentials_def assms(1-4))
next
  case (Some c)
  have "list_all (\<lambda>t. \<not> key_match t ''credentials'') [''api_base'', ''api_key'', ''model_name'', ''endpoint'']"
    by code_simp
  then have "decode_service_key (wrapped_key ms) = Some \<lparr>Credentials_ptr = Some c, TopLevel = zero_creds\<rparr>"
    by (simp add: decode_service_key_def wrapped_key_def Some decode_creds_skip)
  moreover have "decode_service_key (unwrapped_key ms) = Some \<lparr>Credentials_ptr = None, TopLevel = c\<rparr>"
    using assms(5) by (simp add: decode_service_key_def unwrapped_key_def Some field_ptr_skip list_all_iff)
  ultimately show ?thesis
    by (simp add: loadGenAICredentials_def assms(1-4) creds_in_use_def zero_creds_def)
qed

text \<open>A service key, in either format, in the directory of the configuration.\<close>

definition sample_key :: members where
  "sample_key = [(''api_base'', JStr ''https://genai''), (''api_key'', JStr ''k''), (''model_name'', JStr ''m'')]"

theorem service_key_formats_agree_witness:
  "loadGenAICredentials script_ext (\<lambda>_. Some (json_Marshal (wrapped_key sample_key))) ''/cfg'' (script_start [])
     = (Inr (''https://genai'', ''k'', ''m''), script_start [])"
proof -
  have k: "list_all (\<lambda>(k, v). \<not> key_match ''credentials'' k) sample_key"
    by code_simp
  have n: "json_norm (unwrapped_key sample_key) = unwrapped_key sample_key"
    "json_norm (wrapped_key sample_key) = wrapped_key sample_key"
    by code_simp+
  have f: "json_fits (Suc (Suc n)) (unwrapped_key sample_key)" "json_fits (Suc (Suc n)) (wrapped_key sample_key)" for n
    by (simp_all add: unwrapped_key_def wrapped_key_def sample_key_def)
  have "maxNestingDepth = Suc (Suc 9998)"
    by (simp add: maxNestingDepth_def)
  then have u: "json_Unmarshal (json_Marshal (unwrapped_key sample_key)) = Some (unwrapped_key sample_key)"
    "json_Unmarshal (json_Marshal (wrapped_key sample_key)) = Some (wrapped_key sample_key)"
    using json_read_back(1) [of "unwrapped_key sample_key"] json_read_back(1) [of "wrapped_key sample_key"] f n by metis+
  have "decode_service_key (unwrapped_key sample_key) =
      Some \<lparr>Credentials_ptr = None, TopLevel = zero_creds\<lparr>k_APIBase := ''https://genai'', k_APIKey := ''k'', k_ModelName := ''m''\<rparr>\<rparr>"
    by code_simp
  then have "loadGenAICredentials script_ext (\<lambda>_. Some (json_Marshal (unwrapped_key sample_key))) ''/cfg'' (script_start [])
      = (Inr (''https://genai'', ''k'', ''m''), script_start [])"
    using u(1) by (simp add: loadGenAICredentials_def creds_in_use_def zero_creds_def)
  then show ?thesis
    using service_key_formats_agree [of "\<lambda>_. Some (json_Marshal (unwrapped_key sample_key))" "''/cfg''"
      "json_Marshal (unwrapped_key sample_key)" sample_key "\<lambda>_. Some (json_Marshal (wrapped_key sample_key))"
      "json_Marshal (wrapped_key sample_key)" script_ext "script_start []"] u k by simp
qed

end
