(* ===== verification/Process.thy ===== *)
theory Process
  imports Durability Server
begin

text \<open>
  The life of the broker process (the end of \<^verbatim>\<open>main\<close>): it serves until a signal arrives, then closes the
  listener and waits up to thirty seconds for the requests in progress (\<^verbatim>\<open>srv.Shutdown\<close>). Every request
  is a goroutine of \<open>Interleaving\<close>; that one arrives later than another is a schedule in which it takes
  its first step later, so that the running process is a run of goroutines.
\<close>

section \<open>Model\<close>

text \<open>The exit status of a process that ended by itself, or its end by \<^verbatim>\<open>SIGKILL\<close>.\<close>

datatype process_phase = Listening | ShuttingDown | Exited nat | Killed

definition running :: "process_phase \<Rightarrow> bool" where
  "running ph \<longleftrightarrow> ph = Listening \<or> ph = ShuttingDown"

type_synonym process = "process_phase \<times> pc list \<times> Broker"

text \<open>
  The steps of a process. A connection that was accepted before the listener was closed may still
  bring its first request during the shutdown. The signals after the first stay in the channel.
\<close>

inductive process_step :: "('w, 'e) ext_scheme \<Rightarrow> process \<Rightarrow> process \<Rightarrow> bool" for e where
  arrived: "running ph \<Longrightarrow> process_step e (ph, ts, b) (ph, ts @ [Start req], b)"
| worked: "running ph \<Longrightarrow> conc_step e (ts, b) (ts', b') \<Longrightarrow> process_step e (ph, ts, b) (ph, ts', b')"
| signalled: "process_step e (Listening, ts, b) (ShuttingDown, ts, b)"
| stopped: "list_all finished ts \<Longrightarrow> process_step e (ShuttingDown, ts, b) (Exited 0, ts, b)"
| timed_out: "\<not> list_all finished ts \<Longrightarrow> process_step e (ShuttingDown, ts, b) (Exited 1, ts, b)"
| listen_failed: "process_step e (Listening, ts, b) (Exited 1, ts, b)"
| killed: "running ph \<Longrightarrow> process_step e (ph, ts, b) (Killed, ts, b)"

inductive_cases process_stepE: "process_step e s s'"

text \<open>The steps of a process that is left in peace: nothing arrives, nothing fails, nobody runs out of patience.\<close>

definition drain_step :: "('w, 'e) ext_scheme \<Rightarrow> process \<Rightarrow> process \<Rightarrow> bool" where
  "drain_step e s s' \<longleftrightarrow> process_step e s s' \<and> length (fst (snd s')) = length (fst (snd s)) \<and> fst s' \<notin> {Killed, Exited 1}"

section \<open>Lemmas\<close>

lemma conc_step_length: "conc_step e (ts, b) (ts', b') \<Longrightarrow> length ts' = length ts"
  by (auto elim!: conc_stepE)

lemma conc_step_append: "conc_step e (ts, b) (ts', b') \<Longrightarrow> conc_step e (ts @ us, b) (ts' @ us, b')"
proof (elim conc_stepE)
  fix j us' c w p c' w'
  assume eq: "(ts, b) = (us', c)" "(ts', b') = (us'[j := p], c')" and j: "j < length us'" "\<not> finished (us' ! j)"
    and a: "advance e (us' ! j) c w = (p, c', w')"
  have "conc_step e (us' @ us, c) ((us' @ us)[j := p], c')"
    using j a by (intro conc_stepI [where w = w and w' = w']) (simp_all add: nth_append)
  then show ?thesis
    using eq j(1) by (simp add: list_update_append)
qed

lemma conc_run_append: "(conc_step e)\<^sup>*\<^sup>* (ts, b) (ts', b') \<Longrightarrow> (conc_step e)\<^sup>*\<^sup>* (ts @ us, b) (ts' @ us, b')"
proof (induction "(ts', b')" arbitrary: ts' b' rule: rtranclp_induct)
  case (step s)
  then show ?case
    by (cases s) (auto intro: rtranclp.rtrancl_into_rtrancl conc_step_append)
qed simp

text \<open>What the running process and the goroutines have in common.\<close>

definition process_inv :: "('w, 'e) ext_scheme \<Rightarrow> Broker \<Rightarrow> process \<Rightarrow> bool" where
  "process_inv e b0 = (\<lambda>(ph, ts, b). (\<exists>reqs. (conc_step e)\<^sup>*\<^sup>* (map Start reqs, b0) (ts, b))
     \<and> (ph = Exited 0 \<longrightarrow> list_all finished ts))"

interpretation process: invariant_system "process_step e" "process_inv e b0" for e :: "('w, 'e) ext_scheme" and b0
proof unfold_locales
  fix s s' assume "process_inv e b0 s" and step: "process_step e s s'"
  then obtain ph ts b reqs where s: "s = (ph, ts, b)" "(conc_step e)\<^sup>*\<^sup>* (map Start reqs, b0) (ts, b)"
    by (auto simp: process_inv_def split: prod.splits)
  from step show "process_inv e b0 s'"
  proof (cases rule: process_step.cases)
    case (arrived ph' ts1 b1 req)
    then have "(conc_step e)\<^sup>*\<^sup>* (map Start (reqs @ [req]), b0) (ts1 @ [Start req], b1)"
      using conc_run_append [OF s(2), of "[Start req]"] s(1) by simp
    then have "\<exists>reqs. (conc_step e)\<^sup>*\<^sup>* (map Start reqs, b0) (ts1 @ [Start req], b1)"
      by blast
    then show ?thesis
      using arrived by (auto simp: process_inv_def running_def)
  next
    case (worked ph' ts1 b1 ts2 b2)
    then have "(conc_step e)\<^sup>*\<^sup>* (map Start reqs, b0) (ts2, b2)"
      using s by (auto intro: rtranclp.rtrancl_into_rtrancl)
    then show ?thesis
      using worked by (auto simp: process_inv_def running_def)
  qed (use s in \<open>auto simp: process_inv_def\<close>)
qed

lemma process_run: "(process_step e)\<^sup>*\<^sup>* (Listening, [], b) s \<Longrightarrow> process_inv e b s"
  by (rule process.inv_run) (auto simp: process_inv_def intro: exI [of _ "[]"])

fun phase_rank :: "process_phase \<Rightarrow> nat" where
  "phase_rank Listening = 2"
| "phase_rank ShuttingDown = 1"
| "phase_rank _ = 0"

lemma drain_ends: "wfp (drain_step e)\<inverse>\<inverse>"
proof -
  let ?r = "inv_image (less_than <*lex*> remaining) (\<lambda>(ph, s). (phase_rank ph, s))"
  have "wf ?r"
    unfolding remaining_def by (intro wf_inv_image wf_lex_prod wf_less_than wf_measures)
  moreover have "(s', s) \<in> ?r" if "drain_step e s s'" for s s'
    using that by (auto simp: drain_step_def running_def elim!: process_stepE dest: conc_step_remaining)
  ultimately have "wf {(s', s). drain_step e s s'}"
    by (auto intro: wf_subset)
  then show ?thesis
    by (simp add: wfp_def)
qed

lemma drain_total: "(\<exists>s'. drain_step e (ph, ts, b) s') \<longleftrightarrow> running ph"
proof
  assume "running ph"
  then consider "ph = Listening" | "ph = ShuttingDown" "list_all finished ts" | "ph = ShuttingDown" "\<not> list_all finished ts"
    by (auto simp: running_def)
  then show "\<exists>s'. drain_step e (ph, ts, b) s'"
  proof cases
    case 1
    then show ?thesis
      using signalled [of e ts b] by (auto simp: drain_step_def)
  next
    case 2
    then show ?thesis
      using stopped [of ts e b] by (auto simp: drain_step_def)
  next
    case 3
    then obtain ts' b' where "conc_step e (ts, b) (ts', b')"
      using conc_step_total [of e ts b] by auto
    then show ?thesis
      using worked [of ph e ts b ts' b'] conc_step_length 3(1) by (fastforce simp: drain_step_def running_def)
  qed
qed (auto simp: drain_step_def running_def elim: process_stepE)

lemma main_state_dir: "main_broker fs cfg = Some b \<Longrightarrow> c_StateDir (config b) = ''/var/vcap/store/openclaw-broker''"
  by (auto simp: main_broker_def New_def Let_def loadState_def broker_config_def
      split: option.splits if_splits)

lemma conc_run_process:
  "(conc_step e)\<^sup>*\<^sup>* (ts, b) (ts', b') \<Longrightarrow> running ph \<Longrightarrow> (process_step e)\<^sup>*\<^sup>* (ph, ts, b) (ph, ts', b')"
proof (induction "(ts', b')" arbitrary: ts' b' rule: rtranclp_induct)
  case (step s)
  then show ?case
    by (cases s) (auto intro: rtranclp.rtrancl_into_rtrancl worked)
qed simp

text \<open>The first start of a process, without a state file.\<close>

lemma first_start:
  obtains b where "main_broker (\<lambda>_. None) cfg = Some b" "broker_wf b" "all_known b" "files b = (\<lambda>_. None)"
  by (auto simp: main_broker_def New_def Let_def loadState_def broker_wf_def all_known_def)

section \<open>Properties\<close>





end
