(* ===== verification/Broker_Job.thy ===== *)
theory Broker_Job
  imports Server
begin

text \<open>
  The configuration file of the broker as the BOSH job renders it
  (\<^verbatim>\<open>jobs/openclaw-broker/templates/config/config.json.erb\<close>, Ruby): availability zones and plans are brought
  into the form the broker expects, every property becomes a member of one JSON document. The document
  is the value handed to \<^verbatim>\<open>JSON.pretty_generate\<close>. What the broker reads from it is what the operator set.
\<close>

section \<open>Ruby values\<close>

datatype rb = RNil | RBool bool | RInt int | RStr string | RArr "rb list" | RHash "(string \<times> rb) list"

primrec rb_json :: "rb \<Rightarrow> json" where
  "rb_json RNil = JNull"
| "rb_json (RBool b) = JBool b"
| "rb_json (RInt i) = JInt i"
| "rb_json (RStr s) = JStr s"
| "rb_json (RArr vs) = JArr (map rb_json vs)"
| "rb_json (RHash kvs) = JObj (map (map_prod id rb_json) kvs)"

definition rb_true :: "rb \<Rightarrow> bool" where
  "rb_true v \<longleftrightarrow> v \<noteq> RNil \<and> v \<noteq> RBool False"

definition rb_or :: "rb \<Rightarrow> rb \<Rightarrow> rb" where
  "rb_or v w = (if rb_true v then v else w)"

text \<open>\<^verbatim>\<open>to_s\<close>; the text of arrays and hashes is an argument.\<close>

fun to_s :: "(rb \<Rightarrow> string) \<Rightarrow> rb \<Rightarrow> string" where
  "to_s inspect RNil = []"
| "to_s inspect (RBool b) = (if b then ''true'' else ''false'')"
| "to_s inspect (RInt i) = itoa i"
| "to_s inspect (RStr s) = s"
| "to_s inspect v = inspect v"

definition fetch :: "(string \<times> rb) list \<Rightarrow> string \<Rightarrow> rb \<Rightarrow> rb" where
  "fetch h k d = (case map_of h k of Some v \<Rightarrow> v | None \<Rightarrow> d)"

definition rb_space :: "char \<Rightarrow> bool" where
  "rb_space c \<longleftrightarrow> byte c = 0 \<or> 9 \<le> byte c \<and> byte c \<le> 13 \<or> byte c = 32"

definition rb_strip :: "string \<Rightarrow> string" where
  "rb_strip s = dropWhile rb_space (rev (dropWhile rb_space (rev s)))"

text \<open>\<^verbatim>\<open>split\<close> drops the empty strings at the end.\<close>

definition rb_split :: "char \<Rightarrow> string \<Rightarrow> string list" where
  "rb_split sep s = rev (dropWhile (\<lambda>t. t = []) (rev (strings_Split sep s)))"

section \<open>The template\<close>

definition azs_array :: "rb \<Rightarrow> rb list" where
  "azs_array azs_raw =
    (case azs_raw of
       RArr vs \<Rightarrow> vs
     | RStr s \<Rightarrow> if rb_strip s = [] then [] else [RStr (rb_strip s)]
     | _ \<Rightarrow> [])"

definition plan_name_of :: "string \<Rightarrow> string" where
  "plan_name_of name = map (\<lambda>c. if c = CHR ''_'' then CHR ''-'' else c) name"

definition plan_azs :: "(rb \<Rightarrow> string) \<Rightarrow> rb list \<Rightarrow> (string \<times> rb) list \<Rightarrow> rb list" where
  "plan_azs inspect azs cfg =
    (let raw_az = rb_or (fetch cfg ''az'' RNil) (rb_or (fetch cfg ''azs'' RNil) (rb_or (fetch cfg ''az_multi_select'' RNil) (RStr [])));
         own = (case raw_az of
                  RArr vs \<Rightarrow> map RStr (filter (\<lambda>s. s \<noteq> []) (map (to_s inspect) vs))
                | RStr s \<Rightarrow>
                    if rb_strip s \<noteq> [] then map RStr (filter (\<lambda>s. s \<noteq> []) (map rb_strip (rb_split (CHR '','') s))) else []
                | _ \<Rightarrow> [])
     in if own = [] then azs else own)"

text \<open>One plan; \<open>capitalize\<close> is the case mapping of \<^verbatim>\<open>String#capitalize\<close>.\<close>

definition plan_hash :: "(rb \<Rightarrow> string) \<Rightarrow> (string \<Rightarrow> string) \<Rightarrow> rb list \<Rightarrow> string \<times> (string \<times> rb) list \<Rightarrow> rb" where
  "plan_hash inspect capitalize azs = (\<lambda>(name, cfg).
     RHash [(''name'', RStr (plan_name_of name)),
       (''description'', RStr (to_s inspect (rb_or (fetch cfg ''plan_description'' RNil) (rb_or (fetch cfg ''description'' RNil) (RStr []))))),
       (''vm_type'', RStr (to_s inspect (fetch cfg ''vm_type'' RNil))),
       (''disk_type'', RStr (to_s inspect (fetch cfg ''disk_type'' RNil))),
       (''azs'', RArr (plan_azs inspect azs cfg)),
       (''features'', RHash [(''browser'', fetch cfg ''browser_automation'' (RBool False))]),
       (''metadata'', RHash
          [(''displayName'', RStr (strings_Join '' '' (map capitalize (rb_split (CHR ''-'') (plan_name_of name))))),
           (''max_sessions'', fetch cfg ''max_sessions'' (RInt 1))])])"

text \<open>The hash of a plan; a plan that is no hash has no \<^verbatim>\<open>fetch\<close> and ends the rendering.\<close>

definition plan_cfg :: "string \<times> rb \<Rightarrow> (string \<times> (string \<times> rb) list) option" where
  "plan_cfg = (\<lambda>(name, v). case v of RHash cfg \<Rightarrow> Some (name, cfg) | _ \<Rightarrow> None)"

definition enabled_plan :: "string \<times> (string \<times> rb) list \<Rightarrow> bool" where
  "enabled_plan = (\<lambda>(name, cfg). rb_true (fetch cfg ''enabled'' (RBool True)))"

definition plans_array :: "(rb \<Rightarrow> string) \<Rightarrow> (string \<Rightarrow> string) \<Rightarrow> rb list \<Rightarrow> rb \<Rightarrow> rb list option" where
  "plans_array inspect capitalize azs plans_hash =
    (case plans_hash of
       RHash kvs \<Rightarrow> map_option (\<lambda>ps. map (plan_hash inspect capitalize azs) (filter enabled_plan ps)) (those (map plan_cfg kvs))
     | RArr vs \<Rightarrow> Some vs
     | _ \<Rightarrow> Some [])"

text \<open>
  The properties of the job by name. \<open>p\<close> without a default fails when a property is missing; with one
  it returns the default.
\<close>

type_synonym properties = "string \<Rightarrow> rb option"

definition property :: "properties \<Rightarrow> string \<Rightarrow> rb \<Rightarrow> rb" where
  "property p k d = (case p (''openclaw.broker.'' @ k) of Some v \<Rightarrow> v | None \<Rightarrow> d)"

definition pd :: "properties \<Rightarrow> string \<Rightarrow> rb \<Rightarrow> json" where
  "pd p k d = rb_json (property p k d)"

definition pr :: "properties \<Rightarrow> string \<Rightarrow> json option" where
  "pr p k = map_option rb_json (p (''openclaw.broker.'' @ k))"

definition section_of :: "(string \<times> json option) list \<Rightarrow> json option" where
  "section_of ms = map_option JObj (those (map (\<lambda>(k, v). map_option (Pair k) v) ms))"

definition auth_section :: "properties \<Rightarrow> json option" where
  "auth_section p = section_of [(''username'', pr p ''auth.username''), (''password'', pr p ''auth.password'')]"

definition tls_section :: "properties \<Rightarrow> json option" where
  "tls_section p = section_of [(''enabled'', pr p ''tls.enabled''), (''certificate'', Some (pd p ''tls.certificate'' (RStr []))),
     (''private_key'', Some (pd p ''tls.private_key'' (RStr [])))]"

definition bosh_section :: "properties \<Rightarrow> json option" where
  "bosh_section p = section_of [(''director_url'', pr p ''bosh.director_url''), (''uaa_url'', Some (pd p ''bosh.uaa_url'' (RStr []))),
     (''client_id'', pr p ''bosh.client_id''), (''client_secret'', pr p ''bosh.client_secret''),
     (''ca_cert'', Some (pd p ''bosh.ca_cert'' (RStr [])))]"

definition agent_defaults_section :: "properties \<Rightarrow> json option" where
  "agent_defaults_section p = section_of [(''openclaw_version'', pr p ''agent_defaults.openclaw_version''),
     (''stemcell'', pr p ''agent_defaults.stemcell''), (''network'', pr p ''agent_defaults.network''),
     (''az'', Some (pd p ''agent_defaults.az'' (RStr [])))]"

definition genai_section :: "properties \<Rightarrow> json option" where
  "genai_section p = section_of [(''provider'', Some (pd p ''genai.provider'' (RStr []))), (''endpoint'', Some (pd p ''genai.endpoint'' (RStr []))),
     (''api_key'', Some (pd p ''genai.api_key'' (RStr []))), (''model'', Some (pd p ''genai.model'' (RStr []))),
     (''preferred_model'', Some (pd p ''preferred_model'' (RStr []))), (''api_endpoint'', Some (pd p ''genai.api_endpoint'' (RStr []))),
     (''offering_name'', Some (pd p ''genai.offering_name'' (RStr []))), (''plan_name'', Some (pd p ''genai.plan_name'' (RStr [])))]"

definition nats_tls_section :: "properties \<Rightarrow> json option" where
  "nats_tls_section p = section_of [(''enabled'', pr p ''nats.tls.enabled''),
     (''client_cert'', Some (pd p ''nats.tls.client_cert'' (RStr []))), (''client_key'', Some (pd p ''nats.tls.client_key'' (RStr []))),
     (''ca_cert'', Some (pd p ''nats.tls.ca_cert'' (RStr [])))]"

definition on_demand_section :: "properties \<Rightarrow> rb list \<Rightarrow> rb list \<Rightarrow> json option" where
  "on_demand_section p azs plans = section_of [(''service_name'', pr p ''on_demand.service_name''), (''plans'', Some (rb_json (RArr plans))),
     (''stemcell_os'', pr p ''on_demand.stemcell_os''), (''stemcell_version'', pr p ''on_demand.stemcell_version''),
     (''network'', Some (pd p ''on_demand.network'' (RStr []))), (''azs'', Some (rb_json (RArr azs))),
     (''openclaw_release_version'', Some (pd p ''on_demand.openclaw_release_version'' (RStr ''latest''))),
     (''bpm_release_version'', Some (pd p ''on_demand.bpm_release_version'' (RStr ''1.1.21''))),
     (''routing_release_version'', Some (pd p ''on_demand.routing_release_version'' (RStr ''0.283.0'')))]"

definition cf_section :: "properties \<Rightarrow> json option" where
  "cf_section p = section_of [(''system_domain'', Some (pd p ''cf.system_domain'' (RStr []))), (''apps_domain'', Some (pd p ''cf.apps_domain'' (RStr []))),
     (''deployment_name'', Some (pd p ''cf.deployment_name'' (RStr []))), (''api_url'', Some (pd p ''cf.api_url'' (RStr []))),
     (''admin_username'', Some (pd p ''cf.admin_username'' (RStr []))), (''admin_password'', Some (pd p ''cf.admin_password'' (RStr []))),
     (''skip_ssl_validation'', Some (pd p ''cf.skip_ssl_validation'' (RBool True)))]"

definition cf_uaa_section :: "properties \<Rightarrow> json option" where
  "cf_uaa_section p = section_of [(''url'', Some (pd p ''cf_uaa.url'' (RStr []))),
     (''admin_client_id'', Some (pd p ''cf_uaa.admin_client_id'' (RStr ''admin''))),
     (''admin_client_secret'', Some (pd p ''cf_uaa.admin_client_secret'' (RStr [])))]"

definition security_section :: "properties \<Rightarrow> json option" where
  "security_section p = section_of [(''sandbox_mode'', pr p ''security.sandbox_mode''),
     (''blocked_commands'', Some (pd p ''security.blocked_commands'' (RStr []))),
     (''min_openclaw_version'', Some (pd p ''security.min_openclaw_version'' (RStr []))),
     (''sso_enabled'', Some (pd p ''security.sso_enabled'' (RBool False))),
     (''sso_oidc_issuer_url'', Some (pd p ''security.sso_oidc_issuer_url'' (RStr []))),
     (''sso_allowed_email_domains'', Some (pd p ''security.sso_allowed_email_domains'' (RStr []))),
     (''sso_session_timeout_hours'', Some (pd p ''security.sso_session_timeout_hours'' (RInt 8)))]"

definition metering_section :: "properties \<Rightarrow> json option" where
  "metering_section p = section_of [(''enabled'', pr p ''metering.enabled''), (''export_interval_minutes'', pr p ''metering.export_interval_minutes'')]"

definition limits_section :: "properties \<Rightarrow> json option" where
  "limits_section p = section_of [(''max_instances'', pr p ''limits.max_instances''), (''max_instances_per_org'', pr p ''limits.max_instances_per_org'')]"

definition config_template :: "(rb \<Rightarrow> string) \<Rightarrow> (string \<Rightarrow> string) \<Rightarrow> properties \<Rightarrow> json option" where
  "config_template inspect capitalize p = do {
     az \<leftarrow> p ''openclaw.broker.on_demand.az'';
     ph \<leftarrow> p ''openclaw.broker.on_demand.plans'';
     plans \<leftarrow> plans_array inspect capitalize (azs_array az) ph;
     section_of [(''port'', pr p ''port''), (''auth'', auth_section p), (''tls'', tls_section p), (''bosh'', bosh_section p),
       (''agent_defaults'', agent_defaults_section p), (''genai'', genai_section p),
       (''nats'', section_of [(''tls'', nats_tls_section p)]), (''on_demand'', on_demand_section p (azs_array az) plans),
       (''cf'', cf_section p), (''cf_uaa'', cf_uaa_section p), (''security'', security_section p),
       (''metering'', metering_section p), (''limits'', limits_section p)] }"

section \<open>What the operator means\<close>

text \<open>A property of the type its specification documents.\<close>

fun str_of :: "rb \<Rightarrow> string" where
  "str_of (RStr s) = s"
| "str_of _ = []"

fun int_of :: "rb \<Rightarrow> int" where
  "int_of (RInt i) = i"
| "int_of _ = 0"

fun bool_of :: "rb \<Rightarrow> bool" where
  "bool_of (RBool b) = b"
| "bool_of _ = False"

definition required :: "string list" where
  "required = [''auth.username'', ''auth.password'', ''bosh.director_url'', ''bosh.client_id'', ''bosh.client_secret'',
     ''agent_defaults.openclaw_version'', ''agent_defaults.stemcell'', ''agent_defaults.network'', ''on_demand.service_name'',
     ''on_demand.stemcell_os'', ''on_demand.stemcell_version'', ''security.sandbox_mode'']"

definition optional :: "string list" where
  "optional = [''bosh.uaa_url'', ''bosh.ca_cert'', ''agent_defaults.az'', ''genai.provider'', ''genai.endpoint'', ''genai.api_key'',
     ''genai.model'', ''preferred_model'', ''genai.api_endpoint'', ''genai.offering_name'', ''genai.plan_name'',
     ''nats.tls.client_cert'', ''nats.tls.client_key'', ''nats.tls.ca_cert'', ''on_demand.network'', ''on_demand.openclaw_release_version'',
     ''on_demand.bpm_release_version'', ''on_demand.routing_release_version'', ''cf.system_domain'', ''cf.apps_domain'', ''cf.deployment_name'',
     ''cf.api_url'', ''cf.admin_username'', ''cf.admin_password'', ''cf_uaa.url'', ''cf_uaa.admin_client_id'', ''cf_uaa.admin_client_secret'',
     ''security.blocked_commands'', ''security.min_openclaw_version'', ''security.sso_oidc_issuer_url'', ''security.sso_allowed_email_domains'']"

definition documented :: "properties \<Rightarrow> bool" where
  "documented p \<longleftrightarrow>
     (\<forall>k\<in>set required. \<exists>s. p (''openclaw.broker.'' @ k) = Some (RStr s))
   \<and> (\<forall>k\<in>set optional. p (''openclaw.broker.'' @ k) = None \<or> (\<exists>s. p (''openclaw.broker.'' @ k) = Some (RStr s)))
   \<and> (\<forall>k\<in>{''port'', ''limits.max_instances'', ''limits.max_instances_per_org''}. \<exists>i. p (''openclaw.broker.'' @ k) = Some (RInt i) \<and> int64_range i)
   \<and> (\<exists>b. p ''openclaw.broker.nats.tls.enabled'' = Some (RBool b))
   \<and> (\<forall>k\<in>{''cf.skip_ssl_validation'', ''security.sso_enabled''}.
        p (''openclaw.broker.'' @ k) = None \<or> (\<exists>b. p (''openclaw.broker.'' @ k) = Some (RBool b)))
   \<and> (p ''openclaw.broker.security.sso_session_timeout_hours'' = None
        \<or> (\<exists>i. p ''openclaw.broker.security.sso_session_timeout_hours'' = Some (RInt i) \<and> int64_range i))
   \<and> (\<forall>k\<in>{''tls.enabled'', ''metering.enabled'', ''metering.export_interval_minutes''}. p (''openclaw.broker.'' @ k) \<noteq> None)"

abbreviation strp :: "properties \<Rightarrow> string \<Rightarrow> string \<Rightarrow> string" where
  "strp p k d \<equiv> str_of (property p k (RStr d))"

abbreviation intp :: "properties \<Rightarrow> string \<Rightarrow> int \<Rightarrow> int" where
  "intp p k d \<equiv> int_of (property p k (RInt d))"

abbreviation boolp :: "properties \<Rightarrow> string \<Rightarrow> bool \<Rightarrow> bool" where
  "boolp p k d \<equiv> bool_of (property p k (RBool d))"

text \<open>The configuration with these properties, zones and plans.\<close>

definition operator_config :: "properties \<Rightarrow> string list \<Rightarrow> Plan list \<Rightarrow> Config" where
  "operator_config p zs ps =
     \<lparr>Port = intp p ''port'' 0, Auth_Username = strp p ''auth.username'' [], Auth_Password = strp p ''auth.password'' [],
      BOSH_DirectorURL = strp p ''bosh.director_url'' [], BOSH_UaaURL = strp p ''bosh.uaa_url'' [], BOSH_ClientID = strp p ''bosh.client_id'' [],
      BOSH_ClientSecret = strp p ''bosh.client_secret'' [], BOSH_CACert = strp p ''bosh.ca_cert'' [],
      AgentDefaults_OpenClawVersion = strp p ''agent_defaults.openclaw_version'' [], AgentDefaults_Stemcell = strp p ''agent_defaults.stemcell'' [],
      AgentDefaults_Network = strp p ''agent_defaults.network'' [], AgentDefaults_AZ = strp p ''agent_defaults.az'' [],
      Security_MinOpenClawVersion = strp p ''security.min_openclaw_version'' [], Security_SandboxMode = strp p ''security.sandbox_mode'' [],
      Security_BlockedCommands = strp p ''security.blocked_commands'' [], Security_SSOEnabled = boolp p ''security.sso_enabled'' False,
      Security_SSOOIDCIssuerURL = strp p ''security.sso_oidc_issuer_url'' [],
      Security_SSOAllowedEmailDomains = strp p ''security.sso_allowed_email_domains'' [],
      Security_SSOSessionTimeoutHours = intp p ''security.sso_session_timeout_hours'' 8,
      CFUAA_URL = strp p ''cf_uaa.url'' [], CFUAA_AdminClientID = strp p ''cf_uaa.admin_client_id'' ''admin'',
      CFUAA_AdminClientSecret = strp p ''cf_uaa.admin_client_secret'' [],
      GenAI_Provider = strp p ''genai.provider'' [], GenAI_Endpoint = strp p ''genai.endpoint'' [], GenAI_APIKey = strp p ''genai.api_key'' [],
      GenAI_Model = strp p ''genai.model'' [], GenAI_PreferredModel = strp p ''preferred_model'' [], GenAI_APIEndpoint = strp p ''genai.api_endpoint'' [],
      GenAI_OfferingName = strp p ''genai.offering_name'' [], GenAI_PlanName = strp p ''genai.plan_name'' [],
      NATS_TLS_Enabled = boolp p ''nats.tls.enabled'' False, NATS_TLS_ClientCert = strp p ''nats.tls.client_cert'' [],
      NATS_TLS_ClientKey = strp p ''nats.tls.client_key'' [], NATS_TLS_CACert = strp p ''nats.tls.ca_cert'' [],
      OnDemand_ServiceName = strp p ''on_demand.service_name'' [], OnDemand_Plans = ps, OnDemand_StemcellOS = strp p ''on_demand.stemcell_os'' [],
      OnDemand_StemcellVersion = strp p ''on_demand.stemcell_version'' [], OnDemand_Network = strp p ''on_demand.network'' [], OnDemand_AZs = zs,
      OnDemand_OpenClawReleaseVersion = strp p ''on_demand.openclaw_release_version'' ''latest'',
      OnDemand_BPMReleaseVersion = strp p ''on_demand.bpm_release_version'' ''1.1.21'',
      OnDemand_RoutingReleaseVersion = strp p ''on_demand.routing_release_version'' ''0.283.0'',
      CF_SystemDomain = strp p ''cf.system_domain'' [], CF_AppsDomain = strp p ''cf.apps_domain'' [], CF_DeploymentName = strp p ''cf.deployment_name'' [],
      CF_APIURL = strp p ''cf.api_url'' [], CF_AdminUsername = strp p ''cf.admin_username'' [], CF_AdminPassword = strp p ''cf.admin_password'' [],
      CF_SkipSSLValidation = boolp p ''cf.skip_ssl_validation'' True, Plans = [],
      Limits_MaxInstances = intp p ''limits.max_instances'' 0, Limits_MaxInstancesPerOrg = intp p ''limits.max_instances_per_org'' 0\<rparr>"

text \<open>A plan as the operator filled it in, and the plan of the broker it stands for.\<close>

definition documented_plan :: "string \<times> (string \<times> rb) list \<Rightarrow> bool" where
  "documented_plan = (\<lambda>(name, cfg). name \<noteq> []
     \<and> (\<exists>b. fetch cfg ''browser_automation'' (RBool False) = RBool b)
     \<and> (\<exists>i. fetch cfg ''max_sessions'' (RInt 1) = RInt i \<and> nat \<bar>i\<bar> < float64_limit))"

definition job_plan :: "(rb \<Rightarrow> string) \<Rightarrow> (string \<Rightarrow> string) \<Rightarrow> string list \<Rightarrow> string \<times> (string \<times> rb) list \<Rightarrow> Plan" where
  "job_plan inspect capitalize zs = (\<lambda>(name, cfg). zero_plan\<lparr>
     p_Name := plan_name_of name,
     p_Description := to_s inspect (rb_or (fetch cfg ''plan_description'' RNil) (rb_or (fetch cfg ''description'' RNil) (RStr []))),
     p_VMType := to_s inspect (fetch cfg ''vm_type'' RNil),
     p_DiskType := to_s inspect (fetch cfg ''disk_type'' RNil),
     p_AZs := map str_of (plan_azs inspect (map RStr zs) cfg),
     p_Features := [(''browser'', bool_of (fetch cfg ''browser_automation'' (RBool False)))],
     p_Metadata := [(''displayName'', JStr (strings_Join '' '' (map capitalize (rb_split (CHR ''-'') (plan_name_of name))))),
                    (''max_sessions'', JInt (int_of (fetch cfg ''max_sessions'' (RInt 1))))]\<rparr>)"

text \<open>What the operator filled in: properties, zones of the service, plans.\<close>

definition filled_in :: "properties \<Rightarrow> string list \<Rightarrow> (string \<times> (string \<times> rb) list) list \<Rightarrow> bool" where
  "filled_in p zs plans \<longleftrightarrow> documented p
     \<and> (\<exists>az. p ''openclaw.broker.on_demand.az'' = Some az \<and> azs_array az = map RStr zs)
     \<and> p ''openclaw.broker.on_demand.plans'' = Some (RHash (map (\<lambda>(n, c). (n, RHash c)) plans))
     \<and> list_all documented_plan plans"

section \<open>Lemmas\<close>

text \<open>Tags of small letters and underscores match only themselves.\<close>

definition plain_tag :: "string \<Rightarrow> bool" where
  "plain_tag s \<longleftrightarrow> list_all (\<lambda>c. is_lower c \<or> c = CHR ''_'') s"

lemma fold_name_plain: "plain_tag s \<Longrightarrow> fold_name s = map (\<lambda>c. fold_rune (byte c)) s"
proof -
  assume s: "plain_tag s"
  then have "\<forall>c\<in>set s. is_ascii c"
    by (auto simp: plain_tag_def list_all_iff is_lower_def is_ascii_def)
  then show ?thesis
    by (simp add: fold_name_def utf8_runes_ascii comp_def)
qed

lemma key_match_plain: "plain_tag s \<Longrightarrow> plain_tag t \<Longrightarrow> key_match s t \<longleftrightarrow> s = t"
proof -
  assume p: "plain_tag s" "plain_tag t"
  have "c = d" if "fold_rune (byte c) = fold_rune (byte d)" "is_lower c \<or> c = CHR ''_''" "is_lower d \<or> d = CHR ''_''" for c d
  proof -
    have "byte c = byte d"
      using that by (auto simp: fold_rune_def is_lower_def simp del: of_char_eq_iff split: if_splits)
    then show ?thesis
      by (simp only: of_char_eq_iff)
  qed
  then have "inj_on (\<lambda>c. fold_rune (byte c)) {c. is_lower c \<or> c = CHR ''_''}"
    by (intro inj_onI) simp
  then have "inj_on (map (\<lambda>c. fold_rune (byte c))) (lists {c. is_lower c \<or> c = CHR ''_''})"
    by (rule inj_on_mapI [OF inj_on_subset]) auto
  then show ?thesis
    using p by (auto simp: key_match_def fold_name_plain) (auto simp: inj_on_def plain_tag_def list_all_iff in_lists_conv_set)
qed

text \<open>A member of a struct is looked up by its tag.\<close>

definition plain_members :: "members \<Rightarrow> bool" where
  "plain_members ms \<longleftrightarrow> list_all (\<lambda>(k, v). plain_tag k) ms \<and> distinct (map fst ms)"

lemma plain_absent: "plain_tag t \<Longrightarrow> list_all (\<lambda>(k, v). plain_tag k) ms \<Longrightarrow> t \<notin> fst ` set ms \<Longrightarrow>
    field_string t ms x = Some x \<and> field_int t ms i = Some i \<and> field_bool t ms b = Some b
    \<and> field_slice dec t ms ys = Some ys \<and> field_struct ds t ms z = Some z \<and> field_map dm t ms m = Some m"
  by (induction ms) (auto simp: key_match_plain)

lemma field_plain:
  assumes "plain_tag t" "plain_members ms"
  shows "map_of ms t = Some (JStr s) \<Longrightarrow> field_string t ms x = Some s"
    and "map_of ms t = Some (JInt i) \<Longrightarrow> int64_range i \<Longrightarrow> field_int t ms n = Some i"
    and "map_of ms t = Some (JBool b) \<Longrightarrow> field_bool t ms c = Some b"
    and "map_of ms t = Some (JArr vs) \<Longrightarrow> field_slice dec t ms ys = those (map dec vs)"
    and "map_of ms t = Some (JObj fs) \<Longrightarrow> field_struct ds t ms z = ds fs z"
    and "map_of ms t = Some (JObj fs) \<Longrightarrow> field_map dm t ms m
           = map_option (\<lambda>es. fold (\<lambda>(k, v). AList.update k v) es m) (those (map (\<lambda>(k, v). map_option (Pair k) (dm v)) fs))"
  using assms
  by (induction ms)
    (auto simp: key_match_plain plain_members_def plain_absent image_iff split: if_splits option.splits)

text \<open>The properties the template reads, each as the value the operator set or its default.\<close>

lemma documented_required:
  assumes "documented p"
  shows "\<forall>k\<in>set required. pr p k = Some (JStr (str_of (property p k (RStr []))))"
proof
  fix k
  assume "k \<in> set required"
  then obtain s where "p (''openclaw.broker.'' @ k) = Some (RStr s)"
    using assms by (auto simp: documented_def)
  then show "pr p k = Some (JStr (str_of (property p k (RStr []))))"
    by (simp add: pr_def property_def)
qed

lemma documented_optional:
  assumes "documented p"
  shows "\<forall>k\<in>set optional. \<forall>d. pd p k (RStr d) = JStr (str_of (property p k (RStr d)))"
proof (intro ballI allI)
  fix k d
  assume "k \<in> set optional"
  then have "p (''openclaw.broker.'' @ k) = None \<or> (\<exists>s. p (''openclaw.broker.'' @ k) = Some (RStr s))"
    using assms by (simp add: documented_def)
  then show "pd p k (RStr d) = JStr (str_of (property p k (RStr d)))"
    by (auto simp: pd_def property_def)
qed

lemma documented_number:
  assumes "documented p" "k \<in> {''port'', ''limits.max_instances'', ''limits.max_instances_per_org''}"
  shows "pr p k = Some (JInt (int_of (property p k (RInt 0)))) \<and> int64_range (int_of (property p k (RInt 0)))"
proof -
  obtain i where "p (''openclaw.broker.'' @ k) = Some (RInt i)" "int64_range i"
    using assms unfolding documented_def by blast
  then show ?thesis
    by (simp add: pr_def property_def)
qed

lemma documented_hours:
  assumes "documented p"
  shows "pd p ''security.sso_session_timeout_hours'' (RInt 8) = JInt (int_of (property p ''security.sso_session_timeout_hours'' (RInt 8)))
    \<and> int64_range (int_of (property p ''security.sso_session_timeout_hours'' (RInt 8)))"
proof -
  have "int64_range 8"
    by (simp add: int64_range_def)
  then show ?thesis
    using assms by (auto simp: documented_def pd_def property_def)
qed

lemma documented_flags:
  assumes "documented p"
  shows "pr p ''nats.tls.enabled'' = Some (JBool (bool_of (property p ''nats.tls.enabled'' (RBool False))))"
    and "pd p ''cf.skip_ssl_validation'' (RBool True) = JBool (bool_of (property p ''cf.skip_ssl_validation'' (RBool True)))"
    and "pd p ''security.sso_enabled'' (RBool False) = JBool (bool_of (property p ''security.sso_enabled'' (RBool False)))"
  using assms by (auto simp: documented_def pr_def pd_def property_def)

lemma plain_tag_eval:
  "plain_tag []"
  "plain_tag (c # s) \<longleftrightarrow> (97 \<le> byte c \<and> byte c \<le> 122 \<or> c = CHR ''_'') \<and> plain_tag s"
  by (simp_all add: plain_tag_def is_lower_def)

lemma plain_members_eval:
  "plain_members []"
  "plain_members ((k, v) # ms) \<longleftrightarrow> plain_tag k \<and> k \<notin> set (map fst ms) \<and> plain_members ms"
  by (auto simp: plain_members_def)

lemmas job_read = field_plain plain_tag_eval plain_members_eval
lemmas field_eqs = field_string.simps field_int.simps field_bool.simps field_slice.simps field_struct.simps field_map.simps

lemma section_of_eval: "section_of [] = Some (JObj [])"
  "section_of ((k, v) # ms) = (case v of None \<Rightarrow> None | Some j \<Rightarrow>
     (case section_of ms of Some (JObj fs) \<Rightarrow> Some (JObj ((k, j) # fs)) | _ \<Rightarrow> None))"
  by (auto simp: section_of_def split: option.splits)

text \<open>A section is rendered, and reading it sets its fields.\<close>

definition reads :: "json option \<Rightarrow> (members \<Rightarrow> Config \<Rightarrow> Config option) \<Rightarrow> (Config \<Rightarrow> Config) \<Rightarrow> bool" where
  "reads sec dec upd \<longleftrightarrow> (\<exists>ms. sec = Some (JObj ms) \<and> (\<forall>c. dec ms c = Some (upd c)))"

lemmas job_values = documented_required [unfolded required_def, simplified]
  documented_optional [unfolded optional_def, simplified] documented_flags documented_hours

lemma auth_read:
  "documented p \<Longrightarrow> reads (auth_section p) decode_auth (\<lambda>c. c\<lparr>Auth_Username := strp p ''auth.username'' [], Auth_Password := strp p ''auth.password'' []\<rparr>)"
  by (simp add: reads_def auth_section_def section_of_eval decode_auth_def job_read job_values del: field_eqs)

lemma bosh_read:
  "documented p \<Longrightarrow> reads (bosh_section p) decode_bosh (\<lambda>c. c\<lparr>BOSH_DirectorURL := strp p ''bosh.director_url'' [], BOSH_UaaURL := strp p ''bosh.uaa_url'' [],
     BOSH_ClientID := strp p ''bosh.client_id'' [], BOSH_ClientSecret := strp p ''bosh.client_secret'' [],
     BOSH_CACert := strp p ''bosh.ca_cert'' []\<rparr>)"
  by (simp add: reads_def bosh_section_def section_of_eval decode_bosh_def job_read job_values del: field_eqs)

lemma agent_defaults_read:
  "documented p \<Longrightarrow> reads (agent_defaults_section p) decode_agent_defaults (\<lambda>c. c\<lparr>AgentDefaults_OpenClawVersion := strp p ''agent_defaults.openclaw_version'' [], AgentDefaults_Stemcell := strp p ''agent_defaults.stemcell'' [],
     AgentDefaults_Network := strp p ''agent_defaults.network'' [], AgentDefaults_AZ := strp p ''agent_defaults.az'' []\<rparr>)"
  by (simp add: reads_def agent_defaults_section_def section_of_eval decode_agent_defaults_def job_read job_values del: field_eqs)

lemma genai_read:
  "documented p \<Longrightarrow> reads (genai_section p) decode_genai (\<lambda>c. c\<lparr>GenAI_Provider := strp p ''genai.provider'' [], GenAI_Endpoint := strp p ''genai.endpoint'' [],
     GenAI_APIKey := strp p ''genai.api_key'' [], GenAI_Model := strp p ''genai.model'' [],
     GenAI_PreferredModel := strp p ''preferred_model'' [], GenAI_APIEndpoint := strp p ''genai.api_endpoint'' [],
     GenAI_OfferingName := strp p ''genai.offering_name'' [], GenAI_PlanName := strp p ''genai.plan_name'' []\<rparr>)"
  by (simp add: reads_def genai_section_def section_of_eval decode_genai_def job_read job_values del: field_eqs)

lemma nats_tls_read:
  "documented p \<Longrightarrow> reads (nats_tls_section p) decode_nats_tls (\<lambda>c. c\<lparr>NATS_TLS_Enabled := boolp p ''nats.tls.enabled'' False, NATS_TLS_ClientCert := strp p ''nats.tls.client_cert'' [],
     NATS_TLS_ClientKey := strp p ''nats.tls.client_key'' [], NATS_TLS_CACert := strp p ''nats.tls.ca_cert'' []\<rparr>)"
  by (simp add: reads_def nats_tls_section_def section_of_eval decode_nats_tls_def job_read job_values del: field_eqs)

lemma cf_read:
  "documented p \<Longrightarrow> reads (cf_section p) decode_cf (\<lambda>c. c\<lparr>CF_SystemDomain := strp p ''cf.system_domain'' [], CF_AppsDomain := strp p ''cf.apps_domain'' [],
     CF_DeploymentName := strp p ''cf.deployment_name'' [], CF_APIURL := strp p ''cf.api_url'' [],
     CF_AdminUsername := strp p ''cf.admin_username'' [], CF_AdminPassword := strp p ''cf.admin_password'' [],
     CF_SkipSSLValidation := boolp p ''cf.skip_ssl_validation'' True\<rparr>)"
  by (simp add: reads_def cf_section_def section_of_eval decode_cf_def job_read job_values del: field_eqs)

lemma cf_uaa_read:
  "documented p \<Longrightarrow> reads (cf_uaa_section p) decode_cf_uaa (\<lambda>c. c\<lparr>CFUAA_URL := strp p ''cf_uaa.url'' [], CFUAA_AdminClientID := strp p ''cf_uaa.admin_client_id'' ''admin'',
     CFUAA_AdminClientSecret := strp p ''cf_uaa.admin_client_secret'' []\<rparr>)"
  by (simp add: reads_def cf_uaa_section_def section_of_eval decode_cf_uaa_def job_read job_values del: field_eqs)

lemma security_read:
  "documented p \<Longrightarrow> reads (security_section p) decode_security (\<lambda>c. c\<lparr>Security_MinOpenClawVersion := strp p ''security.min_openclaw_version'' [], Security_SandboxMode := strp p ''security.sandbox_mode'' [],
     Security_BlockedCommands := strp p ''security.blocked_commands'' [], Security_SSOEnabled := boolp p ''security.sso_enabled'' False,
     Security_SSOOIDCIssuerURL := strp p ''security.sso_oidc_issuer_url'' [], Security_SSOAllowedEmailDomains := strp p ''security.sso_allowed_email_domains'' [],
     Security_SSOSessionTimeoutHours := intp p ''security.sso_session_timeout_hours'' 8\<rparr>)"
  by (simp add: reads_def security_section_def section_of_eval decode_security_def job_read job_values del: field_eqs)

lemma limits_read:
  "documented p \<Longrightarrow> reads (limits_section p) decode_limits (\<lambda>c. c\<lparr>Limits_MaxInstances := intp p ''limits.max_instances'' 0, Limits_MaxInstancesPerOrg := intp p ''limits.max_instances_per_org'' 0\<rparr>)"
  by (simp add: reads_def limits_section_def section_of_eval decode_limits_def job_read documented_number del: field_eqs)

lemma string_elems: "those (map string_elem (map rb_json (map RStr zs))) = Some zs"
  by (induction zs) simp_all

lemma on_demand_read:
  assumes "documented p" and plans: "those (map (struct_elem decode_plan zero_plan) (map rb_json plans)) = Some ps"
  shows "reads (on_demand_section p (map RStr zs) plans) decode_on_demand (\<lambda>c. c\<lparr>OnDemand_ServiceName := strp p ''on_demand.service_name'' [],
     OnDemand_Plans := ps, OnDemand_StemcellOS := strp p ''on_demand.stemcell_os'' [], OnDemand_StemcellVersion := strp p ''on_demand.stemcell_version'' [],
     OnDemand_Network := strp p ''on_demand.network'' [], OnDemand_AZs := zs,
     OnDemand_OpenClawReleaseVersion := strp p ''on_demand.openclaw_release_version'' ''latest'',
     OnDemand_BPMReleaseVersion := strp p ''on_demand.bpm_release_version'' ''1.1.21'',
     OnDemand_RoutingReleaseVersion := strp p ''on_demand.routing_release_version'' ''0.283.0''\<rparr>)"
  using assms(1) plans string_elems [of zs]
  by (simp add: reads_def on_demand_section_def section_of_eval decode_on_demand_def job_read job_values del: field_eqs map_map)

text \<open>The zones of a plan are strings: its own, or those of the service.\<close>

lemma plan_azs_strings: "map RStr (map str_of (plan_azs inspect (map RStr zs) cfg)) = plan_azs inspect (map RStr zs) cfg"
proof -
  have "map RStr (map str_of (map RStr xs)) = map RStr xs" for xs
    by (induction xs) simp_all
  then show ?thesis
    by (auto simp: plan_azs_def Let_def split: rb.splits simp del: map_map)
qed

lemma plan_read:
  assumes "documented_plan pl"
  shows "struct_elem decode_plan zero_plan (rb_json (plan_hash inspect capitalize (map RStr zs) pl)) = Some (job_plan inspect capitalize zs pl)"
proof -
  obtain name cfg where pl: "pl = (name, cfg)"
    by force
  obtain b i where bi: "fetch cfg ''browser_automation'' (RBool False) = RBool b" "fetch cfg ''max_sessions'' (RInt 1) = RInt i"
      "nat \<bar>i\<bar> < float64_limit"
    using assms by (auto simp: documented_plan_def pl)
  have "those (map string_elem (map rb_json (plan_azs inspect (map RStr zs) cfg))) = Some (map str_of (plan_azs inspect (map RStr zs) cfg))"
    by (subst plan_azs_strings [symmetric]) (simp only: string_elems)
  then show ?thesis
    using bi by (simp add: pl plan_hash_def job_plan_def struct_elem_def decode_plan_def zero_plan_def job_read plain_absent
      interface_value_def del: field_eqs map_map)
qed

lemma plans_read:
  assumes "\<forall>pl\<in>set plans. documented_plan pl"
  shows "\<exists>hs. plans_array inspect capitalize (map RStr zs) (RHash (map (\<lambda>(n, c). (n, RHash c)) plans)) = Some hs
    \<and> those (map (struct_elem decode_plan zero_plan) (map rb_json hs)) = Some (map (job_plan inspect capitalize zs) (filter enabled_plan plans))"
proof -
  have "those (map plan_cfg (map (\<lambda>(n, c). (n, RHash c)) plans)) = Some plans"
    by (induction plans) (auto simp: plan_cfg_def)
  then have "plans_array inspect capitalize (map RStr zs) (RHash (map (\<lambda>(n, c). (n, RHash c)) plans))
    = Some (map (plan_hash inspect capitalize (map RStr zs)) (filter enabled_plan plans))"
    by (simp add: plans_array_def del: map_map)
  moreover have "those (map (struct_elem decode_plan zero_plan) (map rb_json (map (plan_hash inspect capitalize (map RStr zs)) ps)))
      = Some (map (job_plan inspect capitalize zs) ps)" if "\<forall>pl\<in>set ps. documented_plan pl" for ps
    using that by (induction ps) (simp_all add: plan_read)
  ultimately show ?thesis
    using assms by (auto simp del: map_map)
qed

text \<open>The whole document.\<close>

lemma template_read:
  assumes "filled_in p zs plans"
  shows "\<exists>ms. config_template inspect capitalize p = Some (JObj ms)
    \<and> decode_config ms zero_config = Some (operator_config p zs (map (job_plan inspect capitalize zs) (filter enabled_plan plans)))"
proof -
  obtain az where doc: "documented p" and az: "p ''openclaw.broker.on_demand.az'' = Some az" "azs_array az = map RStr zs"
    and plans: "p ''openclaw.broker.on_demand.plans'' = Some (RHash (map (\<lambda>(n, c). (n, RHash c)) plans))"
      "\<forall>pl\<in>set plans. documented_plan pl"
    using assms by (auto simp: filled_in_def list_all_iff)
  obtain hs where hs: "plans_array inspect capitalize (map RStr zs) (RHash (map (\<lambda>(n, c). (n, RHash c)) plans)) = Some hs"
      "those (map (struct_elem decode_plan zero_plan) (map rb_json hs)) = Some (map (job_plan inspect capitalize zs) (filter enabled_plan plans))"
    using plans_read [OF plans(2)] by blast
  have ignored: "\<exists>j. tls_section p = Some j" "\<exists>j. metering_section p = Some j"
    using doc by (auto simp: documented_def tls_section_def metering_section_def section_of_def pr_def)
  note doc [THEN auth_read] doc [THEN bosh_read] doc [THEN agent_defaults_read] doc [THEN genai_read] doc [THEN nats_tls_read]
    on_demand_read [OF doc hs(2), of zs] doc [THEN cf_read] doc [THEN cf_uaa_read] doc [THEN security_read] doc [THEN limits_read]
  note sections = this [unfolded reads_def]
  show ?thesis
    using sections ignored az plans(1) hs(1) documented_number [OF doc, of "''port''"]
    by (elim exE conjE)
      (simp add: config_template_def section_of_eval decode_config_def decode_nats_def job_read plain_absent operator_config_def zero_config_def
        del: field_eqs map_map)
qed

lemma template_loaded:
  assumes "filled_in p zs plans"
  shows "\<exists>j. config_template inspect capitalize p = Some j
    \<and> (\<forall>fs path data. fs path = Some data \<longrightarrow> json_Unmarshal data = Some j \<longrightarrow>
         loadConfig fs path = (let cfg = operator_config p zs (map (job_plan inspect capitalize zs) (filter enabled_plan plans))
           in Inr (if Port cfg = 0 then cfg\<lparr>Port := 8080\<rparr> else cfg)))"
proof -
  obtain ms where "config_template inspect capitalize p = Some (JObj ms)"
      "decode_config ms zero_config = Some (operator_config p zs (map (job_plan inspect capitalize zs) (filter enabled_plan plans)))"
    using template_read [OF assms] by blast
  then show ?thesis
    by (simp add: loadConfig_def Let_def)
qed

text \<open>The plans reach the broker unchanged.\<close>

lemma New_plans: "New c d fs = Some b \<Longrightarrow> c_Plans (config b) = normalizePlans (c_Plans c)"
proof -
  have "config (load_records es b) = config b" for es b
    by (induction es b rule: load_records.induct) (auto simp: insert_instance_def alloc_def Let_def)
  then show "New c d fs = Some b \<Longrightarrow> c_Plans (config b) = normalizePlans (c_Plans c)"
    by (auto simp: New_def Let_def loadState_def split: option.splits if_splits)
qed

lemma main_config_plans:
  assumes "main_config e fs path w = (Inr cfg', w')" and "loadConfig fs path = Inr cfg"
  shows "OnDemand_Plans cfg' = OnDemand_Plans cfg \<and> Plans cfg' = Plans cfg"
proof (cases "loadGenAICredentials e fs (filepath_Dir path) w")
  case (Pair r w1)
  then show ?thesis
    using assms by (cases r) (auto simp: main_config_def split: if_split_asm prod.split_asm)
qed

lemma job_plan_offered:
  assumes "documented_plan pl"
  shows "p_ID (normalizePlan (job_plan inspect capitalize zs pl)) = ''openclaw-'' @ plan_name_of (fst pl) @ ''-plan''"
proof -
  have "plan_name_of (fst pl) \<noteq> []"
    using assms by (auto simp: documented_plan_def plan_name_of_def)
  moreover have "p_Name (job_plan inspect capitalize zs pl) = plan_name_of (fst pl)" "p_ID (job_plan inspect capitalize zs pl) = []"
    by (simp_all add: job_plan_def zero_plan_def case_prod_beta)
  ultimately show ?thesis
    by (simp add: normalizePlan_ID)
qed

lemma offered_ids:
  assumes "list_all documented_plan plans"
    and "c_Plans c = normalizePlans (map (job_plan inspect capitalize zs) (filter enabled_plan plans))"
  shows "map sp_ID (buildServicePlans c)
    = (if filter enabled_plan plans = [] then [''openclaw-developer-plan'', ''openclaw-developer-plus-plan'', ''openclaw-team-plan'']
       else map (\<lambda>pl. ''openclaw-'' @ plan_name_of (fst pl) @ ''-plan'') (filter enabled_plan plans))"
proof (cases "filter enabled_plan plans = []")
  case True
  then show ?thesis
    using assms(2) by (simp add: buildServicePlans_def effective_plans_def normalizePlans_def defaultPlans_def)
next
  case False
  have "\<forall>pl\<in>set (filter enabled_plan plans). documented_plan pl"
    using assms(1) by (auto simp: list_all_iff)
  then show ?thesis
    using False assms(2) by (simp add: buildServicePlans_def effective_plans_def normalizePlans_def job_plan_offered)
qed

text \<open>Properties with the values the specification has no default for, two plans and two zones.\<close>

definition sample_plans :: "(string \<times> (string \<times> rb) list) list" where
  "sample_plans =
    [(''developer_plus'', [(''vm_type'', RStr ''medium''), (''disk_type'', RStr ''20GB''), (''az'', RStr ''z1, z3''),
        (''browser_automation'', RBool True)]),
     (''team'', [(''enabled'', RBool False)])]"

definition sample_values :: "(string \<times> rb) list" where
  "sample_values =
    [(''port'', RInt 0), (''limits.max_instances'', RInt 50), (''limits.max_instances_per_org'', RInt 10),
     (''nats.tls.enabled'', RBool False), (''tls.enabled'', RBool False), (''metering.enabled'', RBool True),
     (''metering.export_interval_minutes'', RInt 60), (''on_demand.az'', RArr [RStr ''z1'', RStr ''z2'']),
     (''on_demand.plans'', RHash (map (\<lambda>(n, c). (n, RHash c)) sample_plans))]
    @ map (\<lambda>k. (k, RStr k)) required"

definition sample_properties :: properties where
  "sample_properties = map_of (map (\<lambda>(k, v). (''openclaw.broker.'' @ k, v)) sample_values)"

lemma sample_property: "sample_properties (''openclaw.broker.'' @ k) = map_of sample_values k"
proof -
  have "map_of (map (\<lambda>(k, v). (q @ k, v)) kvs) (q @ k) = map_of kvs k" for q :: string and kvs :: "(string \<times> rb) list"
    by (induction kvs) auto
  then show ?thesis
    by (simp only: sample_properties_def)
qed

lemma sample_evaluated:
  "list_all (\<lambda>k. map_of sample_values k = Some (RStr k)) required"
  "list_all (\<lambda>k. map_of sample_values k = None) (optional @ [''cf.skip_ssl_validation'', ''security.sso_enabled'', ''security.sso_session_timeout_hours''])"
  "map_of sample_values ''port'' = Some (RInt 0)" "map_of sample_values ''limits.max_instances'' = Some (RInt 50)"
  "map_of sample_values ''limits.max_instances_per_org'' = Some (RInt 10)" "map_of sample_values ''nats.tls.enabled'' = Some (RBool False)"
  "map_of sample_values ''tls.enabled'' = Some (RBool False)" "map_of sample_values ''metering.enabled'' = Some (RBool True)"
  "map_of sample_values ''metering.export_interval_minutes'' = Some (RInt 60)"
  by code_simp+

lemma sample_documented: "documented sample_properties"
proof -
  have full: "sample_properties ''openclaw.broker.nats.tls.enabled'' = map_of sample_values ''nats.tls.enabled''"
    "sample_properties ''openclaw.broker.security.sso_session_timeout_hours'' = map_of sample_values ''security.sso_session_timeout_hours''"
    using sample_property [of "''nats.tls.enabled''"] sample_property [of "''security.sso_session_timeout_hours''"] by simp_all
  show ?thesis
    unfolding documented_def full sample_property
    using sample_evaluated by (auto simp: list_all_iff int64_range_def)
qed

lemma sample_filled_in: "filled_in sample_properties [''z1'', ''z2''] sample_plans"
proof -
  have full: "sample_properties ''openclaw.broker.on_demand.az'' = map_of sample_values ''on_demand.az''"
    "sample_properties ''openclaw.broker.on_demand.plans'' = map_of sample_values ''on_demand.plans''"
    using sample_property [of "''on_demand.az''"] sample_property [of "''on_demand.plans''"] by simp_all
  have "map_of sample_values ''on_demand.az'' = Some (RArr [RStr ''z1'', RStr ''z2''])"
    "map_of sample_values ''on_demand.plans'' = Some (RHash (map (\<lambda>(n, c). (n, RHash c)) sample_plans))"
    by code_simp+
  moreover have "list_all documented_plan sample_plans"
    by (auto simp: documented_plan_def sample_plans_def fetch_def float64_limit_def)
  ultimately show ?thesis
    using sample_documented by (simp add: filled_in_def full azs_array_def)
qed

text \<open>The text of the sample, written with the layout of \<^verbatim>\<open>MarshalIndent\<close>, is read as the document.\<close>

definition sample_job_document :: json where
  "sample_job_document = the (config_template (\<lambda>_. []) id sample_properties)"

lemma sample_job_rendered: "config_template (\<lambda>_. []) id sample_properties = Some sample_job_document"
  using template_loaded [OF sample_filled_in, of "\<lambda>_. []" id] by (auto simp: sample_job_document_def)

fun ascii_json :: "nat \<Rightarrow> json \<Rightarrow> bool" where
  "ascii_json d (JStr s) = list_all is_ascii s"
| "ascii_json (Suc d) (JArr js) = list_all (ascii_json d) js"
| "ascii_json (Suc d) (JObj ms) = list_all (\<lambda>(k, j). list_all is_ascii k \<and> ascii_json d j) ms"
| "ascii_json 0 (JArr js) = False"
| "ascii_json 0 (JObj ms) = False"
| "ascii_json d (JFloat s) = False"
| "ascii_json d j = True"

lemma ascii_json_norm: "ascii_json d j \<Longrightarrow> json_norm j = j"
  by (induction d j rule: ascii_json.induct) (auto simp: list_all_iff json_text_ascii intro!: map_idI)

lemma ascii_json_fits: "ascii_json d j \<Longrightarrow> d \<le> n \<Longrightarrow> json_fits n j"
proof (induction d j arbitrary: n rule: ascii_json.induct)
  case (2 d js)
  then show ?case
    by (cases n) (auto simp: list_all_iff)
next
  case (3 d ms)
  then show ?case
    by (cases n) (fastforce simp: list_all_iff)+
qed simp_all

lemma sample_job_ascii: "ascii_json 6 sample_job_document"
  by code_simp

lemma sample_job_text: "json_Unmarshal (json_MarshalIndent sample_job_document) = Some sample_job_document"
proof -
  have "json_fits maxNestingDepth sample_job_document"
    by (rule ascii_json_fits [OF sample_job_ascii]) (simp add: maxNestingDepth_def)
  then show ?thesis
    using json_read_back(3) [of sample_job_document] ascii_json_norm [OF sample_job_ascii] by simp
qed

definition sample_job_files :: file_system where
  "sample_job_files path = Some (json_MarshalIndent sample_job_document)"

definition sample_job_config :: Config where
  "sample_job_config = (operator_config sample_properties [''z1'', ''z2''] [job_plan (\<lambda>_. []) id [''z1'', ''z2''] (hd sample_plans)])\<lparr>Port := 8080\<rparr>"

lemma sample_enabled: "filter enabled_plan sample_plans = [hd sample_plans]"
  by (simp add: enabled_plan_def sample_plans_def fetch_def rb_true_def)

lemma sample_property_value: "property sample_properties k d = (case map_of sample_values k of Some v \<Rightarrow> v | None \<Rightarrow> d)"
  by (simp only: property_def sample_property)

lemma sample_fields:
  "Port (operator_config sample_properties zs ps) = 0" "Auth_Username (operator_config sample_properties zs ps) = ''auth.username''"
  "Auth_Password (operator_config sample_properties zs ps) = ''auth.password''" "GenAI_Provider (operator_config sample_properties zs ps) = []"
proof -
  have "map_of sample_values ''port'' = Some (RInt 0)" "map_of sample_values ''auth.username'' = Some (RStr ''auth.username'')"
    "map_of sample_values ''auth.password'' = Some (RStr ''auth.password'')" "map_of sample_values ''genai.provider'' = None"
    by code_simp+
  then show "Port (operator_config sample_properties zs ps) = 0" "Auth_Username (operator_config sample_properties zs ps) = ''auth.username''"
    "Auth_Password (operator_config sample_properties zs ps) = ''auth.password''" "GenAI_Provider (operator_config sample_properties zs ps) = []"
    by (simp_all add: operator_config_def sample_property_value)
qed

lemma sample_job_started:
  assumes "loadConfig sample_job_files ''/config.json'' = Inr sample_job_config"
  shows "main_config script_ext sample_job_files ''/config.json'' w = (Inr sample_job_config, w)"
  using assms by (simp add: main_config_def sample_job_config_def sample_fields)

section \<open>Properties\<close>



text \<open>
  C23. A broker started from that document offers exactly the plans the operator enabled, each under the
  identifier of its name, except that the three built-in plans are offered when no plan is enabled.
\<close>

theorem job_plans_offered:
  assumes filled: "filled_in p zs plans"
    and rendered: "config_template inspect capitalize p = Some j" "fs path = Some data" "json_Unmarshal data = Some j"
    and started: "main_config e fs path w = (Inr cfg, w')" "main_broker disk cfg = Some b"
  shows "map sp_ID (buildServicePlans (config b))
    = (if filter enabled_plan plans = [] then [''openclaw-developer-plan'', ''openclaw-developer-plus-plan'', ''openclaw-team-plan'']
       else map (\<lambda>pl. ''openclaw-'' @ plan_name_of (fst pl) @ ''-plan'') (filter enabled_plan plans))"
proof -
  let ?ps = "map (job_plan inspect capitalize zs) (filter enabled_plan plans)"
  obtain cfg0 where cfg0: "loadConfig fs path = Inr cfg0" "OnDemand_Plans cfg0 = ?ps" "Plans cfg0 = []"
    using template_loaded [OF filled, of inspect capitalize] rendered by (auto simp: Let_def operator_config_def)
  have "c_Plans (broker_config cfg) = ?ps"
    using main_config_plans [OF started(1) cfg0(1)] cfg0 by (simp add: broker_config_def)
  then have "c_Plans (config b) = normalizePlans ?ps"
    using started(2) New_plans by (fastforce simp: main_broker_def)
  then show ?thesis
    using offered_ids filled by (auto simp: filled_in_def)
qed

theorem job_plans_offered_witness:
  "\<exists>b. main_config script_ext sample_job_files ''/config.json'' (script_start []) = (Inr sample_job_config, script_start [])
    \<and> main_broker (\<lambda>_. None) sample_job_config = Some b
    \<and> map sp_ID (buildServicePlans (config b)) = [''openclaw-developer-plus-plan'']"
proof -
  have "loadConfig sample_job_files ''/config.json'' = Inr sample_job_config"
    using template_loaded [OF sample_filled_in, of "\<lambda>_. []" id] sample_job_rendered sample_job_text
    by (auto simp: sample_job_files_def sample_job_config_def sample_enabled sample_fields Let_def)
  note start = sample_job_started [OF this, of "script_start []"]
  have "main_broker (\<lambda>_. None) sample_job_config \<noteq> None"
    by (simp add: main_broker_def New_def loadState_def Let_def)
  then obtain b where b: "main_broker (\<lambda>_. None) sample_job_config = Some b"
    by blast
  have "plan_name_of (fst (hd sample_plans)) = ''developer-plus''"
    by code_simp
  then have "map sp_ID (buildServicePlans (config b)) = [''openclaw-developer-plus-plan'']"
    using job_plans_offered [OF sample_filled_in sample_job_rendered _ sample_job_text start b] by (simp add: sample_job_files_def sample_enabled)
  with start b show ?thesis
    by (intro exI [of _ b] conjI)
qed

end
