(* ===== verification/Router.thy ===== *)
theory Router
  imports Server
begin

text \<open>
  From an HTTP request to a handler: the routes \<^verbatim>\<open>main\<close> registers (\<^verbatim>\<open>main.go\<close>), the part of the
  vendored gorilla/mux they use (cleaning the path, trying the routes in order, the difference
  between an unknown path and an unknown method, middleware on matched routes only), and the
  decoding of the request bodies, whose first JSON value counts. The path is the decoded one, the
  query its decoded pairs; \<open>Request_Target\<close> decodes them. Response headers are left out.
\<close>

section \<open>Request bodies\<close>

definition decode_ProvisionRequest :: "json option \<Rightarrow> ProvisionRequest option" where
  "decode_ProvisionRequest body = do {
     j \<leftarrow> body;
     ms \<leftarrow> json_members j;
     service \<leftarrow> field_string ''service_id'' ms [];
     plan \<leftarrow> field_string ''plan_id'' ms [];
     org \<leftarrow> field_string ''organization_guid'' ms [];
     space \<leftarrow> field_string ''space_guid'' ms [];
     params \<leftarrow> field_map interface_value ''parameters'' ms [];
     Some \<lparr>q_ServiceID = service, q_PlanID = plan, q_OrganizationGUID = org, q_SpaceGUID = space,
       q_Parameters = params\<rparr> }"

definition decode_UpdateRequest :: "json option \<Rightarrow> UpdateRequest option" where
  "decode_UpdateRequest body = do {
     j \<leftarrow> body;
     ms \<leftarrow> json_members j;
     service \<leftarrow> field_string ''service_id'' ms [];
     plan \<leftarrow> field_string ''plan_id'' ms [];
     params \<leftarrow> field_map interface_value ''parameters'' ms [];
     Some \<lparr>u_ServiceID = service, u_PlanID = plan, u_Parameters = params\<rparr> }"

definition decode_UpgradeRequest :: "json option \<Rightarrow> UpgradeRequest option" where
  "decode_UpgradeRequest body = do {
     j \<leftarrow> body;
     ms \<leftarrow> json_members j;
     version \<leftarrow> field_string ''target_version'' ms [];
     count \<leftarrow> field_int ''count'' ms 0;
     parallel \<leftarrow> field_int ''max_parallel'' ms 0;
     Some \<lparr>g_TargetVersion = version, g_Count = count, g_MaxParallel = parallel\<rparr> }"

section \<open>Paths and routes\<close>

text \<open>\<^verbatim>\<open>path.Clean\<close> of a rooted path: the elements that remain, the last one first.\<close>

fun clean_elements :: "string list \<Rightarrow> string list \<Rightarrow> string list" where
  "clean_elements acc [] = acc"
| "clean_elements acc (s # ss) =
    (if s = [] \<or> s = ''.'' then clean_elements acc ss
     else if s = ''..'' then clean_elements (drop 1 acc) ss
     else clean_elements (s # acc) ss)"

definition path_Clean :: "string \<Rightarrow> string" where
  "path_Clean p = ''/'' @ strings_Join ''/'' (rev (clean_elements [] (strings_Split (CHR ''/'') p)))"

definition cleanPath :: "string \<Rightarrow> string" where
  "cleanPath p =
    (if p = [] then ''/''
     else let p = (if hd p \<noteq> CHR ''/'' then CHR ''/'' # p else p); np = path_Clean p
          in if last p = CHR ''/'' \<and> np \<noteq> ''/'' then np @ ''/'' else np)"

text \<open>A template is its elements; a variable stands for the pattern \<^verbatim>\<open>[^/]+\<close>.\<close>

datatype element = Lit string | Var string

fun match_template :: "element list \<Rightarrow> string list \<Rightarrow> (string \<times> string) list option" where
  "match_template [] [] = Some []"
| "match_template (Lit l # es) (s # ss) = (if s = l then match_template es ss else None)"
| "match_template (Var v # es) (s # ss) = (if s = [] then None else map_option (Cons (v, s)) (match_template es ss))"
| "match_template _ _ = None"

datatype handler = HCatalog | HProvision | HDeprovision | HUpdate | HBind | HUnbind | HLastOperation
  | HListInstances | HUpgrade | HUpgradeStatus

record route =
  route_path :: "element list"
  route_method :: string
  route_handler :: handler

definition instance_path :: "element list" where
  "instance_path = [Lit [], Lit ''v2'', Lit ''service_instances'', Var ''instance_id'']"

definition binding_path :: "element list" where
  "binding_path = instance_path @ [Lit ''service_bindings'', Var ''binding_id'']"

definition routes :: "route list" where
  "routes =
    [\<lparr>route_path = [Lit [], Lit ''v2'', Lit ''catalog''], route_method = ''GET'', route_handler = HCatalog\<rparr>,
     \<lparr>route_path = instance_path, route_method = ''PUT'', route_handler = HProvision\<rparr>,
     \<lparr>route_path = instance_path, route_method = ''DELETE'', route_handler = HDeprovision\<rparr>,
     \<lparr>route_path = instance_path, route_method = ''PATCH'', route_handler = HUpdate\<rparr>,
     \<lparr>route_path = binding_path, route_method = ''PUT'', route_handler = HBind\<rparr>,
     \<lparr>route_path = binding_path, route_method = ''DELETE'', route_handler = HUnbind\<rparr>,
     \<lparr>route_path = instance_path @ [Lit ''last_operation''], route_method = ''GET'', route_handler = HLastOperation\<rparr>,
     \<lparr>route_path = [Lit [], Lit ''admin'', Lit ''instances''], route_method = ''GET'', route_handler = HListInstances\<rparr>,
     \<lparr>route_path = [Lit [], Lit ''admin'', Lit ''upgrade''], route_method = ''POST'', route_handler = HUpgrade\<rparr>,
     \<lparr>route_path = [Lit [], Lit ''admin'', Lit ''upgrade'', Lit ''status''], route_method = ''GET'',
       route_handler = HUpgradeStatus\<rparr>]"

text \<open>\<^verbatim>\<open>Router.Match\<close>: the first route whose path and method match; \<open>mismatch\<close> is the error a route with
  the path and another method has left.\<close>

datatype route_match = Matched handler "(string \<times> string) list" | ErrMethodMismatch | ErrNotFound

fun Match :: "route list \<Rightarrow> string \<Rightarrow> string list \<Rightarrow> bool \<Rightarrow> route_match" where
  "Match [] method path mismatch = (if mismatch then ErrMethodMismatch else ErrNotFound)"
| "Match (r # rs) method path mismatch =
    (case match_template (route_path r) path of
       None \<Rightarrow> Match rs method path mismatch
     | Some vars \<Rightarrow>
        if route_method r = method then Matched (route_handler r) vars else Match rs method path True)"

section \<open>Serving\<close>

record web_request =
  h_Method :: string
  h_Path :: string
  h_Query :: "(string \<times> string) list"
  h_Authorization :: string
  h_Body :: bytes

text \<open>\<^verbatim>\<open>Get\<close> of a map: the empty string when the key is absent.\<close>

definition get_first :: "(string \<times> string) list \<Rightarrow> string \<Rightarrow> string" where
  "get_first kvs k = (case map_of kvs k of Some v \<Rightarrow> v | None \<Rightarrow> [])"

fun handler_request :: "handler \<Rightarrow> (string \<times> string) list \<Rightarrow> web_request \<Rightarrow> request" where
  "handler_request HCatalog vars req = ReqCatalog"
| "handler_request HProvision vars req = ReqProvision (get_first vars ''instance_id'')
     (get_first (h_Query req) ''accepts_incomplete'') (decode_ProvisionRequest (json_Decode (h_Body req)))"
| "handler_request HDeprovision vars req =
     ReqDeprovision (get_first vars ''instance_id'') (get_first (h_Query req) ''accepts_incomplete'')"
| "handler_request HUpdate vars req = ReqUpdate (get_first vars ''instance_id'')
     (get_first (h_Query req) ''accepts_incomplete'') (decode_UpdateRequest (json_Decode (h_Body req)))"
| "handler_request HBind vars req = ReqBind (get_first vars ''instance_id'')"
| "handler_request HUnbind vars req = ReqUnbind"
| "handler_request HLastOperation vars req = ReqLastOperation (get_first vars ''instance_id'')"
| "handler_request HListInstances vars req = ReqListInstances"
| "handler_request HUpgrade vars req = ReqUpgrade (decode_UpgradeRequest (json_Decode (h_Body req)))"
| "handler_request HUpgradeStatus vars req = ReqUpgradeStatus"

definition plain :: "int \<Rightarrow> string \<Rightarrow> response" where
  "plain st s = \<lparr>status = st, content = PlainText s\<rparr>"

definition ServeHTTP ::
    "('w, 'e) ext_scheme \<Rightarrow> Config \<Rightarrow> web_request \<Rightarrow> Broker \<Rightarrow> 'w \<Rightarrow> response \<times> Broker \<times> 'w" where
  "ServeHTTP e cfg req b w =
    (if cleanPath (h_Path req) \<noteq> h_Path req then (plain 301 [], b, w)
     else case Match routes (h_Method req) (strings_Split (CHR ''/'') (h_Path req)) False of
       Matched h vars \<Rightarrow>
         basicAuthMiddleware (Auth_Username cfg) (Auth_Password cfg) (serve e (handler_request h vars req))
           (h_Authorization req) b w
     | ErrMethodMismatch \<Rightarrow> (plain 405 [], b, w)
     | ErrNotFound \<Rightarrow> (plain 404 (''404 page not found'' @ [newline]), b, w))"

section \<open>Lemmas\<close>

text \<open>The path of an instance.\<close>

definition instance_url_path :: "string \<Rightarrow> string" where
  "instance_url_path k = ''/v2/service_instances/'' @ k"

definition path_element :: "string \<Rightarrow> bool" where
  "path_element k \<longleftrightarrow> k \<noteq> [] \<and> CHR ''/'' \<notin> set k \<and> k \<noteq> ''.'' \<and> k \<noteq> ''..''"

lemma split_instance_path:
  assumes "CHR ''/'' \<notin> set k"
  shows "strings_Split (CHR ''/'') (instance_url_path k) = [[], ''v2'', ''service_instances'', k]"
  using strings_Split_single [OF assms] by (simp add: instance_url_path_def)

lemma clean_instance_path:
  assumes "path_element k"
  shows "cleanPath (instance_url_path k) = instance_url_path k"
proof -
  have k: "CHR ''/'' \<notin> set k" "k \<noteq> []" "k \<noteq> ''.''" "k \<noteq> ''..''"
    using assms by (auto simp: path_element_def)
  have "path_Clean (instance_url_path k) = instance_url_path k"
    unfolding path_Clean_def split_instance_path [OF k(1)] using k by (simp add: instance_url_path_def)
  moreover have "last (instance_url_path k) \<noteq> CHR ''/''"
    using k(1,2) by (simp add: instance_url_path_def) (metis last_in_set)
  moreover have "hd (instance_url_path k) = CHR ''/''" "instance_url_path k \<noteq> []"
    by (simp_all add: instance_url_path_def)
  ultimately show ?thesis
    by (simp add: cleanPath_def Let_def)
qed

lemma Match_instance:
  assumes "k \<noteq> []"
  shows "Match routes method [[], ''v2'', ''service_instances'', k] False =
    (if method = ''PUT'' then Matched HProvision [(''instance_id'', k)]
     else if method = ''DELETE'' then Matched HDeprovision [(''instance_id'', k)]
     else if method = ''PATCH'' then Matched HUpdate [(''instance_id'', k)]
     else ErrMethodMismatch)"
  using assms by (simp add: routes_def instance_path_def binding_path_def)

lemma ServeHTTP_denied:
  assumes "BasicAuth (h_Authorization req) \<noteq> Some (Auth_Username cfg, Auth_Password cfg)"
  shows "\<exists>resp. ServeHTTP e cfg req b w = (resp, b, w) \<and> status resp \<in> {301, 401, 404, 405}"
  using assms by (auto simp: ServeHTTP_def basicAuthMiddleware_iff plain_def unauthorized_def split: route_match.splits)

definition catalog_request :: "string \<Rightarrow> web_request" where
  "catalog_request authorization =
    \<lparr>h_Method = ''GET'', h_Path = ''/v2/catalog'', h_Query = [], h_Authorization = authorization, h_Body = []\<rparr>"

lemma ServeHTTP_catalog:
  "ServeHTTP e cfg (catalog_request h) b w =
    (if BasicAuth h = Some (Auth_Username cfg, Auth_Password cfg) then (Catalog b, b, w) else (unauthorized, b, w))"
proof -
  have "cleanPath ''/v2/catalog'' = ''/v2/catalog''"
    "Match routes ''GET'' (strings_Split (CHR ''/'') ''/v2/catalog'') False = Matched HCatalog []"
    by code_simp+
  then show ?thesis
    by (simp add: ServeHTTP_def catalog_request_def basicAuthMiddleware_iff)
qed

text \<open>The routes of an instance: which handler gets what.\<close>

lemma ServeHTTP_instance_routes:
  assumes "path_element k" and "h_Path req = instance_url_path k"
    and "BasicAuth (h_Authorization req) = Some (Auth_Username cfg, Auth_Password cfg)"
  shows "ServeHTTP e cfg req b w =
    (let acc = get_first (h_Query req) ''accepts_incomplete'' in
     if h_Method req = ''PUT'' then Provision e k acc (decode_ProvisionRequest (json_Decode (h_Body req))) b w
     else if h_Method req = ''DELETE'' then Deprovision e k acc b w
     else if h_Method req = ''PATCH'' then Update e k acc (decode_UpdateRequest (json_Decode (h_Body req))) b w
     else (plain 405 [], b, w))"
proof -
  have "k \<noteq> []" "CHR ''/'' \<notin> set k"
    using assms(1) by (simp_all add: path_element_def)
  then show ?thesis
    using assms clean_instance_path [OF assms(1)]
    by (simp add: ServeHTTP_def split_instance_path Match_instance basicAuthMiddleware_iff get_first_def)
qed

section \<open>Properties\<close>

text \<open>A sample configuration.\<close>

definition sample_process :: Config where
  "sample_process = zero_config\<lparr>Port := 8080, Auth_Username := ''broker'', Auth_Password := ''pw''\<rparr>"

text \<open>
  C12. A broker that starts is protected: it has credentials and a port, and a request without these
  credentials, whatever its method, path and body, is answered with 301, 401, 404 or 405 and leaves
  the broker and the world alone. It can be used exactly when its user name has no colon: the check
  at the start does not exclude such a name, and a broker configured with one locks everybody out.
\<close>

theorem started_broker_protected:
  assumes "main_config e fs path w = (Inr cfg, w')"
    and "BasicAuth (h_Authorization req) \<noteq> Some (Auth_Username cfg, Auth_Password cfg)"
  shows "Auth_Username cfg \<noteq> [] \<and> Auth_Password cfg \<noteq> [] \<and> Port cfg \<noteq> 0
    \<and> (\<exists>resp. ServeHTTP e cfg req b v = (resp, b, v) \<and> status resp \<in> {301, 401, 404, 405})
    \<and> ((\<exists>h. ServeHTTP e cfg (catalog_request h) b v = (Catalog b, b, v)) \<longleftrightarrow> CHR '':'' \<notin> set (Auth_Username cfg))"
proof -
  have "(\<exists>h. BasicAuth h = Some (Auth_Username cfg, Auth_Password cfg)) \<longleftrightarrow> CHR '':'' \<notin> set (Auth_Username cfg)"
    using BasicAuth_no_colon BasicAuth_basic_auth by blast
  moreover have "Catalog b \<noteq> unauthorized"
    by (simp add: Catalog_def unauthorized_def writeJSON_def)
  ultimately have "(\<exists>h. ServeHTTP e cfg (catalog_request h) b v = (Catalog b, b, v)) \<longleftrightarrow> CHR '':'' \<notin> set (Auth_Username cfg)"
    by (auto simp: ServeHTTP_catalog)
  moreover have "Auth_Username cfg \<noteq> [] \<and> Auth_Password cfg \<noteq> [] \<and> Port cfg \<noteq> 0"
    using assms(1) loadConfig_port by (elim main_config_loaded) simp
  ultimately show ?thesis
    using ServeHTTP_denied [OF assms(2), of e b v] by blast
qed

text \<open>A configuration file with credentials and without a port.\<close>

definition sample_document :: json where
  "sample_document = JObj [(''auth'', JObj [(''username'', JStr ''broker''), (''password'', JStr ''pw'')])]"

definition sample_files :: file_system where
  "sample_files p = (if p = ''/config.json'' then Some (json_MarshalIndent sample_document) else None)"

lemma sample_document_read: "json_Unmarshal (json_MarshalIndent sample_document) = Some sample_document"
proof -
  have n: "json_norm sample_document = sample_document"
    by code_simp
  have f: "json_fits (Suc (Suc n)) sample_document" for n
    by (simp add: sample_document_def)
  have "maxNestingDepth = Suc (Suc 9998)"
    by (simp add: maxNestingDepth_def)
  then show ?thesis
    using json_read_back(3) [of sample_document] f n by metis
qed

theorem started_broker_protected_witness:
  "main_config script_ext sample_files ''/config.json'' (script_start []) = (Inr sample_process, script_start [])
    \<and> (\<exists>resp. ServeHTTP script_ext sample_process (catalog_request []) sample_broker (script_start [])
         = (resp, sample_broker, script_start []) \<and> status resp \<in> {301, 401, 404, 405})"
proof -
  have "(case do { ms \<leftarrow> json_members sample_document; decode_config ms zero_config } of
           None \<Rightarrow> Inl ConfigUnparsable
         | Some cfg \<Rightarrow> Inr (if Port cfg = 0 then cfg\<lparr>Port := 8080\<rparr> else cfg)) = Inr sample_process"
    by code_simp
  then have "loadConfig sample_files ''/config.json'' = Inr sample_process"
    by (simp add: loadConfig_def sample_files_def sample_document_read)
  moreover have "Auth_Username sample_process \<noteq> []" "Auth_Password sample_process \<noteq> []" "GenAI_Provider sample_process \<noteq> ''tanzu_genai''"
    by code_simp+
  ultimately have main: "main_config script_ext sample_files ''/config.json'' (script_start []) = (Inr sample_process, script_start [])"
    by (simp add: main_config_def)
  have "BasicAuth (h_Authorization (catalog_request [])) \<noteq> Some (Auth_Username sample_process, Auth_Password sample_process)"
    by code_simp
  from started_broker_protected [OF main this] main show ?thesis
    by blast
qed

end
