(* ===== verification/Answers.thy ===== *)
theory Answers
  imports Router
begin

text \<open>
  The bytes of an answer. Every handler hands a struct or a map to \<^verbatim>\<open>json.NewEncoder(w).Encode\<close>:
  \<^verbatim>\<open>ProvisionResponse\<close>, \<^verbatim>\<open>DeprovisionResponse\<close>, \<^verbatim>\<open>LastOperationResponse\<close>, \<^verbatim>\<open>BindResponse\<close> and maps of
  strings; a map is written in the order of its keys and an empty \<^verbatim>\<open>omitempty\<close> field is left out. The
  middleware and the router answer in plain text.
\<close>

section \<open>Error texts\<close>

text \<open>
  \<^verbatim>\<open>strconv.Quote\<close>, the \<^verbatim>\<open>%q\<close> of a string. Which runes above U+007F are printable is the table \<open>pr\<close>.
\<close>

definition lower_hex :: "nat \<Rightarrow> nat \<Rightarrow> string" where
  "lower_hex digits r = map (\<lambda>i. hex_char (r div 16 ^ (digits - 1 - i) mod 16)) [0..<digits]"

definition quote_rune :: "(rune \<Rightarrow> bool) \<Rightarrow> rune \<times> bytes \<Rightarrow> string" where
  "quote_rune pr = (\<lambda>(r, b).
    if r = rune_error \<and> length b = 1 then backslash # CHR ''x'' # lower_hex 2 (byte (hd b))
    else if r = 0x22 \<or> r = 0x5C then backslash # b
    else if (if r < 0x80 then 0x20 \<le> r \<and> r < 0x7F else pr r) then b
    else case map_of [(7, CHR ''a''), (8, CHR ''b''), (12, CHR ''f''), (10, CHR ''n''), (13, CHR ''r''),
                      (9, CHR ''t''), (11, CHR ''v'')] r of
      Some c \<Rightarrow> [backslash, c]
    | None \<Rightarrow>
        if r < 0x20 \<or> r = 0x7F then backslash # CHR ''x'' # lower_hex 2 r
        else if r < 0x10000 then backslash # CHR ''u'' # lower_hex 4 r
        else backslash # CHR ''U'' # lower_hex 8 r)"

definition strconv_Quote :: "(rune \<Rightarrow> bool) \<Rightarrow> string \<Rightarrow> string" where
  "strconv_Quote pr s = dquote # concat (map (quote_rune pr) (utf8_runes s)) @ [dquote]"

definition num_error_text :: "(rune \<Rightarrow> bool) \<Rightarrow> string \<Rightarrow> num_error \<Rightarrow> string" where
  "num_error_text pr s e = ''strconv.Atoi: parsing '' @ strconv_Quote pr s @ '': ''
     @ (case e of ErrSyntax \<Rightarrow> ''invalid syntax'' | ErrRange \<Rightarrow> ''value out of range'')"

text \<open>The texts of \<^verbatim>\<open>parseVersion\<close>; the part that failed is found again in the version.\<close>

fun version_error_text :: "(rune \<Rightarrow> bool) \<Rightarrow> version_error \<Rightarrow> string" where
  "version_error_text pr (InvalidFormat v) = ''invalid version format '' @ strconv_Quote pr v @ '' (expected YYYY.M.D)''"
| "version_error_text pr (InvalidYear v e) = ''invalid year in version '' @ strconv_Quote pr v @ '': ''
     @ num_error_text pr (strings_Split (CHR ''.'') v ! 0) e"
| "version_error_text pr (InvalidMonth v e) = ''invalid month in version '' @ strconv_Quote pr v @ '': ''
     @ num_error_text pr (strings_Split (CHR ''.'') v ! 1) e"
| "version_error_text pr (InvalidDay v e) = ''invalid day in version '' @ strconv_Quote pr v @ '': ''
     @ num_error_text pr (fst (strings_Cut (CHR ''-'') (strings_Split (CHR ''.'') v ! 2))) e"

fun validate_error_text :: "(rune \<Rightarrow> bool) \<Rightarrow> validate_error \<Rightarrow> string" where
  "validate_error_text pr (VersionRequired m) =
     ''OpenClaw version is required (minimum: '' @ m @ '' for CVE-2026-25253)''"
| "validate_error_text pr (BadVersion e) = version_error_text pr e"
| "validate_error_text pr (BadMinimum m e) =
     ''invalid minimum version '' @ strconv_Quote pr m @ '': '' @ version_error_text pr e"
| "validate_error_text pr (BelowMinimum v m) =
     ''OpenClaw version '' @ v @ '' is below minimum safe version '' @ m @ '' (CVE-2026-25253)''"

section \<open>Documents\<close>

text \<open>The responses with their tags; the fields in the order of the structs.\<close>

definition ProvisionResponse :: "string \<Rightarrow> string \<Rightarrow> json" where
  "ProvisionResponse dashboardURL operation =
     JObj (opt_member ''dashboard_url'' dashboardURL @ opt_member ''operation'' operation)"

definition DeprovisionResponse :: "string \<Rightarrow> json" where
  "DeprovisionResponse operation = JObj (opt_member ''operation'' operation)"

definition LastOperationResponse :: "string \<Rightarrow> string \<Rightarrow> json" where
  "LastOperationResponse st description = JObj ((''state'', JStr st) # opt_member ''description'' description)"

definition BindResponse :: "(string \<times> json) list \<Rightarrow> json" where
  "BindResponse credentials = JObj [(''credentials'', JObj (sort_key fst credentials))]"

fun answer_json :: "(rune \<Rightarrow> bool) \<Rightarrow> resp_body \<Rightarrow> json option" where
  "answer_json pr Empty = Some (JObj [])"
| "answer_json pr (Error e) = Some (JObj [(''error'', JStr e)])"
| "answer_json pr (ErrorDesc e d) = Some (JObj [(''description'', JStr d), (''error'', JStr e)])"
| "answer_json pr (VersionError e v) =
     Some (JObj [(''description'', JStr (validate_error_text pr v)), (''error'', JStr e)])"
| "answer_json pr (Provisioned url operation) = Some (ProvisionResponse url operation)"
| "answer_json pr (Operation operation) = Some (DeprovisionResponse operation)"
| "answer_json pr (LastOp st d) = Some (LastOperationResponse st d)"
| "answer_json pr (Credentials cs) = Some (BindResponse cs)"
| "answer_json pr (Document j) = Some j"
| "answer_json pr (PlainText _) = None"

definition answer_bytes :: "(rune \<Rightarrow> bool) \<Rightarrow> response \<Rightarrow> bytes" where
  "answer_bytes pr resp =
    (case answer_json pr (content resp) of
       Some j \<Rightarrow> json_Encode j
     | None \<Rightarrow> (case content resp of PlainText s \<Rightarrow> s | _ \<Rightarrow> []))"

section \<open>Lemmas\<close>

text \<open>Answers whose document the encoder writes and every reader gets back.\<close>

definition document_answer :: "response \<Rightarrow> bool" where
  "document_answer resp \<longleftrightarrow>
    (case content resp of
       PlainText _ \<Rightarrow> False
     | Document j \<Rightarrow> json_fits 6 j
     | Credentials cs \<Rightarrow> list_all (\<lambda>(k, j). json_fits 0 j) cs
     | _ \<Rightarrow> True)"

lemma json_fits_mono: "json_fits d j \<Longrightarrow> d \<le> d' \<Longrightarrow> json_fits d' j"
proof (induction d j arbitrary: d' rule: json_fits.induct)
  case (3 d js)
  then obtain n where "d' = Suc n" "d \<le> n"
    by (cases d') auto
  with 3 show ?case
    by auto
next
  case (5 d ms)
  then obtain n where "d' = Suc n" "d \<le> n"
    by (cases d') auto
  with 5 show ?case
    by fastforce
qed auto

lemma opt_member_fits: "(k, j) \<in> set (opt_member t s) \<Longrightarrow> json_fits d j"
  by (auto simp: opt_member_def split: if_splits)

lemma scalars_fit: "list_all (\<lambda>(k, j). json_fits 0 j) cs \<Longrightarrow> (k, j) \<in> set cs \<Longrightarrow> json_fits d j"
  using json_fits_scalar [of j d] by (fastforce simp: list_all_iff)

lemma document_answer_fits:
  assumes "document_answer resp" and "answer_json pr (content resp) = Some j"
  shows "json_fits maxNestingDepth j"
proof -
  have "json_fits 6 j"
    using assms by (cases "content resp")
      (auto simp: document_answer_def ProvisionResponse_def DeprovisionResponse_def LastOperationResponse_def BindResponse_def
        numeral_eq_Suc intro: opt_member_fits scalars_fit)
  then show ?thesis
    by (rule json_fits_mono) (simp add: maxNestingDepth_def)
qed

text \<open>Every handler answers with a document.\<close>

lemma document_writeJSON [simp]:
  "document_answer (writeJSON st Empty)" "document_answer (writeJSON st (Error m))"
  "document_answer (writeJSON st (ErrorDesc m d))" "document_answer (writeJSON st (VersionError m v))"
  "document_answer (writeJSON st (Provisioned u p))" "document_answer (writeJSON st (Operation p))"
  "document_answer (writeJSON st (LastOp t d))"
  by (simp_all add: document_answer_def writeJSON_def)

lemma Provision_reserve_document:
  "Provision_reserve e k req b w = (Inl resp, b', w') \<Longrightarrow> document_answer resp"
  by (auto simp: Provision_reserve_def Let_def split: if_splits option.splits prod.splits)

lemma Provision_finish_document: "document_answer (fst (Provision_finish e k r h res b w))"
  by (auto simp: Provision_finish_def split: deploy_result.splits prod.splits)

lemma Provision_document: "document_answer (fst (Provision e k acc body b w))"
  unfolding Provision_def asyncRequired_def
  by (auto simp: Provision_finish_document dest: Provision_reserve_document split: option.splits prod.splits sum.splits)

lemma Deprovision_document: "document_answer (fst (Deprovision e k acc b w))"
  by (auto simp: Deprovision_def Deprovision_finish_def asyncRequired_def deprovision_accepted_def
      split: deprovision_mark.splits prod.splits sum.splits)

lemma Update_prepare_document: "Update_prepare e k req b w = (Inl resp, b', w') \<Longrightarrow> document_answer resp"
  by (auto simp: Update_prepare_def Let_def split: if_splits option.splits prod.splits)

lemma Update_document: "document_answer (fst (Update e k acc body b w))"
  unfolding Update_def Update_finish_def asyncRequired_def
  by (auto dest: Update_prepare_document split: option.splits prod.splits sum.splits deploy_result.splits)

lemma LastOperation_document: "document_answer (fst (LastOperation e k b w))"
  by (auto simp: LastOperation_def Let_def last_op_def settle_with_def split: option.splits prod.splits)

lemma Bind_document: "document_answer (Bind k b)"
  by (auto simp: Bind_def split: option.splits) (simp add: document_answer_def writeJSON_def bind_credentials_def)

lemma AdminListInstances_document: "document_answer (fst (AdminListInstances e b w))"
  by (auto simp: AdminListInstances_def document_answer_def writeJSON_def instanceInfo_def numeral_eq_Suc split: prod.splits)

lemma AdminUpgrade_document: "document_answer (fst (AdminUpgrade e body b w))"
  by (auto simp: AdminUpgrade_def Let_def split: option.splits prod.splits)
    (simp_all add: document_answer_def writeJSON_def numeral_eq_Suc)

lemma AdminUpgradeStatus_document: "document_answer (fst (AdminUpgradeStatus e b w))"
  by (auto simp: AdminUpgradeStatus_def Let_def split: prod.splits)
    (simp_all add: document_answer_def writeJSON_def upgrade_report_def numeral_eq_Suc)

text \<open>The catalog repeats the metadata of the plans; numbers there would be floating point.\<close>

definition plain_metadata :: "BrokerConfig \<Rightarrow> bool" where
  "plain_metadata c \<longleftrightarrow> list_all (\<lambda>p. list_all (\<lambda>(k, j). json_fits 0 j) (p_Metadata p)) (effective_plans c)"

lemma Catalog_document:
  assumes "plain_metadata (config b)"
  shows "document_answer (Catalog b)"
proof -
  have m: "json_fits n j" if "p \<in> set (effective_plans (config b))" "(k, j) \<in> set (p_Metadata p)" for p k j n
    using assms that scalars_fit [of "p_Metadata p" k j n] by (fastforce simp: plain_metadata_def list_all_iff [of _ "effective_plans _"])
  show ?thesis
    using m by (auto simp: Catalog_def document_answer_def writeJSON_def marshal_Service_def catalog_service_def
        buildServicePlans_def marshal_ServicePlan_def metadata_member_def numeral_eq_Suc split: if_splits)
qed

lemma serve_document:
  assumes "plain_metadata (config b)"
  shows "document_answer (fst (serve e req b w))"
proof (cases req)
  case ReqListInstances
  then show ?thesis
    using AdminListInstances_document [of e b w] by (cases "AdminListInstances e b w") simp
qed (simp_all add: Provision_document Deprovision_document Update_document LastOperation_document Bind_document
    Unbind_def Catalog_document [OF assms] AdminUpgrade_document AdminUpgradeStatus_document)

section \<open>Properties\<close>



end
