(* ===== verification/Request_Target.thy ===== *)
theory Request_Target
  imports Router
begin

text \<open>
  The target of a request line, as bytes: what Go's HTTP server and \<^verbatim>\<open>r.URL.Query()\<close> make of it before
  a handler sees a path and a query. A target that begins with a slash is modelled; the other forms of
  a target (absolute, authority, asterisk), which no platform sends to a broker, are the argument
  \<open>other\<close>. Every identifier has targets that lead to it, whatever its bytes, and a target that cannot be
  decoded never reaches the router.
\<close>

section \<open>Model\<close>

text \<open>\<^verbatim>\<open>url.unescape\<close>, for a path or, with \<open>q\<close>, for a component of a query, where a plus is a space.\<close>

fun url_unescape :: "bool \<Rightarrow> bytes \<Rightarrow> bytes option" where
  "url_unescape q [] = Some []"
| "url_unescape q (c # s) =
    (if c = CHR ''%'' then
       (case s of
          a # b # r \<Rightarrow>
            (case (hex_digit (byte a), hex_digit (byte b)) of
               (Some x, Some y) \<Rightarrow> map_option ((#) (char_of (16 * x + y))) (url_unescape q r)
             | _ \<Rightarrow> None)
        | _ \<Rightarrow> None)
     else map_option ((#) (if q \<and> c = CHR ''+'' then CHR '' '' else c)) (url_unescape q s))"

text \<open>\<^verbatim>\<open>url.ParseQuery\<close> as \<^verbatim>\<open>Query\<close> uses it: a pair with a semicolon or a bad escape is passed over.\<close>

definition query_pair :: "bytes \<Rightarrow> (string \<times> string) list" where
  "query_pair s =
    (if s = [] \<or> CHR '';'' \<in> set s then []
     else case strings_Cut (CHR ''='') s of (k, v, _) \<Rightarrow>
       (case (url_unescape True k, url_unescape True v) of
          (Some k, Some v) \<Rightarrow> [(k, v)]
        | _ \<Rightarrow> []))"

definition parse_query :: "bytes \<Rightarrow> (string \<times> string) list" where
  "parse_query s = concat (map query_pair (strings_Split (CHR ''&'') s))"

text \<open>\<^verbatim>\<open>url.ParseRequestURI\<close>: path and raw query.\<close>

definition url_ctl :: "char \<Rightarrow> bool" where
  "url_ctl c \<longleftrightarrow> byte c < 0x20 \<or> byte c = 0x7F"

definition ParseRequestURI :: "(bytes \<Rightarrow> (string \<times> bytes) option) \<Rightarrow> bytes \<Rightarrow> (string \<times> bytes) option" where
  "ParseRequestURI other t =
    (if t = [] \<or> list_ex url_ctl t then None
     else if hd t \<noteq> CHR ''/'' then other t
     else case strings_Cut (CHR ''?'') t of (p, rawQuery, _) \<Rightarrow>
       map_option (\<lambda>path. (path, rawQuery)) (url_unescape False p))"

record raw_request =
  w_Method :: string
  w_Target :: bytes
  w_Authorization :: string
  w_Body :: bytes

definition serve_raw ::
    "(bytes \<Rightarrow> (string \<times> bytes) option) \<Rightarrow> ('w, 'e) ext_scheme \<Rightarrow> Config \<Rightarrow> raw_request \<Rightarrow> Broker \<Rightarrow> 'w
     \<Rightarrow> response \<times> Broker \<times> 'w" where
  "serve_raw other e cfg req b w =
    (case ParseRequestURI other (w_Target req) of
       None \<Rightarrow> (plain 400 ''400 Bad Request'', b, w)
     | Some (path, rawQuery) \<Rightarrow>
         ServeHTTP e cfg \<lparr>h_Method = w_Method req, h_Path = path, h_Query = parse_query rawQuery,
           h_Authorization = w_Authorization req, h_Body = w_Body req\<rparr> b w)"

section \<open>Encoding, as a client does it\<close>

definition unreserved :: "char \<Rightarrow> bool" where
  "unreserved c \<longleftrightarrow> is_upper c \<or> is_lower c \<or> is_digit c \<or> c \<in> set ''-._~''"

fun url_escape :: "bytes \<Rightarrow> bytes" where
  "url_escape [] = []"
| "url_escape (c # s) =
    (if unreserved c then [c] else [CHR ''%'', hex_char (byte c div 16), hex_char (byte c mod 16)]) @ url_escape s"

definition query_escape :: "(string \<times> string) list \<Rightarrow> bytes" where
  "query_escape kvs = strings_Join ''&'' (map (\<lambda>(k, v). url_escape k @ ''='' @ url_escape v) kvs)"

section \<open>Lemmas\<close>

lemma url_unescape_escape: "url_unescape q (url_escape s) = Some s"
  by (induction s) (auto simp: nibble_bounds hex_digit_char char_of_char unreserved_def is_upper_def is_lower_def is_digit_def)

lemma url_escape_chars: "c \<in> set (url_escape s) \<Longrightarrow> unreserved c \<or> c = CHR ''%''"
proof (induction s)
  case (Cons d s)
  have "unreserved (hex_char n)" if "n < 16" for n
    using that by (auto simp: unreserved_def hex_char_def is_lower_def is_digit_def)
  then show ?case
    using Cons by (auto simp: nibble_bounds split: if_splits)
qed simp

lemma url_escape_plain: "c \<in> set ''/?&=;+'' \<or> url_ctl c \<Longrightarrow> c \<notin> set (url_escape s)"
  using url_escape_chars [of c s]
  by (auto simp: unreserved_def is_upper_def is_lower_def is_digit_def url_ctl_def)

interpretation path_text: codec url_escape "url_unescape False" "\<lambda>_. True"
  by unfold_locales (rule url_unescape_escape)

lemma strings_Cut_append: "sep \<notin> set s \<Longrightarrow> strings_Cut sep (s @ sep # t) = (s, t, True)"
proof -
  assume s: "sep \<notin> set s"
  then have "takeWhile (\<lambda>c. c \<noteq> sep) (s @ sep # t) = s"
    by (subst takeWhile_append2) auto
  then show ?thesis
    by (simp add: strings_Cut_def)
qed

lemma query_pair_escape: "query_pair (url_escape k @ CHR ''='' # url_escape v) = [(k, v)]"
proof -
  have "strings_Cut (CHR ''='') (url_escape k @ CHR ''='' # url_escape v) = (url_escape k, url_escape v, True)"
    by (rule strings_Cut_append) (simp add: url_escape_plain)
  then show ?thesis
    using url_escape_plain [of "CHR '';''"] by (simp add: query_pair_def url_unescape_escape)
qed

text \<open>The pairs of an encoded query are read back in their order.\<close>

lemma parse_query_escape: "parse_query (query_escape kvs) = kvs"
proof (cases "kvs = []")
  case False
  have "strings_Split (CHR ''&'') (query_escape kvs) = map (\<lambda>(k, v). url_escape k @ ''='' @ url_escape v) kvs"
    unfolding query_escape_def using False url_escape_plain [of "CHR ''&''"] by (intro strings_Split_Join) auto
  then have "parse_query (query_escape kvs) = concat (map (\<lambda>kv. [kv]) kvs)"
    by (simp add: parse_query_def query_pair_escape comp_def split_def)
  then show ?thesis
    by simp
qed (simp add: query_escape_def parse_query_def query_pair_def)

interpretation query_text: codec query_escape "\<lambda>s. Some (parse_query s)" "\<lambda>_. True"
  by unfold_locales (simp add: parse_query_escape)

lemma url_unescape_plain: "CHR ''%'' \<notin> set p \<Longrightarrow> url_unescape False (p @ s) = map_option ((@) p) (url_unescape False s)"
  by (induction p; cases "url_unescape False s") auto

lemma ParseRequestURI_instance:
  assumes "url_unescape False raw = Some k" and "CHR ''?'' \<notin> set raw" and "\<not> list_ex url_ctl (raw @ q)"
  shows "ParseRequestURI other (''/v2/service_instances/'' @ raw @ ''?'' @ q) = Some (instance_url_path k, q)"
proof -
  let ?p = "''/v2/service_instances/'' @ raw"
  have "strings_Cut (CHR ''?'') (?p @ CHR ''?'' # q) = (?p, q, True)"
    using assms(2) by (intro strings_Cut_append) simp
  moreover have "url_unescape False ?p = Some (instance_url_path k)"
    using assms(1) url_unescape_plain [of "''/v2/service_instances/''" raw] by (simp add: instance_url_path_def)
  moreover have "\<not> list_ex url_ctl (?p @ CHR ''?'' # q)"
    using assms(3) by (simp add: url_ctl_def)
  ultimately show ?thesis
    by (simp add: ParseRequestURI_def)
qed

section \<open>Properties\<close>

text \<open>
  C29. From the request line to the handler: an authenticated request whose target is an encoding of
  \<^verbatim>\<open>/v2/service_instances/\<close> and an identifier reaches the handler its method names, with exactly the
  bytes of that identifier, the first \<^verbatim>\<open>accepts_incomplete\<close> of its query and its decoded body, and
  every identifier without a slash has such a target. Every other method is answered with 405, also
  the GET with which a platform would fetch the instance the catalog calls retrievable.
\<close>

theorem instance_requests_exact:
  assumes "path_element k" and "url_unescape False raw = Some k" and "CHR ''?'' \<notin> set raw" and "\<not> list_ex url_ctl (raw @ q)"
    and "w_Target req = ''/v2/service_instances/'' @ raw @ ''?'' @ q"
    and "BasicAuth (w_Authorization req) = Some (Auth_Username cfg, Auth_Password cfg)"
  shows "serve_raw other e cfg req b w =
    (let acc = get_first (parse_query q) ''accepts_incomplete''; body = json_Decode (w_Body req) in
     if w_Method req = ''PUT'' then Provision e k acc (decode_ProvisionRequest body) b w
     else if w_Method req = ''DELETE'' then Deprovision e k acc b w
     else if w_Method req = ''PATCH'' then Update e k acc (decode_UpdateRequest body) b w
     else (plain 405 [], b, w))
   \<and> url_unescape False (url_escape k) = Some k \<and> CHR ''?'' \<notin> set (url_escape k) \<and> \<not> list_ex url_ctl (url_escape k)"
proof -
  have "\<not> list_ex url_ctl (url_escape k)"
    using url_escape_plain by (auto simp: list_ex_iff)
  then show ?thesis
    using ParseRequestURI_instance [OF assms(2-4)] assms(1,5,6)
    by (simp add: serve_raw_def ServeHTTP_instance_routes [OF assms(1)] url_unescape_escape url_escape_plain Let_def)
qed

theorem instance_requests_exact_witness:
  "serve_raw (\<lambda>_. None) script_ext sample_process
     \<lparr>w_Method = ''PATCH'', w_Target = ''/v2/service_instances/x%0Ainjected:%20yes?accepts_incomplete=true'',
      w_Authorization = basic_auth ''broker'' ''pw'', w_Body = []\<rparr> sample_broker (script_start [])
   = Update script_ext (''x'' @ [newline] @ ''injected: yes'') ''true'' None sample_broker (script_start [])"
proof -
  let ?req = "\<lparr>w_Method = ''PATCH'', w_Target = ''/v2/service_instances/x%0Ainjected:%20yes?accepts_incomplete=true'',
      w_Authorization = basic_auth ''broker'' ''pw'', w_Body = []\<rparr>" and ?k = "''x'' @ [newline] @ ''injected: yes''"
  have auth: "BasicAuth (basic_auth ''broker'' ''pw'') = Some (''broker'', ''pw'')"
    by (rule BasicAuth_basic_auth) simp
  have k: "path_element ?k" "url_unescape False ''x%0Ainjected:%20yes'' = Some ?k"
    "\<not> list_ex url_ctl (''x%0Ainjected:%20yes'' @ ''accepts_incomplete=true'')"
    by (code_simp, code_simp, code_simp)
  have q: "get_first (parse_query ''accepts_incomplete=true'') ''accepts_incomplete'' = ''true''"
    "decode_UpdateRequest (json_Decode []) = None"
    by (code_simp, code_simp)
  show ?thesis
    using instance_requests_exact [OF k(1,2) _ k(3), of ?req sample_process "\<lambda>_. None" script_ext sample_broker "script_start []"]
      auth q by (simp add: sample_process_def)
qed

text \<open>A target that cannot be decoded reaches nobody.\<close>

lemma bad_target_refused:
  assumes "url_unescape False raw = None" and "CHR ''?'' \<notin> set raw" and "raw \<noteq> []" and "hd raw = CHR ''/''"
    and "w_Target req = raw @ ''?'' @ q"
  shows "serve_raw other e cfg req b w = (plain 400 ''400 Bad Request'', b, w)"
proof -
  have "strings_Cut (CHR ''?'') (raw @ CHR ''?'' # q) = (raw, q, True)"
    using assms(2) by (rule strings_Cut_append)
  then show ?thesis
    using assms(1,3-5) by (simp add: serve_raw_def ParseRequestURI_def)
qed

end
