(* ===== verification/Gateway_Stream.thy ===== *)
theory Gateway_Stream
  imports Transition "HOL-Library.Sublist"
begin

text \<open>
  The agent's gateway, a JavaScript process: how it relays the tokens of a language model to a chat
  client (\<^verbatim>\<open>dist/llm.js\<close>, \<^verbatim>\<open>handleChat\<close> of \<^verbatim>\<open>dist/cli.js\<close>, the model test of \<^verbatim>\<open>dist/control.js\<close>). The
  provider sends server-sent events in pieces of any size; a parser keeps the incomplete line and
  calls back. A JavaScript string is the list of its code units, an exception a value. \<^verbatim>\<open>JSON.parse\<close>
  (with the message of its \<^verbatim>\<open>SyntaxError\<close>) and \<^verbatim>\<open>String\<close> are the parameters \<open>parse\<close> and \<open>str\<close>.
\<close>

section \<open>JavaScript strings and values\<close>

type_synonym jstr = "nat list"

definition js :: "string \<Rightarrow> jstr" where
  "js s = map of_char s"

definition js_space :: "nat \<Rightarrow> bool" where
  "js_space u \<longleftrightarrow>
     u \<in> {9, 10, 11, 12, 13, 32, 0xA0, 0x1680, 0x2028, 0x2029, 0x202F, 0x205F, 0x3000, 0xFEFF}
     \<or> 0x2000 \<le> u \<and> u \<le> 0x200A"

definition js_trimStart :: "jstr \<Rightarrow> jstr" where
  "js_trimStart s = dropWhile js_space s"

definition js_trim :: "jstr \<Rightarrow> jstr" where
  "js_trim s = rev (dropWhile js_space (rev (dropWhile js_space s)))"

definition js_includes :: "jstr \<Rightarrow> jstr \<Rightarrow> bool" where
  "js_includes s t \<longleftrightarrow> list_ex (prefix t) (suffixes s)"

text \<open>\<^verbatim>\<open>split\<close> at one code unit; the result is never empty.\<close>

fun split_on :: "'a \<Rightarrow> 'a list \<Rightarrow> 'a list list" where
  "split_on x [] = [[]]"
| "split_on x (y # ys) =
    (if y = x then [] # split_on x ys
     else (case split_on x ys of l # ls \<Rightarrow> (y # l) # ls | [] \<Rightarrow> [[y]]))"

text \<open>Values; a number is given by its \<^verbatim>\<open>String\<close> text, an object by its own properties.\<close>

datatype jsval =
    JsUndefined
  | JsNull
  | JsBool bool
  | JsNum string
  | JsString jstr
  | JsArray "jsval list"
  | JsObject "(jstr \<times> jsval) list"

fun truthy :: "jsval \<Rightarrow> bool" where
  "truthy JsUndefined = False"
| "truthy JsNull = False"
| "truthy (JsBool b) = b"
| "truthy (JsNum s) = (s \<noteq> ''0'' \<and> s \<noteq> ''NaN'')"
| "truthy (JsString s) = (s \<noteq> [])"
| "truthy _ = True"

text \<open>\<^verbatim>\<open>v.name\<close>; \<open>None\<close> is the \<^verbatim>\<open>TypeError\<close> of a property of \<^verbatim>\<open>null\<close> or \<^verbatim>\<open>undefined\<close>.\<close>

fun get :: "jsval \<Rightarrow> string \<Rightarrow> jsval option" where
  "get JsUndefined k = None"
| "get JsNull k = None"
| "get (JsObject ms) k = Some (case map_of ms (js k) of Some v \<Rightarrow> v | None \<Rightarrow> JsUndefined)"
| "get _ k = Some JsUndefined"

text \<open>\<^verbatim>\<open>v[0]\<close>.\<close>

fun index0 :: "jsval \<Rightarrow> jsval" where
  "index0 (JsArray (v # vs)) = v"
| "index0 (JsString (u # us)) = JsString [u]"
| "index0 (JsObject ms) = (case map_of ms (js ''0'') of Some v \<Rightarrow> v | None \<Rightarrow> JsUndefined)"
| "index0 _ = JsUndefined"

section \<open>Lines of a stream\<close>

text \<open>What the loop body does with a line: nothing, a token, the end of the stream, or an exception.\<close>

datatype line_effect = Skip | Emit jsval | Stop | Throw jstr

definition line_payload :: "jstr \<Rightarrow> jstr option" where
  "line_payload line =
    (let trimmed = js_trim line in
     if trimmed = [] \<or> \<not> prefix (js ''data:'') trimmed then None
     else Some (js_trimStart (drop 5 trimmed)))"

text \<open>\<^verbatim>\<open>parsed.choices && parsed.choices[0] && parsed.choices[0].delta\<close>.\<close>

definition openai_delta :: "jsval \<Rightarrow> jsval option" where
  "openai_delta parsed =
    (case get parsed ''choices'' of
       None \<Rightarrow> None
     | Some choices \<Rightarrow>
        if \<not> truthy choices then Some choices
        else if \<not> truthy (index0 choices) then Some (index0 choices)
        else get (index0 choices) ''delta'')"

definition parseOpenAI_line :: "(jstr \<Rightarrow> jstr + jsval) \<Rightarrow> jstr \<Rightarrow> line_effect" where
  "parseOpenAI_line parse line =
    (case line_payload line of
       None \<Rightarrow> Skip
     | Some payload \<Rightarrow>
        if payload = js ''[DONE]'' then Stop
        else case parse payload of
          Inl _ \<Rightarrow> Skip
        | Inr parsed \<Rightarrow>
           (case openai_delta parsed of
              None \<Rightarrow> Skip
            | Some delta \<Rightarrow>
               if \<not> truthy delta then Skip
               else case get delta ''content'' of
                 Some v \<Rightarrow> if truthy v then Emit v else Skip
               | None \<Rightarrow> Skip))"

text \<open>The message of the \<^verbatim>\<open>Error\<close> made for an error event, and whether the \<^verbatim>\<open>catch\<close> lets a message pass.\<close>

definition anthropic_error :: "(jsval \<Rightarrow> jstr) \<Rightarrow> jsval \<Rightarrow> jstr" where
  "anthropic_error str err =
    (case (if truthy err then get err ''message'' else None) of
       Some m \<Rightarrow> if truthy m then str m else js ''Anthropic stream error''
     | None \<Rightarrow> js ''Anthropic stream error'')"

definition rethrown :: "jstr \<Rightarrow> line_effect" where
  "rethrown msg = (if js_includes msg (js ''stream error'') then Throw msg else Skip)"

definition parseAnthropic_line :: "(jstr \<Rightarrow> jstr + jsval) \<Rightarrow> (jsval \<Rightarrow> jstr) \<Rightarrow> jstr \<Rightarrow> line_effect" where
  "parseAnthropic_line parse str line =
    (case line_payload line of
       None \<Rightarrow> Skip
     | Some payload \<Rightarrow>
        (case parse payload of
           Inl msg \<Rightarrow> rethrown msg
         | Inr parsed \<Rightarrow>
            (case (get parsed ''type'', get parsed ''delta'', get parsed ''error'') of
               (Some ty, Some delta, Some err) \<Rightarrow>
                 (let text = (if truthy delta then get delta ''text'' else None) in
                  if ty = JsString (js ''content_block_delta'') \<and> text \<noteq> None \<and> truthy (the text) then Emit (the text)
                  else if ty = JsString (js ''message_stop'') then Stop
                  else if ty = JsString (js ''error'') then rethrown (anthropic_error str err)
                  else Skip)
             | _ \<Rightarrow> Skip)))"

section \<open>The parser\<close>

text \<open>
  The loop over the complete lines with the callbacks as functions on a state; \<open>Some\<close> is an exception
  that leaves the loop. \<^verbatim>\<open>onDone\<close> may throw: the loop for Anthropic calls it inside its \<^verbatim>\<open>try\<close>, whose
  \<^verbatim>\<open>catch\<close> lets only some messages pass, the other one does not.
\<close>

record 's callbacks =
  onToken :: "jsval \<Rightarrow> 's \<Rightarrow> 's"
  onDone :: "'s \<Rightarrow> jstr option \<times> 's"
  onError :: "jstr \<Rightarrow> 's \<Rightarrow> jstr option \<times> 's"

datatype dialect = OpenAI | Anthropic

definition parse_line :: "(jstr \<Rightarrow> jstr + jsval) \<Rightarrow> (jsval \<Rightarrow> jstr) \<Rightarrow> dialect \<Rightarrow> jstr \<Rightarrow> line_effect" where
  "parse_line parse str d =
    (case d of OpenAI \<Rightarrow> parseOpenAI_line parse | Anthropic \<Rightarrow> parseAnthropic_line parse str)"

definition passes :: "dialect \<Rightarrow> jstr \<Rightarrow> bool" where
  "passes d msg \<longleftrightarrow> d = OpenAI \<or> js_includes msg (js ''stream error'')"

fun run_lines :: "dialect \<Rightarrow> (jstr \<Rightarrow> line_effect) \<Rightarrow> ('s, 'e) callbacks_scheme \<Rightarrow> jstr list \<Rightarrow> 's \<Rightarrow> jstr option \<times> 's" where
  "run_lines d f cb [] s = (None, s)"
| "run_lines d f cb (l # ls) s =
    (case f l of
       Skip \<Rightarrow> run_lines d f cb ls s
     | Emit v \<Rightarrow> run_lines d f cb ls (onToken cb v s)
     | Stop \<Rightarrow>
        (case onDone cb s of
           (None, s) \<Rightarrow> (None, s)
         | (Some msg, s) \<Rightarrow> if passes d msg then (Some msg, s) else run_lines d f cb ls s)
     | Throw msg \<Rightarrow> (Some msg, s))"

definition parseStream ::
    "dialect \<Rightarrow> (jstr \<Rightarrow> line_effect) \<Rightarrow> ('s, 'e) callbacks_scheme \<Rightarrow> jstr \<Rightarrow> jstr \<times> 's \<Rightarrow> jstr option \<times> jstr \<times> 's" where
  "parseStream d f cb chunk = (\<lambda>(buffer, s).
    let lines = split_on 10 (buffer @ chunk) in
    case run_lines d f cb (butlast lines) s of (ex, s) \<Rightarrow> (ex, last lines, s))"

text \<open>
  The listeners of \<^verbatim>\<open>streamChat\<close> on the provider's response. The result is \<open>Some\<close> when an exception
  leaves the listener, which ends the process.
\<close>

datatype upstream = Data jstr | StreamEnd | StreamError jstr

fun streamChat_listen ::
    "dialect \<Rightarrow> (jstr \<Rightarrow> line_effect) \<Rightarrow> ('s, 'e) callbacks_scheme \<Rightarrow> upstream \<Rightarrow> jstr \<times> 's \<Rightarrow> jstr option \<times> jstr \<times> 's" where
  "streamChat_listen d f cb (Data chunk) bs =
    (case parseStream d f cb chunk bs of
       (None, b, s) \<Rightarrow> (None, b, s)
     | (Some msg, b, s) \<Rightarrow> (case onError cb msg s of (ex, s) \<Rightarrow> (ex, b, s)))"
| "streamChat_listen d f cb StreamEnd (b, s) = (case onDone cb s of (ex, s) \<Rightarrow> (ex, b, s))"
| "streamChat_listen d f cb (StreamError msg) (b, s) = (case onError cb msg s of (ex, s) \<Rightarrow> (ex, b, s))"

section \<open>A chat session\<close>

text \<open>
  The answer \<^verbatim>\<open>handleChat\<close> streams to its client: a comment, then a token event per token and one last
  event, with the flag \<^verbatim>\<open>done\<close> that silences the callbacks and is also set when the client goes away.
\<close>

datatype chat_event = OkComment | TokenEvent jsval | DoneEvent | ErrorEvent jstr

record chat =
  chat_done :: bool
  chat_out :: "chat_event list"
  chat_ended :: bool

definition handleChat_start :: chat where
  "handleChat_start = \<lparr>chat_done = False, chat_out = [OkComment], chat_ended = False\<rparr>"

definition chat_onToken :: "jsval \<Rightarrow> chat \<Rightarrow> chat" where
  "chat_onToken v c = (if chat_done c then c else c\<lparr>chat_out := chat_out c @ [TokenEvent v]\<rparr>)"

definition chat_finish :: "chat_event \<Rightarrow> chat \<Rightarrow> chat" where
  "chat_finish ev c =
    (if chat_done c then c else c\<lparr>chat_done := True, chat_out := chat_out c @ [ev], chat_ended := True\<rparr>)"

definition chat_close :: "chat \<Rightarrow> chat" where
  "chat_close c = c\<lparr>chat_done := True\<rparr>"

definition chat_callbacks :: "chat callbacks" where
  "chat_callbacks = \<lparr>onToken = chat_onToken, onDone = (\<lambda>c. (None, chat_finish DoneEvent c)),
     onError = (\<lambda>msg c. (None, chat_finish (ErrorEvent msg) c))\<rparr>"

text \<open>A session: pieces of the provider's stream, its end or failure, and the client leaving.\<close>

inductive chat_step :: "dialect \<Rightarrow> (jstr \<Rightarrow> line_effect) \<Rightarrow> jstr \<times> chat \<Rightarrow> jstr \<times> chat \<Rightarrow> bool" for d f where
  upstream: "streamChat_listen d f chat_callbacks ev bc = (ex, bc') \<Longrightarrow> chat_step d f bc bc'"
| close: "chat_step d f (b, c) (b, chat_close c)"

section \<open>The model test\<close>

text \<open>
  \<^verbatim>\<open>POST /api/llm-test\<close>: the same stream, but callbacks without a flag. A second \<^verbatim>\<open>writeHead\<close> on the answer
  throws.
\<close>

record model_test =
  t_tokens :: "jsval list"
  t_reply :: "(bool \<times> jstr) option"

definition headers_sent :: jstr where
  "headers_sent = js ''Cannot write headers after they are sent to the client''"

definition test_reply :: "bool \<times> jstr \<Rightarrow> model_test \<Rightarrow> jstr option \<times> model_test" where
  "test_reply r t = (if t_reply t \<noteq> None then (Some headers_sent, t) else (None, t\<lparr>t_reply := Some r\<rparr>))"

definition test_callbacks :: "(jsval \<Rightarrow> jstr) \<Rightarrow> model_test callbacks" where
  "test_callbacks str = \<lparr>onToken = (\<lambda>v t. t\<lparr>t_tokens := t_tokens t @ [v]\<rparr>),
     onDone = (\<lambda>t. test_reply (True, take 500 (concat (map str (t_tokens t)))) t),
     onError = (\<lambda>msg t. test_reply (False, msg) t)\<rparr>"

text \<open>The events of a stream until an exception ends the process.\<close>

fun run_events ::
    "dialect \<Rightarrow> (jstr \<Rightarrow> line_effect) \<Rightarrow> ('s, 'e) callbacks_scheme \<Rightarrow> upstream list \<Rightarrow> jstr \<times> 's \<Rightarrow> jstr option \<times> jstr \<times> 's" where
  "run_events d f cb [] bs = (None, bs)"
| "run_events d f cb (ev # evs) bs =
    (case streamChat_listen d f cb ev bs of
       (None, bs) \<Rightarrow> run_events d f cb evs bs
     | (Some msg, bs) \<Rightarrow> (Some msg, bs))"

section \<open>Lemmas\<close>

lemma split_on_ne [simp]: "split_on x s \<noteq> []"
  by (induction s) (auto split: list.splits)

lemma split_on_append:
  "split_on x (a @ b) = butlast (split_on x a) @ split_on x (last (split_on x a) @ b)"
proof (induction a)
  case (Cons y a)
  obtain l ls where "split_on x a = l # ls"
    by (cases "split_on x a") auto
  then show ?case
    using Cons by (cases ls) auto
qed simp

lemma split_on_none: "x \<notin> set s \<Longrightarrow> split_on x s = [s]"
  by (induction s) auto

lemma split_on_snoc: "x \<notin> set s \<Longrightarrow> split_on x (s @ [x]) = [s, []]"
  by (induction s) auto

lemma split_on_last: "x \<notin> set (last (split_on x s))"
proof (induction s)
  case (Cons y s)
  obtain l ls where "split_on x s = l # ls"
    by (cases "split_on x s") auto
  then show ?case
    using Cons by (cases ls) auto
qed simp

text \<open>A finished session stays as it is, so leaving the loop early loses nothing.\<close>

definition chat_line :: "(jstr \<Rightarrow> line_effect) \<Rightarrow> jstr \<Rightarrow> chat \<Rightarrow> chat" where
  "chat_line f l c =
    (case f l of
       Skip \<Rightarrow> c
     | Emit v \<Rightarrow> chat_onToken v c
     | Stop \<Rightarrow> chat_finish DoneEvent c
     | Throw msg \<Rightarrow> chat_finish (ErrorEvent msg) c)"

lemma chat_line_simps [simp]:
  "f l = Skip \<Longrightarrow> chat_line f l c = c" "f l = Emit v \<Longrightarrow> chat_line f l c = chat_onToken v c"
  "f l = Stop \<Longrightarrow> chat_line f l c = chat_finish DoneEvent c"
  "f l = Throw msg \<Longrightarrow> chat_line f l c = chat_finish (ErrorEvent msg) c"
  by (simp_all add: chat_line_def)

lemma chat_line_done: "chat_done c \<Longrightarrow> fold (chat_line f) ls c = c"
proof (induction ls)
  case (Cons l ls)
  then have "chat_line f l c = c"
    by (simp add: chat_line_def chat_onToken_def chat_finish_def split: line_effect.splits)
  with Cons show ?case
    by simp
qed simp

lemma chat_finish_done [simp]: "chat_done (chat_finish ev c)"
  by (simp add: chat_finish_def)

lemma run_lines_chat:
  "(case run_lines d f chat_callbacks ls c of (None, c) \<Rightarrow> c | (Some msg, c) \<Rightarrow> chat_finish (ErrorEvent msg) c)
     = fold (chat_line f) ls c"
proof (induction ls arbitrary: c)
  case (Cons l ls)
  then show ?case
    by (cases "f l") (simp_all add: chat_callbacks_def chat_line_done)
qed simp

lemma listen_chat:
  "streamChat_listen d f chat_callbacks (Data chunk) (b, c) =
    (None, last (split_on 10 (b @ chunk)), fold (chat_line f) (butlast (split_on 10 (b @ chunk))) c)"
  using run_lines_chat [of d f "butlast (split_on 10 (b @ chunk))" c]
  by (auto simp: parseStream_def Let_def chat_callbacks_def split: prod.splits option.splits)

lemma run_events_data:
  "run_events d f chat_callbacks (map Data cs @ evs) (b, c) =
     run_events d f chat_callbacks evs
       (last (split_on 10 (b @ concat cs)), fold (chat_line f) (butlast (split_on 10 (b @ concat cs))) c)"
  if "10 \<notin> set b"
  using that
proof (induction cs arbitrary: b c)
  case Nil
  then show ?case
    by (simp add: split_on_none)
next
  case (Cons chunk cs)
  show ?case
    using Cons.IH [OF split_on_last, of "b @ chunk"] split_on_append [of 10 "b @ chunk" "concat cs"]
    by (simp add: listen_chat butlast_append del: streamChat_listen.simps)
qed

text \<open>Without a client that leaves, a session is silent exactly when its answer is closed.\<close>

lemma chat_lines_ended:
  "chat_ended c = chat_done c \<Longrightarrow> chat_ended (fold (chat_line f) ls c) = chat_done (fold (chat_line f) ls c)"
proof (induction ls arbitrary: c)
  case (Cons l ls)
  have "chat_ended (chat_line f l c) = chat_done (chat_line f l c)"
    using Cons.prems by (cases "f l") (simp_all add: chat_onToken_def chat_finish_def)
  then show ?case
    using Cons.IH by simp
qed simp

section \<open>What a client sees\<close>

text \<open>The events a text calls for, line by line: tokens up to the first line that ends the session.\<close>

fun transcript :: "(jstr \<Rightarrow> line_effect) \<Rightarrow> jstr list \<Rightarrow> chat_event list" where
  "transcript f [] = [DoneEvent]"
| "transcript f (l # ls) =
    (case f l of
       Skip \<Rightarrow> transcript f ls
     | Emit v \<Rightarrow> TokenEvent v # transcript f ls
     | Stop \<Rightarrow> [DoneEvent]
     | Throw msg \<Rightarrow> [ErrorEvent msg])"

lemma fold_transcript:
  "\<not> chat_done c \<Longrightarrow> chat_out (chat_finish DoneEvent (fold (chat_line f) ls c)) = chat_out c @ transcript f ls"
proof (induction ls arbitrary: c)
  case (Cons l ls)
  have stay: "chat_out (chat_finish DoneEvent (fold (chat_line f) ls (chat_finish ev c))) = chat_out c @ [ev]" for ev
    using Cons.prems chat_line_done [of "chat_finish ev c" f ls] by (simp add: chat_finish_def)
  show ?case
  proof (cases "f l")
    case (Emit v)
    then show ?thesis
      using Cons by (simp add: chat_onToken_def)
  qed (use Cons stay in simp_all)
qed (simp add: chat_finish_def)

text \<open>The shape of a session's output at every moment.\<close>

definition terminal_event :: "chat_event \<Rightarrow> bool" where
  "terminal_event ev \<longleftrightarrow> ev = DoneEvent \<or> (\<exists>msg. ev = ErrorEvent msg)"

definition session_inv :: "chat \<Rightarrow> bool" where
  "session_inv c \<longleftrightarrow> (\<exists>ts. chat_out c = OkComment # map TokenEvent ts \<and> \<not> chat_ended c
     \<or> (\<exists>ev. chat_out c = OkComment # map TokenEvent ts @ [ev] \<and> terminal_event ev \<and> chat_ended c \<and> chat_done c))"

lemma session_inv_token: "session_inv c \<Longrightarrow> session_inv (chat_onToken v c)"
proof -
  assume "session_inv c"
  then obtain ts where ts: "chat_out c = OkComment # map TokenEvent ts \<and> \<not> chat_ended c
     \<or> (\<exists>ev. chat_out c = OkComment # map TokenEvent ts @ [ev] \<and> terminal_event ev \<and> chat_ended c \<and> chat_done c)"
    by (auto simp: session_inv_def)
  show ?thesis
  proof (cases "chat_done c")
    case False
    then show ?thesis
      using ts by (auto simp: session_inv_def chat_onToken_def intro!: exI [of _ "ts @ [v]"])
  qed (use \<open>session_inv c\<close> in \<open>simp add: chat_onToken_def\<close>)
qed

lemma session_inv_finish: "session_inv c \<Longrightarrow> terminal_event ev \<Longrightarrow> session_inv (chat_finish ev c)"
  by (auto simp: session_inv_def chat_finish_def)

lemma session_inv_close: "session_inv c \<Longrightarrow> session_inv (chat_close c)"
  by (auto simp: session_inv_def chat_close_def)

lemma terminal_events [simp]: "terminal_event DoneEvent" "terminal_event (ErrorEvent msg)"
  by (simp_all add: terminal_event_def)

lemma session_inv_lines: "session_inv c \<Longrightarrow> session_inv (fold (chat_line f) ls c)"
proof (induction ls arbitrary: c)
  case (Cons l ls)
  have "session_inv (chat_line f l c)"
    using Cons.prems by (cases "f l") (simp_all add: session_inv_token session_inv_finish)
  then show ?case
    using Cons.IH by simp
qed simp

interpretation session: invariant_system "chat_step d f" "\<lambda>(b, c). session_inv c" for d f
proof
  fix bc bc' :: "jstr \<times> chat"
  assume inv: "case bc of (b, c) \<Rightarrow> session_inv c" and "chat_step d f bc bc'"
  from this(2) show "case bc' of (b, c) \<Rightarrow> session_inv c"
  proof cases
    case (upstream ev ex)
    obtain b c where bc: "bc = (b, c)"
      by (cases bc)
    show ?thesis
    proof (cases ev)
      case (Data chunk)
      then show ?thesis
        using upstream inv listen_chat [of d f chunk b c] bc by (auto simp: session_inv_lines)
    qed (use upstream inv bc in \<open>auto simp: chat_callbacks_def session_inv_finish\<close>)
  qed (use inv in \<open>simp add: session_inv_close\<close>)
qed

lemma run_lines_test:
  assumes "run_lines d f (test_callbacks str) ls t = (ex, t')" and "\<forall>l\<in>set ls. \<forall>msg. f l \<noteq> Throw msg"
  shows "(ex \<noteq> None \<longrightarrow> t_reply t' \<noteq> None) \<and> (t_reply t \<noteq> None \<or> (\<exists>l\<in>set ls. f l = Stop) \<longrightarrow> t_reply t' \<noteq> None)"
  using assms
proof (induction ls arbitrary: t)
  case (Cons l ls)
  have no: "\<forall>l\<in>set ls. \<forall>msg. f l \<noteq> Throw msg"
    using Cons.prems(2) by simp
  show ?case
  proof (cases "f l")
    case Stop
    consider "t_reply t = None" | "t_reply t \<noteq> None" "passes d headers_sent" | "t_reply t \<noteq> None" "\<not> passes d headers_sent"
      by blast
    then show ?thesis
    proof cases
      case 3
      then have "run_lines d f (test_callbacks str) ls t = (ex, t')"
        using Cons.prems(1) Stop by (simp add: test_callbacks_def test_reply_def)
      from Cons.IH [OF this no] show ?thesis
        using 3 by simp
    qed (use Cons.prems(1) Stop in \<open>auto simp: test_callbacks_def test_reply_def\<close>)
  next
    case (Emit v)
    then have "run_lines d f (test_callbacks str) ls (t\<lparr>t_tokens := t_tokens t @ [v]\<rparr>) = (ex, t')"
      using Cons.prems(1) by (simp add: test_callbacks_def)
    from Cons.IH [OF this no] show ?thesis
      using Emit by simp
  qed (use Cons no in simp_all)
qed simp

lemma listen_test:
  assumes "streamChat_listen d f (test_callbacks str) (Data chunk) (b, t) = (ex, b', t')"
    and "\<forall>l\<in>set (butlast (split_on 10 (b @ chunk))). \<forall>msg. f l \<noteq> Throw msg"
  shows "b' = last (split_on 10 (b @ chunk))" "ex \<noteq> None \<Longrightarrow> t_reply t' \<noteq> None"
    "t_reply t \<noteq> None \<or> (\<exists>l\<in>set (butlast (split_on 10 (b @ chunk))). f l = Stop) \<Longrightarrow> t_reply t' \<noteq> None"
proof -
  obtain ex1 t1 where r: "run_lines d f (test_callbacks str) (butlast (split_on 10 (b @ chunk))) t = (ex1, t1)"
    by fastforce
  note t1 = run_lines_test [OF r assms(2)]
  have ex: "ex1 = None \<and> ex = None \<and> t' = t1 \<or> (\<exists>msg. ex1 = Some msg \<and> onError (test_callbacks str) msg t1 = (ex, t'))"
    and b': "b' = last (split_on 10 (b @ chunk))"
    using assms(1) r by (auto simp: parseStream_def Let_def split: option.splits prod.splits)
  show "b' = last (split_on 10 (b @ chunk))"
    by (rule b')
  show "t_reply t' \<noteq> None" if "ex \<noteq> None"
    using ex t1 that by (auto simp: test_callbacks_def test_reply_def split: if_splits)
  show "t_reply t' \<noteq> None" if "t_reply t \<noteq> None \<or> (\<exists>l\<in>set (butlast (split_on 10 (b @ chunk))). f l = Stop)"
    using ex t1 that by (auto simp: test_callbacks_def test_reply_def split: if_splits)
qed

lemma run_events_test:
  assumes "10 \<notin> set b" and "\<forall>l\<in>set (butlast (split_on 10 (b @ concat cs))). \<forall>msg. f l \<noteq> Throw msg"
    and "t_reply t \<noteq> None \<or> (\<exists>l\<in>set (butlast (split_on 10 (b @ concat cs))). f l = Stop)"
  shows "\<exists>msg b' t'. run_events d f (test_callbacks str) (map Data cs @ [StreamEnd]) (b, t) = (Some msg, b', t')
    \<and> t_reply t' \<noteq> None"
  using assms
proof (induction cs arbitrary: b t)
  case Nil
  then show ?case
    by (auto simp: split_on_none test_callbacks_def test_reply_def)
next
  case (Cons chunk cs)
  let ?ls = "split_on 10 (b @ chunk)"
  obtain ex b' t' where l: "streamChat_listen d f (test_callbacks str) (Data chunk) (b, t) = (ex, b', t')"
    by (metis prod_cases3)
  have sp: "split_on 10 (b @ concat (chunk # cs)) = butlast ?ls @ split_on 10 (last ?ls @ concat cs)"
    using split_on_append [of 10 "b @ chunk" "concat cs"] by simp
  have no: "\<forall>l\<in>set (butlast ?ls). \<forall>msg. f l \<noteq> Throw msg"
    "\<forall>l\<in>set (butlast (split_on 10 (last ?ls @ concat cs))). \<forall>msg. f l \<noteq> Throw msg"
    using Cons.prems(2) unfolding sp by (auto simp: butlast_append)
  note lt = listen_test [OF l no(1)]
  show ?case
  proof (cases ex)
    case (Some msg)
    then show ?thesis
      using l lt(2) by simp
  next
    case None
    have "t_reply t' \<noteq> None \<or> (\<exists>l\<in>set (butlast (split_on 10 (last ?ls @ concat cs))). f l = Stop)"
      using Cons.prems(3) lt(3) unfolding sp by (auto simp: butlast_append)
    from Cons.IH [OF split_on_last no(2) this] show ?thesis
      using l None lt(1) by simp
  qed
qed

lemma openai_never_throws: "parse_line parse str OpenAI l \<noteq> Throw msg"
  by (auto simp: parse_line_def parseOpenAI_line_def split: option.splits sum.splits)

section \<open>Properties\<close>

text \<open>
  C25. A chat client sees the text of the provider and not its pieces: in however many pieces a stream
  arrives, the client gets exactly the events that the lines of the whole text call for, tokens in
  order up to the first line that ends the session and then one last event, and the answer is closed.
\<close>

theorem chat_transcript:
  "\<exists>b' c'. run_events d (parse_line parse str d) chat_callbacks (map Data cs @ [StreamEnd]) ([], handleChat_start)
      = (None, b', c')
    \<and> chat_out c' = OkComment # transcript (parse_line parse str d) (butlast (split_on 10 (concat cs))) \<and> chat_ended c'"
proof -
  let ?f = "parse_line parse str d"
  let ?c = "fold (chat_line ?f) (butlast (split_on 10 (concat cs))) handleChat_start"
  have "run_events d ?f chat_callbacks (map Data cs @ [StreamEnd]) ([], handleChat_start)
      = (None, last (split_on 10 (concat cs)), chat_finish DoneEvent ?c)"
    by (simp add: run_events_data) (simp add: chat_callbacks_def)
  moreover have "chat_out (chat_finish DoneEvent ?c) = OkComment # transcript ?f (butlast (split_on 10 (concat cs)))"
    by (simp add: fold_transcript handleChat_start_def)
  moreover have "chat_ended (chat_finish DoneEvent ?c)"
    using chat_lines_ended [of handleChat_start "parse_line parse str d"] by (simp add: chat_finish_def handleChat_start_def)
  ultimately show ?thesis
    by blast
qed

text \<open>
  C26. The protocol of a chat answer: whatever the provider sends, wherever it breaks off and whenever
  the client leaves, the answer is a comment and tokens, and a last event exactly when the answer was
  closed; nothing is written after that.
\<close>

theorem chat_protocol:
  assumes "(chat_step d (parse_line parse str d))\<^sup>*\<^sup>* ([], handleChat_start) (b, c)"
  shows "\<exists>ts. if chat_ended c then \<exists>ev. terminal_event ev \<and> chat_out c = OkComment # map TokenEvent ts @ [ev]
    else chat_out c = OkComment # map TokenEvent ts"
proof -
  have "session_inv c"
    using session.inv_run [OF assms] by (simp add: session_inv_def handleChat_start_def)
  then show ?thesis
    by (auto simp: session_inv_def)
qed

text \<open>A provider that says hello, and the values its lines stand for.\<close>

definition sample_parse :: "jstr \<Rightarrow> jstr + jsval" where
  "sample_parse s =
    (if s = js ''hello'' then Inr (JsObject [(js ''choices'',
        JsArray [JsObject [(js ''delta'', JsObject [(js ''content'', JsString (js ''Hi''))])]])])
     else if s = js ''overloaded'' then Inr (JsObject [(js ''type'', JsString (js ''error'')),
        (js ''error'', JsObject [(js ''message'', JsString (js ''Overloaded''))])])
     else Inl (js ''Unexpected token''))"

lemma sample_lines:
  "parse_line sample_parse str OpenAI (js ''data: hello'') = Emit (JsString (js ''Hi''))"
  "parse_line sample_parse str OpenAI (js ''data: [DONE]'') = Stop"
  by (simp_all add: parse_line_def parseOpenAI_line_def line_payload_def js_trim_def js_trimStart_def js_space_def js_def
      sample_parse_def openai_delta_def)

theorem chat_protocol_witness:
  "\<exists>b c. (chat_step OpenAI (parse_line sample_parse (\<lambda>_. []) OpenAI))\<^sup>*\<^sup>* ([], handleChat_start) (b, c)
     \<and> chat_ended c \<and> (\<exists>ts ev. chat_out c = OkComment # map TokenEvent ts @ [ev])"
proof -
  let ?f = "parse_line sample_parse (\<lambda>_. []) OpenAI"
  let ?c = "chat_finish DoneEvent handleChat_start"
  have "chat_step OpenAI ?f ([], handleChat_start) ([], ?c)"
    using chat_step.upstream [of OpenAI ?f StreamEnd "([], handleChat_start)"] by (simp add: chat_callbacks_def)
  then have run: "(chat_step OpenAI ?f)\<^sup>*\<^sup>* ([], handleChat_start) ([], ?c)"
    by (rule r_into_rtranclp)
  moreover have e: "chat_ended ?c"
    by (simp add: chat_finish_def handleChat_start_def)
  ultimately show ?thesis
    using chat_protocol [OF run] by auto
qed

text \<open>
  C38. The model test of the dashboard ends the gateway: with every stream that closes as its protocol
  says it should (a line that stops it, no error), in whatever pieces it arrives, the second call of
  \<^verbatim>\<open>onDone\<close> at the end of the stream writes headers again after the answer was sent, and the exception
  leaves a listener and so the process.
\<close>

theorem model_test_ends_gateway:
  assumes "\<exists>l\<in>set (butlast (split_on 10 (concat cs))). parse_line parse str d l = Stop"
    and "\<forall>l\<in>set (butlast (split_on 10 (concat cs))). \<forall>msg. parse_line parse str d l \<noteq> Throw msg"
  shows "\<exists>msg b' t'. run_events d (parse_line parse str d) (test_callbacks str) (map Data cs @ [StreamEnd])
      ([], \<lparr>t_tokens = [], t_reply = None\<rparr>) = (Some msg, b', t') \<and> t_reply t' \<noteq> None"
  using run_events_test [of "[]" cs "parse_line parse str d"] assms by simp

theorem model_test_ends_gateway_witness:
  "\<exists>msg b' t'. run_events OpenAI (parse_line sample_parse (\<lambda>_. []) OpenAI) (test_callbacks (\<lambda>_. []))
      [Data (js ''data: [DO''), Data (js ''NE]'' @ [10]), StreamEnd] ([], \<lparr>t_tokens = [], t_reply = None\<rparr>) = (Some msg, b', t')"
proof -
  have "butlast (split_on 10 (concat [js ''data: [DO'', js ''NE]'' @ [10]])) = [js ''data: [DONE]'']"
    by (simp add: js_def)
  then show ?thesis
    using model_test_ends_gateway [of "[js ''data: [DO'', js ''NE]'' @ [10]]" sample_parse "\<lambda>_. []" OpenAI]
      sample_lines(2) openai_never_throws by fastforce
qed

text \<open>
  An error of the Anthropic API is reported as success: unless its message happens to contain the
  words \<^verbatim>\<open>stream error\<close>, an error event is skipped like a line that cannot be parsed, and a stream that
  ends with it closes the chat with the event of a complete answer.
\<close>

theorem anthropic_error_swallowed:
  assumes "line_payload l = Some payload" and "10 \<notin> set l"
    and "parse payload = Inr (JsObject [(js ''type'', JsString (js ''error'')), (js ''error'', JsObject [(js ''message'', JsString m)])])"
    and "str (JsString m) = m" and "m \<noteq> []" and "\<not> js_includes m (js ''stream error'')"
  shows "\<exists>b' c'. run_events Anthropic (parse_line parse str Anthropic) chat_callbacks [Data (l @ [10]), StreamEnd] ([], handleChat_start)
      = (None, b', c') \<and> chat_out c' = [OkComment, DoneEvent]"
proof -
  have "js ''type'' \<noteq> js ''error''" "js ''delta'' \<notin> {js ''type'', js ''error''}" "js ''error'' \<noteq> js ''content_block_delta''"
    "js ''error'' \<noteq> js ''message_stop''"
    by (simp_all add: js_def)
  then have "parse_line parse str Anthropic l = Skip"
    using assms(1,3-6) by (auto simp: parse_line_def parseAnthropic_line_def anthropic_error_def rethrown_def Let_def)
  moreover have "butlast (split_on 10 (l @ [10])) = [l]"
    using assms(2) by (simp add: split_on_snoc)
  ultimately show ?thesis
    using run_events_data [of "[]" Anthropic "parse_line parse str Anthropic" "[l @ [10]]" "[StreamEnd]" handleChat_start]
    by (simp add: chat_callbacks_def chat_finish_def handleChat_start_def)
qed

theorem anthropic_error_swallowed_witness:
  "\<exists>b' c'. run_events Anthropic (parse_line sample_parse (\<lambda>v. case v of JsString s \<Rightarrow> s | _ \<Rightarrow> []) Anthropic) chat_callbacks
      [Data (js ''data: overloaded'' @ [10]), StreamEnd] ([], handleChat_start) = (None, b', c') \<and> chat_out c' = [OkComment, DoneEvent]"
proof (rule anthropic_error_swallowed [where payload = "js ''overloaded''" and m = "js ''Overloaded''"])
  show "line_payload (js ''data: overloaded'') = Some (js ''overloaded'')"
    by (simp add: line_payload_def js_trim_def js_trimStart_def js_space_def js_def)
  show "10 \<notin> set (js ''data: overloaded'')"
    by (simp add: js_def)
  show "sample_parse (js ''overloaded'') = Inr (JsObject [(js ''type'', JsString (js ''error'')),
      (js ''error'', JsObject [(js ''message'', JsString (js ''Overloaded''))])])"
    by (simp add: sample_parse_def js_def)
  show "js ''Overloaded'' \<noteq> []" "\<not> js_includes (js ''Overloaded'') (js ''stream error'')"
    by (simp_all add: js_includes_def js_def)
qed simp

end
