(* ===== verification/Gateway_Server.thy ===== *)
theory Gateway_Server
  imports Gateway_Stream
begin

text \<open>
  The gateway's HTTP server (\<^verbatim>\<open>dist/cli.js\<close>), its administrative endpoints (\<^verbatim>\<open>dist/control.js\<close>) and the
  choice of the language model (\<^verbatim>\<open>resolveProvider\<close> of \<^verbatim>\<open>dist/llm.js\<close>): who may use it, what a request
  leads to, and what ends the process. The configuration is given with empty strings for what is
  absent, as every use of it has the form \<^verbatim>\<open>value || default\<close>; the path of a request and the parameters
  of its query are those \<^verbatim>\<open>URL\<close> gives. The pages themselves and the figures of the status are left out.
\<close>

section \<open>Configuration\<close>

record gateway_config =
  gw_instance_id :: jstr
  gw_instance_owner :: jstr
  gw_instance_plan :: jstr
  llm_provider :: jstr
  model_override :: jstr
  genai_endpoint :: jstr
  genai_model :: jstr
  genai_api_key :: jstr
  openai_api_key :: jstr
  anthropic_api_key :: jstr
  gw_token :: jstr
  sso_enabled :: bool

definition empty_config :: gateway_config where
  "empty_config = \<lparr>gw_instance_id = [], gw_instance_owner = [], gw_instance_plan = [], llm_provider = [], model_override = [],
     genai_endpoint = [], genai_model = [], genai_api_key = [], openai_api_key = [], anthropic_api_key = [],
     gw_token = [], sso_enabled = False\<rparr>"

definition js_or :: "jstr \<Rightarrow> jstr \<Rightarrow> jstr" where
  "js_or s d = (if s = [] then d else s)"

text \<open>The start: a file that is missing or that cannot be parsed leaves the empty configuration.\<close>

definition load_config :: "(jstr \<Rightarrow> jstr + gateway_config) \<Rightarrow> jstr option \<Rightarrow> gateway_config" where
  "load_config parse file =
    (case file of
       None \<Rightarrow> empty_config
     | Some text \<Rightarrow> (case parse text of Inl _ \<Rightarrow> empty_config | Inr c \<Rightarrow> c))"

section \<open>The language model\<close>

record provider =
  pr_url :: jstr
  pr_headers :: "(string \<times> jstr) list"
  pr_model :: jstr
  pr_dialect :: dialect

text \<open>\<^verbatim>\<open>replace(/\/+$/, '')\<close>.\<close>

definition strip_slashes :: "jstr \<Rightarrow> jstr" where
  "strip_slashes s = rev (dropWhile (\<lambda>u. u = 47) (rev s))"

definition resolveProvider :: "gateway_config \<Rightarrow> jstr + provider" where
  "resolveProvider c =
    (let prov = js_or (llm_provider c) (js ''genai''); json = (''Content-Type'', js ''application/json'') in
     if prov \<in> {js ''tanzu_genai'', js ''genai'', js ''external_openai''} then
       (let base = strip_slashes (genai_endpoint c) in
        if base = [] then Inl (js ''LLM endpoint not configured (llm.genai.endpoint is empty)'')
        else Inr \<lparr>pr_url = base @ js ''/v1/chat/completions'',
               pr_headers = json # (if genai_api_key c = [] then [] else [(''Authorization'', js ''Bearer '' @ genai_api_key c)]),
               pr_model = js_or (model_override c) (js_or (genai_model c) (js ''auto'')), pr_dialect = OpenAI\<rparr>)
     else if prov = js ''openai'' then
       (if openai_api_key c = [] then Inl (js ''OpenAI API key not configured'')
        else Inr \<lparr>pr_url = js ''https://api.openai.com/v1/chat/completions'',
               pr_headers = [json, (''Authorization'', js ''Bearer '' @ openai_api_key c)],
               pr_model = js_or (model_override c) (js ''gpt-4o''), pr_dialect = OpenAI\<rparr>)
     else if prov = js ''anthropic'' then
       (if anthropic_api_key c = [] then Inl (js ''Anthropic API key not configured'')
        else Inr \<lparr>pr_url = js ''https://api.anthropic.com/v1/messages'',
               pr_headers = [json, (''x-api-key'', anthropic_api_key c), (''anthropic-version'', js ''2023-06-01'')],
               pr_model = js_or (model_override c) (js ''claude-sonnet-4-5-20250929''), pr_dialect = Anthropic\<rparr>)
     else Inl (js ''Unknown LLM provider: '' @ prov))"

text \<open>\<^verbatim>\<open>buildBody\<close>: the value handed to \<^verbatim>\<open>JSON.stringify\<close>; \<open>None\<close> is the \<^verbatim>\<open>TypeError\<close> of a message without properties.\<close>

fun roles :: "jsval list \<Rightarrow> jsval list option" where
  "roles [] = Some []"
| "roles (m # ms) =
    (case (get m ''role'', roles ms) of (Some r, Some rs) \<Rightarrow> Some (r # rs) | _ \<Rightarrow> None)"

fun join :: "jstr \<Rightarrow> jstr list \<Rightarrow> jstr" where
  "join sep [] = []"
| "join sep [s] = s"
| "join sep (s # ss) = s @ sep @ join sep ss"

text \<open>An element of \<^verbatim>\<open>Array.join\<close>: \<^verbatim>\<open>null\<close> and \<^verbatim>\<open>undefined\<close> are empty.\<close>

definition join_text :: "(jsval \<Rightarrow> jstr) \<Rightarrow> jsval \<Rightarrow> jstr" where
  "join_text str v = (if v = JsNull \<or> v = JsUndefined then [] else str v)"

definition message_content :: "(jsval \<Rightarrow> jstr) \<Rightarrow> jsval \<Rightarrow> jstr" where
  "message_content str m = (case get m ''content'' of Some v \<Rightarrow> join_text str v | None \<Rightarrow> [])"

definition buildBody :: "(jsval \<Rightarrow> jstr) \<Rightarrow> provider \<Rightarrow> jsval list \<Rightarrow> jsval option" where
  "buildBody str p messages =
    (case pr_dialect p of
       OpenAI \<Rightarrow> Some (JsObject [(js ''model'', JsString (pr_model p)), (js ''messages'', JsArray messages),
                   (js ''stream'', JsBool True)])
     | Anthropic \<Rightarrow>
        (case roles messages of
           None \<Rightarrow> None
         | Some rs \<Rightarrow>
            (let tagged = zip rs messages;
                 sys = JsString (js ''system'');
                 systemMsgs = map snd (filter (\<lambda>(r, m). r = sys) tagged);
                 nonSystemMsgs = map snd (filter (\<lambda>(r, m). r \<noteq> sys) tagged)
             in Some (JsObject ([(js ''model'', JsString (pr_model p)), (js ''max_tokens'', JsNum ''4096''),
                  (js ''stream'', JsBool True), (js ''messages'', JsArray nonSystemMsgs)]
                @ (if systemMsgs = [] then []
                   else [(js ''system'', JsString (join [10, 10] (map (message_content str) systemMsgs)))]))))))"

text \<open>
  How \<^verbatim>\<open>streamChat\<close> begins: an error for the callback, an exception that leaves it (only
  \<^verbatim>\<open>resolveProvider\<close> is inside the \<^verbatim>\<open>try\<close>), or the request.
\<close>

datatype chat_begin = BeginError jstr | BeginThrows | BeginRequest provider jsval

definition streamChat :: "(jstr \<Rightarrow> bool) \<Rightarrow> (jsval \<Rightarrow> jstr) \<Rightarrow> gateway_config \<Rightarrow> jsval list \<Rightarrow> chat_begin" where
  "streamChat url_ok str c messages =
    (case resolveProvider c of
       Inl msg \<Rightarrow> BeginError msg
     | Inr p \<Rightarrow>
        (case buildBody str p messages of
           None \<Rightarrow> BeginThrows
         | Some body \<Rightarrow> if url_ok (pr_url p) then BeginRequest p body else BeginThrows))"

text \<open>The message for an answer of status 400 and above.\<close>

definition http_error_message :: "(jstr \<Rightarrow> jstr + jsval) \<Rightarrow> (jsval \<Rightarrow> jstr) \<Rightarrow> jstr \<Rightarrow> jstr \<Rightarrow> jstr" where
  "http_error_message parse str statusCode errBody =
     js ''LLM API error (HTTP '' @ statusCode @ js '')'' @ js '': ''
     @ (case parse errBody of
          Inl _ \<Rightarrow> take 200 errBody
        | Inr parsed \<Rightarrow>
           (case get parsed ''error'' of
              None \<Rightarrow> take 200 errBody
            | Some err \<Rightarrow>
               if \<not> truthy err then take 200 errBody
               else case get err ''message'' of
                 Some m \<Rightarrow> if truthy m then str m else str err
               | None \<Rightarrow> str err))"

section \<open>The chat request\<close>

definition system_prompt :: "gateway_config \<Rightarrow> jstr" where
  "system_prompt c = js ''You are OpenClaw, an AI agent running on instance '' @ [34] @ js_or (gw_instance_id c) (js ''unknown'') @ [34]
     @ js '' (plan: '' @ js_or (gw_instance_plan c) (js ''unknown'') @ js '', owner: '' @ js_or (gw_instance_owner c) (js ''unknown'')
     @ js ''). Be helpful, clear, and concise. Use markdown formatting when it improves readability.''"

datatype chat_outcome = ChatBadRequest jstr | ChatThrows | ChatStarted "jsval list" chat_begin

definition handleChat ::
    "(jstr \<Rightarrow> jstr + jsval) \<Rightarrow> (jstr \<Rightarrow> bool) \<Rightarrow> (jsval \<Rightarrow> jstr) \<Rightarrow> gateway_config \<Rightarrow> jstr \<Rightarrow> chat_outcome" where
  "handleChat parse url_ok str c body =
    (case parse body of
       Inl msg \<Rightarrow> ChatBadRequest (js ''Invalid JSON: '' @ msg)
     | Inr data \<Rightarrow>
        (case get data ''messages'' of
           None \<Rightarrow> ChatThrows
         | Some m \<Rightarrow>
            (let msgs = (if truthy m then (case m of JsArray vs \<Rightarrow> vs | _ \<Rightarrow> [m]) else []);
                 full = JsObject [(js ''role'', JsString (js ''system'')), (js ''content'', JsString (system_prompt c))] # msgs
             in ChatStarted full (streamChat url_ok str c full))))"

section \<open>Authentication\<close>

record gateway_request =
  g_method :: string
  g_pathname :: jstr
  g_authorization :: jstr
  g_cookie :: jstr
  g_query :: "string \<Rightarrow> jstr option"
  g_body :: jstr

definition cookie_matches :: "jstr \<Rightarrow> jstr \<Rightarrow> bool" where
  "cookie_matches token cookie =
    (let parts = split_on 61 (js_trim cookie) in hd parts = js ''oc_token'' \<and> join [61] (tl parts) = token)"

text \<open>The verdict, and the cookie that is set when the token came with the query.\<close>

definition checkAuth :: "gateway_config \<Rightarrow> gateway_request \<Rightarrow> bool \<times> jstr option" where
  "checkAuth c r =
    (let token = gw_token c; bearer = js ''Bearer '' in
     if sso_enabled c then (True, None)
     else if token = [] then (True, None)
     else if prefix bearer (g_authorization r) \<and> drop 7 (g_authorization r) = token then (True, None)
     else if g_query r ''token'' = Some token
       then (True, Some (js ''oc_token='' @ token @ js ''; HttpOnly; Path=/; SameSite=Strict''))
     else (list_ex (cookie_matches token) (split_on 59 (g_cookie r)), None))"

section \<open>The log endpoint\<close>

definition log_char :: "nat \<Rightarrow> bool" where
  "log_char u \<longleftrightarrow> 97 \<le> u \<and> u \<le> 122 \<or> 65 \<le> u \<and> u \<le> 90 \<or> 48 \<le> u \<and> u \<le> 57 \<or> u = 46 \<or> u = 95 \<or> u = 45"

definition log_file :: "gateway_request \<Rightarrow> jstr" where
  "log_file r = filter log_char (js_or (case g_query r ''file'' of Some f \<Rightarrow> f | None \<Rightarrow> []) (js ''stdout''))"

definition log_path :: "gateway_request \<Rightarrow> jstr" where
  "log_path r = js ''/var/vcap/sys/log/openclaw-agent'' @ js ''/'' @ log_file r @ js ''.log''"

text \<open>\<^verbatim>\<open>parseInt(s, 10)\<close>; \<open>None\<close> is \<^verbatim>\<open>NaN\<close>.\<close>

definition js_digit :: "nat \<Rightarrow> bool" where
  "js_digit u \<longleftrightarrow> 48 \<le> u \<and> u \<le> 57"

definition js_parseInt :: "jstr \<Rightarrow> int option" where
  "js_parseInt s =
    (let t = js_trimStart s;
         neg = (t \<noteq> [] \<and> hd t = 45);
         ds = takeWhile js_digit (if t \<noteq> [] \<and> (hd t = 45 \<or> hd t = 43) then tl t else t);
         n = int (foldl (\<lambda>acc u. 10 * acc + (u - 48)) 0 ds)
     in if ds = [] then None else Some (if neg then - n else n))"

definition log_lines :: "gateway_request \<Rightarrow> int option" where
  "log_lines r = map_option (min 2000) (js_parseInt (js_or (case g_query r ''lines'' of Some l \<Rightarrow> l | None \<Rightarrow> []) (js ''200'')))"

text \<open>\<^verbatim>\<open>slice(-lines)\<close>: a negative start counts from the end, \<^verbatim>\<open>NaN\<close> is zero.\<close>

definition js_slice_from :: "int \<Rightarrow> 'a list \<Rightarrow> 'a list" where
  "js_slice_from start xs = (if start < 0 then drop (length xs - nat (- start)) xs else drop (nat start) xs)"

definition log_tail :: "gateway_request \<Rightarrow> jstr \<Rightarrow> jstr list" where
  "log_tail r text = js_slice_from (case log_lines r of Some n \<Rightarrow> - n | None \<Rightarrow> 0) (split_on 10 text)"

section \<open>The server\<close>

datatype gateway_outcome =
    Health
  | Unauthorized
  | Chat chat_outcome
  | StatusReport
  | Stats nat
  | ModelTest chat_begin
  | LogTail jstr "int option" "jstr list"
  | LogMissing jstr jstr
  | LogUnreadable jstr jstr
  | Restarting
  | UnknownEndpoint
  | Dashboard

text \<open>What the file system says of a file: that it is missing, why it cannot be read, or its text.\<close>

type_synonym log_files = "jstr \<Rightarrow> (jstr + jstr) option"

definition test_messages :: "jsval list" where
  "test_messages =
    [JsObject [(js ''role'', JsString (js ''system'')),
               (js ''content'', JsString (js ''You are a test assistant. Reply in exactly one short sentence.''))],
     JsObject [(js ''role'', JsString (js ''user'')),
               (js ''content'', JsString (js ''Say hello and confirm you are working.''))]]"

definition handleAdminAPI ::
    "(jstr \<Rightarrow> bool) \<Rightarrow> (jsval \<Rightarrow> jstr) \<Rightarrow> log_files \<Rightarrow> gateway_config \<Rightarrow> nat \<Rightarrow> gateway_request \<Rightarrow> gateway_outcome" where
  "handleAdminAPI url_ok str fs c count r =
    (if g_method r = ''GET'' \<and> g_pathname r = js ''/api/status'' then StatusReport
     else if g_method r = ''GET'' \<and> g_pathname r = js ''/api/stats'' then Stats count
     else if g_method r = ''POST'' \<and> g_pathname r = js ''/api/llm-test'' then ModelTest (streamChat url_ok str c test_messages)
     else if g_method r = ''GET'' \<and> g_pathname r = js ''/api/logs'' then
       (case fs (log_path r) of
          Some (Inr text) \<Rightarrow> LogTail (log_file r) (log_lines r) (log_tail r text)
        | Some (Inl msg) \<Rightarrow> LogUnreadable (log_file r) msg
        | None \<Rightarrow> LogMissing (log_file r) (log_path r))
     else if g_method r = ''POST'' \<and> g_pathname r = js ''/api/restart'' then Restarting
     else UnknownEndpoint)"

text \<open>One request: what happens and the number of chat requests afterwards.\<close>

definition gateway_serve ::
    "(jstr \<Rightarrow> jstr + jsval) \<Rightarrow> (jstr \<Rightarrow> bool) \<Rightarrow> (jsval \<Rightarrow> jstr) \<Rightarrow> log_files \<Rightarrow> gateway_config \<Rightarrow> nat
     \<Rightarrow> gateway_request \<Rightarrow> gateway_outcome \<times> nat" where
  "gateway_serve parse url_ok str fs c count r =
    (if g_pathname r = js ''/healthz'' \<or> g_pathname r = js ''/health'' then (Health, count)
     else if g_pathname r = js ''/api/chat'' \<and> g_method r = ''POST'' then
       (if \<not> fst (checkAuth c r) then (Unauthorized, count)
        else (Chat (handleChat parse url_ok str c (g_body r)), Suc count))
     else if prefix (js ''/api/'') (g_pathname r) then
       (if \<not> fst (checkAuth c r) then (Unauthorized, count)
        else (handleAdminAPI url_ok str fs c count r, count))
     else if \<not> fst (checkAuth c r) then (Unauthorized, count)
     else (Dashboard, count))"

text \<open>\<^verbatim>\<open>esc\<close>: one replacement after the other.\<close>

definition replace_unit :: "nat \<Rightarrow> string \<Rightarrow> jstr \<Rightarrow> jstr" where
  "replace_unit u t s = concat (map (\<lambda>x. if x = u then js t else [x]) s)"

definition esc :: "jstr \<Rightarrow> jstr" where
  "esc s = replace_unit 34 ''&quot;'' (replace_unit 62 ''&gt;'' (replace_unit 60 ''&lt;'' (replace_unit 38 ''&amp;'' s)))"

section \<open>Lemmas\<close>

lemma join_split: "join [x] (split_on x s) = s"
proof (induction s)
  case (Cons y s)
  obtain l ls where "split_on x s = l # ls"
    by (cases "split_on x s") auto
  then show ?case
    using Cons by (cases ls) auto
qed simp

lemma split_on_once: "x \<notin> set a \<Longrightarrow> split_on x (a @ x # b) = a # split_on x b"
  by (induction a) auto

text \<open>Characters of a token as the broker makes them.\<close>

definition token_char :: "nat \<Rightarrow> bool" where
  "token_char u \<longleftrightarrow> 97 \<le> u \<and> u \<le> 122 \<or> 65 \<le> u \<and> u \<le> 90 \<or> 48 \<le> u \<and> u \<le> 57 \<or> u = 95 \<or> u = 45"

lemma token_char_plain: "token_char u \<Longrightarrow> \<not> js_space u \<and> u \<noteq> 59"
  by (auto simp: token_char_def js_space_def)

lemma js_trim_plain: "s \<noteq> [] \<Longrightarrow> \<not> js_space (hd s) \<Longrightarrow> \<not> js_space (last s) \<Longrightarrow> js_trim s = s"
proof -
  assume s: "s \<noteq> []" "\<not> js_space (hd s)" "\<not> js_space (last s)"
  have "dropWhile js_space s = s"
    using s by (cases s) auto
  moreover have "dropWhile js_space (rev s) = rev s"
    using s by (cases s rule: rev_cases) auto
  ultimately show "js_trim s = s"
    by (simp add: js_trim_def)
qed

lemma oc_token_units: "js ''oc_token'' = [111, 99, 95, 116, 111, 107, 101, 110]" "js ''oc_token='' = js ''oc_token'' @ [61]"
  by (simp_all add: js_def)

lemma cookie_of_token:
  assumes "list_all token_char token" and "token \<noteq> []"
  shows "cookie_matches token (js ''oc_token='' @ token)"
proof -
  have "js_trim (js ''oc_token='' @ token) = js ''oc_token'' @ 61 # token"
    using assms token_char_plain [of "last token"]
    by (subst js_trim_plain) (simp_all add: oc_token_units js_space_def list_all_iff)
  then show ?thesis
    using split_on_once [of 61 "js ''oc_token''" token] join_split [of 61 token]
    by (simp add: cookie_matches_def oc_token_units)
qed

lemma roles_None: "roles ms = None \<longleftrightarrow> JsNull \<in> set ms \<or> JsUndefined \<in> set ms"
proof (induction ms)
  case (Cons m ms)
  have "get m k = None \<longleftrightarrow> m = JsNull \<or> m = JsUndefined" for k
    by (cases m) auto
  then show ?case
    using Cons by (auto split: option.splits)
qed simp

section \<open>Properties\<close>


text \<open>A configured gateway and a request without credentials.\<close>

definition sample_gateway :: gateway_config where
  "sample_gateway = empty_config\<lparr>gw_token := js ''tok''\<rparr>"

definition sample_get :: "string \<Rightarrow> (string \<Rightarrow> jstr option) \<Rightarrow> gateway_request" where
  "sample_get p q = \<lparr>g_method = ''GET'', g_pathname = js p, g_authorization = [], g_cookie = [], g_query = q, g_body = []\<rparr>"


text \<open>
  C27. The log endpoint stays in its directory: whatever file a request names, the path that is opened
  has exactly the elements of the log directory and one more, which ends in \<^verbatim>\<open>.log\<close>.
\<close>

theorem log_path_confined:
  "\<exists>name. split_on 47 (log_path r) = map js [[], ''var'', ''vcap'', ''sys'', ''log'', ''openclaw-agent''] @ [name @ js ''.log'']
     \<and> list_all log_char name"
proof -
  have "47 \<notin> set (log_file r @ js ''.log'')"
    by (auto simp: log_file_def log_char_def js_def)
  then have "split_on 47 (log_file r @ js ''.log'') = [log_file r @ js ''.log'']"
    by (rule split_on_none)
  moreover have "list_all log_char (log_file r)"
    by (simp add: log_file_def list_all_iff)
  moreover have "log_path r = 47 # js ''var'' @ 47 # js ''vcap'' @ 47 # js ''sys'' @ 47 # js ''log'' @ 47 # js ''openclaw-agent'' @ 47 # log_file r @ js ''.log''"
    by (simp add: log_path_def js_def)
  moreover have "47 \<notin> set (js s)" if "s \<in> {''var'', ''vcap'', ''sys'', ''log'', ''openclaw-agent''}" for s
    using that by (auto simp: js_def)
  ultimately show ?thesis
    by (intro exI [of _ "log_file r"]) (simp add: split_on_once js_def [of "[]"])
qed

text \<open>
  The number of log lines is bounded for positive requests only: a request for \<open>n > 0\<close> lines gets
  the last \<open>n\<close>, at most 2000; any other number, or none at all, passes the limit, and zero or a text
  that is no number returns the whole file.
\<close>

theorem log_tail_exact:
  "log_tail r text =
    (case log_lines r of
       Some n \<Rightarrow> if 0 < n then drop (length (split_on 10 text) - nat n) (split_on 10 text) else drop (nat (- n)) (split_on 10 text)
     | None \<Rightarrow> split_on 10 text)
   \<and> (case log_lines r of Some n \<Rightarrow> n \<le> 2000 | None \<Rightarrow> True)"
  by (auto simp: log_tail_def js_slice_from_def log_lines_def split: option.splits)

text \<open>
  Which chat requests end the gateway: exactly those whose body is the JSON value \<^verbatim>\<open>null\<close>, and
  with a working configuration those whose messages contain \<^verbatim>\<open>null\<close> when the model is Anthropic's, or
  all when the endpoint is no URL. The exceptions leave the listener because only the parsing of the
  body and the choice of the provider are guarded.
\<close>

theorem chat_throws_iff:
  assumes "parse body = Inr data" and "data \<noteq> JsUndefined" and "resolveProvider c = Inr p"
  shows "(handleChat parse url_ok str c body = ChatThrows \<longleftrightarrow> data = JsNull)
    \<and> ((\<exists>ms. handleChat parse url_ok str c body = ChatStarted ms BeginThrows) \<longleftrightarrow>
        data \<noteq> JsNull \<and> (\<not> url_ok (pr_url p) \<or> pr_dialect p = Anthropic \<and>
          (\<exists>vs. get data ''messages'' = Some (JsArray vs) \<and> (JsNull \<in> set vs \<or> JsUndefined \<in> set vs))))"
proof -
  have g: "get data ''messages'' = None \<longleftrightarrow> data = JsNull"
    using assms(2) by (cases data) auto
  show ?thesis
  proof (cases "get data ''messages''")
    case None
    then show ?thesis
      using g assms(1) by (simp add: handleChat_def)
  next
    case (Some m)
    define msgs where "msgs = (if truthy m then (case m of JsArray vs \<Rightarrow> vs | _ \<Rightarrow> [m]) else [])"
    have null: "JsNull \<in> set msgs \<or> JsUndefined \<in> set msgs \<longleftrightarrow> (\<exists>vs. m = JsArray vs \<and> (JsNull \<in> set vs \<or> JsUndefined \<in> set vs))"
      by (cases m) (auto simp: msgs_def)
    let ?full = "JsObject [(js ''role'', JsString (js ''system'')), (js ''content'', JsString (system_prompt c))] # msgs"
    have h: "handleChat parse url_ok str c body = ChatStarted ?full (streamChat url_ok str c ?full)"
      using Some assms(1) by (simp add: handleChat_def msgs_def Let_def)
    have "buildBody str p ?full = None \<longleftrightarrow> pr_dialect p = Anthropic \<and> (JsNull \<in> set msgs \<or> JsUndefined \<in> set msgs)"
      using roles_None [of ?full] by (auto simp: buildBody_def Let_def split: dialect.splits option.splits)
    then have "streamChat url_ok str c ?full = BeginThrows \<longleftrightarrow>
        \<not> url_ok (pr_url p) \<or> pr_dialect p = Anthropic \<and> (JsNull \<in> set msgs \<or> JsUndefined \<in> set msgs)"
      using assms(3) by (auto simp: streamChat_def split: option.splits)
    then show ?thesis
      using h g Some null by auto
  qed
qed

theorem chat_throws_iff_witness:
  "handleChat (\<lambda>_. Inr JsNull) (\<lambda>_. True) (\<lambda>_. []) (sample_gateway\<lparr>genai_endpoint := js ''https://llm''\<rparr>) (js ''null'') = ChatThrows"
proof -
  let ?c = "sample_gateway\<lparr>genai_endpoint := js ''https://llm''\<rparr>"
  have "\<exists>p. resolveProvider ?c = Inr p"
    by (simp add: resolveProvider_def sample_gateway_def empty_config_def js_or_def strip_slashes_def js_def Let_def)
  then show ?thesis
    using chat_throws_iff [of "\<lambda>_. Inr JsNull" "js ''null''" JsNull ?c] by auto
qed

text \<open>
  The cookie of a login works: a request that brings the token in its query is let in and given a
  cookie, and every later request that sends this cookie, among others and with space around it, is
  let in as well. The token consists of the characters the broker makes tokens of.
\<close>

lemma login_cookie_accepted:
  assumes "checkAuth c r = (True, Some set_cookie)" and "list_all token_char (gw_token c)"
    and "k \<in> set (split_on 59 (g_cookie r'))" and "js_trim k = takeWhile (\<lambda>u. u \<noteq> 59) set_cookie"
  shows "fst (checkAuth c r')"
proof -
  have c: "gw_token c \<noteq> []" "set_cookie = js ''oc_token='' @ gw_token c @ js ''; HttpOnly; Path=/; SameSite=Strict''"
    using assms(1) by (auto simp: checkAuth_def Let_def split: if_splits)
  have "u \<noteq> 59" if "u \<in> set (js ''oc_token='' @ gw_token c)" for u
    using that assms(2) token_char_plain by (auto simp: list_all_iff oc_token_units)
  then have "takeWhile (\<lambda>u. u \<noteq> 59) set_cookie =
      (js ''oc_token='' @ gw_token c) @ takeWhile (\<lambda>u. u \<noteq> 59) (js ''; HttpOnly; Path=/; SameSite=Strict'')"
    unfolding c(2) append_assoc [symmetric] by (rule takeWhile_append2)
  also have "takeWhile (\<lambda>u. u \<noteq> 59) (js ''; HttpOnly; Path=/; SameSite=Strict'') = []"
    by (simp add: js_def)
  finally have "takeWhile (\<lambda>u. u \<noteq> 59) set_cookie = js ''oc_token='' @ gw_token c"
    by simp
  then have k: "js_trim k = js ''oc_token='' @ gw_token c"
    using assms(4) by simp
  have "js_trim (js ''oc_token='' @ gw_token c) = js ''oc_token='' @ gw_token c"
    using assms(2) c(1) token_char_plain [of "last (gw_token c)"]
    by (intro js_trim_plain) (simp_all add: oc_token_units js_space_def list_all_iff)
  then have "cookie_matches (gw_token c) k"
    using cookie_of_token [OF assms(2) c(1)] k by (simp add: cookie_matches_def)
  then have "list_ex (cookie_matches (gw_token c)) (split_on 59 (g_cookie r'))"
    using assms(3) by (auto simp: list_ex_iff)
  then show ?thesis
    by (simp add: checkAuth_def Let_def)
qed

text \<open>
  A configuration file that cannot be parsed opens the gateway: it runs with the empty configuration,
  in which no token is set, and anybody may restart it.
\<close>

theorem broken_config_opens_gateway:
  assumes "cfg text = Inl msg" and "g_method r = ''POST''" and "g_pathname r = js ''/api/restart''"
  shows "gateway_serve parse url_ok str fs (load_config cfg (Some text)) n r = (Restarting, n)"
proof -
  have "fst (checkAuth (load_config cfg (Some text)) r)"
    using assms(1) by (simp add: load_config_def checkAuth_def empty_config_def)
  then show ?thesis
    using assms(2,3) by (simp add: gateway_serve_def handleAdminAPI_def js_def)
qed

theorem broken_config_opens_gateway_witness:
  "gateway_serve (\<lambda>_. Inl []) (\<lambda>_. True) (\<lambda>_. []) (\<lambda>_. None) (load_config (\<lambda>_. Inl (js ''Unexpected end'')) (Some (js ''{'')))
     3 ((sample_get ''/api/restart'' (\<lambda>_. None))\<lparr>g_method := ''POST''\<rparr>) = (Restarting, 3)"
  by (rule broken_config_opens_gateway) (simp_all add: sample_get_def)

text \<open>Escaped text contains none of the characters that end a text or an attribute.\<close>

lemma esc_safe: "u \<in> set (esc s) \<Longrightarrow> u \<notin> {60, 62, 34}"
  by (auto simp: esc_def replace_unit_def js_def split: if_splits)

end
