(* ===== verification/Spec2Isabelle.thy ===== *)
theory Spec2Isabelle
  imports Process Broker_Job Answers Request_Target Gateway_Server
begin

text \<open>
  \<^bold>\<open>The OpenClaw service broker.\<close>

  The repository packages OpenClaw agents for BOSH. Its program is the service broker under
  \<^verbatim>\<open>src/openclaw-broker\<close> (Go): an HTTP server that speaks the Open Service Broker API to a Cloud
  Foundry platform, keeps a map of agent instances, and has the BOSH Director deploy and delete one
  virtual machine per instance and the UAA register an OAuth client for it. Beside it the repository
  has a gateway for such a machine under \<^verbatim>\<open>src/openclaw-gateway-custom\<close> (JavaScript), which lets the bearer of
  a token chat with a language model; no package of the release names it, the job of the agents starts
  the packaged OpenClaw. This development models the broker, the template of its configuration, and the
  server part of the gateway, and proves what makes them correct.

  \<^bold>\<open>The parts and how they interact.\<close> BOSH renders the configuration of the broker from the properties an
  operator sets (\<^verbatim>\<open>jobs/openclaw-broker/templates/config/config.json.erb\<close>). The process (\<^verbatim>\<open>main.go\<close>) reads its configuration and puts
  authentication and a router in front of the handlers. A request that passes reaches a handler of
  package \<^verbatim>\<open>broker\<close>, in a goroutine of its own. The handler reads and changes the instance map (\<^verbatim>\<open>broker.go\<close>) under a lock, calls the Director through
  package \<^verbatim>\<open>bosh\<close> and the UAA through package \<^verbatim>\<open>uaa\<close> outside it, renders manifests (\<^verbatim>\<open>manifest.go\<close>)
  with the credentials of package \<^verbatim>\<open>security\<close>, writes the state file and answers. A deployment is
  asynchronous: the Director gives a task, and the platform polls until it is settled. The token a
  binding hands out is the one the broker put into the manifest; the gateway compares with the token of
  its own configuration.

  \<^bold>\<open>The theories,\<close> in the order they build on each other:

  \<^item> \<open>Prelude\<close>: the collections \<open>response_defs\<close> and \<open>record_ok\<close>, type names, facts on lists and maps.
  \<^item> \<open>Go_Strings\<close>, \<open>Go_Encoding\<close>, \<open>Json\<close>, \<open>Json_Text\<close>, \<open>Http\<close>: what the source uses of Go's library. A Go
    string is a list of bytes; decimal, hexadecimal and base64 texts are interpretations of the
    interfaces \<open>codec\<close> and \<open>text_codec\<close>; \<open>json\<close> is the value a document stands for, and \<open>Json_Text\<close> has the
    encoder and the scanner of \<^verbatim>\<open>encoding/json\<close> on bytes, with the escapes, the nesting limit and the
    repair of invalid bytes, and that what was encoded is read back; the record \<open>ext\<close> holds
    everything outside the process (network, clock, random source, case table, map order, verdicts
    of the file system) as functions on an abstract world that every effectful definition threads.
  \<^item> \<open>Security\<close> (\<^verbatim>\<open>security/policy.go\<close>, \<^verbatim>\<open>security/token.go\<close>): the version gate is exact, versions
    read back, tokens determine their random bytes, the origin check is exact.
  \<^item> \<open>Hostname\<close> (\<^verbatim>\<open>uniqueRouteHostname\<close>, \<^verbatim>\<open>sanitizeHostname\<close> of \<^verbatim>\<open>broker/provision.go\<close>): host names are
    DNS labels, distinct for identifiers of the usual shape, and not distinct in general.
  \<^item> \<open>Manifest\<close> (\<^verbatim>\<open>bosh/manifest.go\<close>): the template line by line, and that the owner an end user chooses
    is confined to its own scalar.
  \<^item> \<open>Bosh_Client\<close> (\<^verbatim>\<open>bosh/client.go\<close>): token cache and task identifiers; interface \<open>director_ops\<close>.
  \<^item> \<open>Uaa_Client\<close> (\<^verbatim>\<open>uaa/client.go\<close>): OAuth clients and their secrets.
  \<^item> \<open>Broker_State\<close> (\<^verbatim>\<open>broker/broker.go\<close>, \<^verbatim>\<open>buildManifestParams\<close>): data, plans, counts. Records live in a
    heap, the map holds references, so that a handler that keeps a pointer across a call changes the
    record it took. The invariant is \<open>broker_wf\<close>, the observer's map is \<open>inst_view\<close>, and the interface
    \<open>instance_store\<close>, interpreted here, carries the counting lemmas.
  \<^item> \<open>Persistence\<close> (\<^verbatim>\<open>saveState\<close>, \<^verbatim>\<open>loadState\<close>, \<^verbatim>\<open>New\<close>): a restart restores the map; saving is atomic.
  \<^item> \<open>Transition\<close>: the interfaces \<open>transition_system\<close>, \<open>invariant_system\<close> and \<open>simulation_system\<close>.
  \<^item> \<open>State_File\<close> (\<^verbatim>\<open>os.WriteFile\<close> and \<^verbatim>\<open>os.Rename\<close> in \<^verbatim>\<open>saveState\<close>): a save as system calls on inodes
    (\<open>saver_step\<close>), which implement the one step of \<open>Persistence\<close> (interpretation \<open>one_save\<close>), and several
    saves at once (\<open>savers_step\<close>), which do not.
  \<^item> \<open>Provision\<close>, \<open>Deprovision\<close>, \<open>Update\<close>, \<open>Last_Operation\<close>, \<open>Binding\<close>, \<open>Catalog\<close>, \<open>Admin\<close>: the handlers of the
    files of the same names, each the composition of its lock sections and of the calls between them,
    with one lemma (\<open>_effect\<close>, \<open>_spec\<close>) that says what the whole handler does to \<open>inst_view\<close>.
  \<^item> \<open>Lifecycle\<close>: \<open>serve\<close> dispatches requests, \<open>broker_step\<close> is one served request in some environment;
    the interfaces of \<open>Transition\<close> are interpreted for the broker with the abstract life of an instance (\<open>life\<close>), and for the quotas.
  \<^item> \<open>Server\<close> (\<^verbatim>\<open>main.go\<close>): the configuration file, the GenAI service key in its two formats, model
    discovery, what makes the process start, basic authentication.
  \<^item> \<open>Router\<close> (the routes of \<^verbatim>\<open>main\<close>, the vendored gorilla/mux as far as they use it, the request
    bodies): which request reaches which handler, and that nothing happens without credentials.
  \<^item> \<open>Request_Target\<close> (\<^verbatim>\<open>r.URL\<close> as the handlers use it): the target of a request line, percent-decoded, and
    the pairs of its query; what a client encodes is read back (interpretations \<open>path_text\<close>, \<open>query_text\<close>
    of \<open>codec\<close>).
  \<^item> \<open>Answers\<close> (\<^verbatim>\<open>writeJSON\<close> and the response structs): the document and the bytes of every answer.
  \<^item> \<open>Concurrency\<close>: every handler as a sequence of steps, \<open>advance\<close>, over the shared broker, with the
    lock sections of the handler theories as steps and \<^verbatim>\<open>saveState\<close> split into copying, writing and
    renaming; a goroutine that is never interrupted is the handler.
  \<^item> \<open>Interleaving\<close>: any number of goroutines in any order (\<open>conc_step\<close>). Every run ends; well-formedness
    and the identity of records are invariants and every step moves an instance along \<open>conc_life\<close>
    (interpretation \<open>goroutines\<close> of \<open>simulation_system\<close>); the quotas are an invariant of requests that
    neither delete nor update (interpretation \<open>quiet_run\<close> of \<open>invariant_system\<close>); three schedules show
    what the locks of the source do not protect.
  \<^item> \<open>Durability\<close>: what is on the disk. Between requests the file holds the map of the broker (interpretation
    \<open>durable\<close> of \<open>invariant_system\<close>); at every moment of every interleaving it holds the map of some earlier
    moment (interpretation \<open>pictures\<close>); and what a restart reads from it.
  \<^item> \<open>Process\<close> (the end of \<^verbatim>\<open>main\<close>): serving, signals, the shutdown and the ends of the process as a step
    relation over the goroutines (interpretation \<open>process\<close> of \<open>invariant_system\<close>).
  \<^item> \<open>Broker_Job\<close> (\<^verbatim>\<open>config.json.erb\<close>): the template section by section on Ruby values, and what the broker
    reads from the document it renders.
  \<^item> \<open>Gateway_Stream\<close> (\<^verbatim>\<open>dist/llm.js\<close>, the callbacks in \<^verbatim>\<open>dist/cli.js\<close> and \<^verbatim>\<open>dist/control.js\<close>): the two
    stream parsers line by line, the listeners, the chat session as a step relation (interpretation
    \<open>session\<close> of \<open>invariant_system\<close>). A JavaScript string is a list of code units.
  \<^item> \<open>Gateway_Server\<close> (\<^verbatim>\<open>dist/cli.js\<close>, \<^verbatim>\<open>dist/control.js\<close>, \<^verbatim>\<open>resolveProvider\<close>): configuration, provider,
    authentication, endpoints.
  \<^item> This theory: the properties that span handlers, and an account of the whole.

  \<^bold>\<open>Correspondence.\<close> Definitions have the names of the source; fields of structs have a prefix
  (\<open>c_\<close> configuration, \<open>i_\<close> instance, \<open>p_\<close> plan, \<open>m_\<close> manifest parameters, \<open>q_\<close>, \<open>u_\<close>, \<open>g_\<close> requests, \<open>o_\<close>
  OAuth client, \<open>r_\<close> HTTP request). Errors are values: a handler answers with a status and a
  document, a client call with \<open>Inl\<close> of its error. \<^verbatim>\<open>int\<close> is a mathematical integer with \<open>wrap64\<close> where
  the source computes with values from outside. Loops are structural recursions, so every definition
  is total and no fuel is needed; UTF-8 decoding has a termination proof. Files and the bodies of
  requests and answers are bytes; handlers answer with the value for the encoder, which \<open>Answers\<close>
  turns into bytes. The JavaScript parts take \<^verbatim>\<open>JSON.parse\<close>, the conversion to a string and \<^verbatim>\<open>new URL\<close>
  as arguments; an exception that leaves a listener, and so ends the process, is a value. Log lines
  are left out.

  \<^bold>\<open>What the properties say.\<close> Runs: whatever is requested and whatever the environment does, the
  invariant holds and every instance moves along \<open>life\<close>; known instances keep their identity and go
  only when their deletion is done; the quotas hold for all requests but updates and upgrade polls.
  Goroutines: every schedule ends with an answer to every request and keeps the invariant and the
  identities; the quotas hold while nothing is deleted or updated. Handlers: provisioning is all or
  nothing and serves every admissible request, deletion restores or marks and is idempotent, a poll
  implements its specification, updates change the plan only, upgrades touch outdated instances only,
  credentials are given for ready instances only. Process: a broker that starts answers
  unauthenticated requests without effect, and routes the others by method and identifier. The shutdown answers what has arrived.
  Configuration: what the operator filled in is what the broker reads, and the enabled plans are what
  it offers. Across handlers: an accepted and settled instance can be bound at the address promised,
  and its token opens a gateway that runs with it. State file: a broker stopped between requests and
  started again knows exactly the instances it knew; one killed at any moment, with any requests in
  progress, is followed by one that knows the map of some earlier moment; one killed during the
  system calls of a save leaves the old or the new map. Wire: every
  answer reads back. Gateway: nothing without the token, a log path stays in its directory, a chat
  client sees the text of the model however it is cut, with one last event. Several theorems, some of
  them properties and some beside them, record what the code does where it does not do what it means
  to: two saves at once can destroy the state file and a stale copy can overwrite it, a failed deletion
  can exceed a quota, a poll can undo a deletion, an update that fails is not undone, a failed recovery
  never settles, recovery ignores the quotas and the check of the identifier, an upgrade deploys the
  old version, an upgrade poll can revive an instance that is being deleted, host names can clash,
  built-in plans are offered when every plan is disabled; the model test of the gateway and some chat
  bodies end its process, errors of the Anthropic API are swallowed, a broken configuration opens it.

  \<^bold>\<open>What is not modelled.\<close> The listening socket and the command-line flag, the type \<^verbatim>\<open>BindRequest\<close> that nothing uses; of the vendored router
  everything the routes do not use; response headers. TLS, timeouts and logging are left out. In the
  interleavings of handlers a lock section, a call to another service and the writing of a file are
  single steps (\<open>State_File\<close> cuts the last into system calls); the mutex of the Director's token is held
  from the look at the cache to its renewal, so that \<open>getToken\<close> is one step as well. Targets
  that do not begin with a slash are an argument; \<^verbatim>\<open>url.Parse\<close> of other addresses, the Unicode tables and floating-point numbers are parameters or kept
  as text. Of the gateway the HTML pages with the scripts in them, the figures of the status report and
  the registry placeholder are left out. The other BOSH jobs
  configure programs that are not in the repository (the packaged OpenClaw, oauth2-proxy, the route
  registrar); they, the packages and the Ops Manager tile are data. Writes that fail while other
  requests are in progress are part of the interleavings but not of \<open>pictures\<close>.

  \<^bold>\<open>State of the work.\<close> Every function of the broker is modelled. What could be added concerns what is
  left out above: response headers, several requests on one connection to the gateway, its pages.
\<close>

section \<open>Lemmas\<close>

text \<open>What a 202 of Provision says about the record it made.\<close>

lemma Provision_accepted_record:
  assumes "broker_wf b" and "Provision e k acc body b w = (resp, b', w')" and "status resp = 202"
  obtains i tb where "broker_wf b'" "inst_view b' k = Some i" "i_State i = ''provisioning''"
    "task_given e (director b) (i_BoshTaskID i)" "broker_frame b b'"
    "content resp = Provisioned (instance_url i) (''provision-'' @ k)" "i_GatewayToken i = gateway_token tb"
  using assms(1,2)
proof (cases rule: Provision_effect)
  case (accepted req plan tb sb j t)
  have "i_AppsDomain j = c_AppsDomain (config b)" "i_State j = ''provisioning''" "i_GatewayToken j = gateway_token tb"
    using same_but_sso_fields [OF accepted(5)] by (simp_all add: newInstance_def Let_def)
  then show ?thesis
    using that [of "set_task t j" tb] accepted(7-11) by (simp add: instance_url_def set_task_def)
qed (use assms(3) in auto)

text \<open>The record behind the binding that follows a provisioning the platform has seen succeed.\<close>

lemma provisioned_then_bound:
  assumes "broker_wf b" and "Provision e k acc body b w = (resp, b1, w1)" and "status resp = 202"
    and "LastOperation e' k b1 v = (resp', b2, v')" and "content resp' = LastOp ''succeeded'' d"
  obtains i tb where "content resp = Provisioned (instance_url i) (''provision-'' @ k)" "i_GatewayToken i = gateway_token tb"
    "Bind k b2 = writeJSON 201 (Credentials (bind_credentials (set_state ''ready'' i)))"
proof -
  obtain i tb where i: "broker_wf b1" "inst_view b1 k = Some i" "i_State i = ''provisioning''"
    "content resp = Provisioned (instance_url i) (''provision-'' @ k)" "i_GatewayToken i = gateway_token tb"
    using assms(1-3) by (rule Provision_accepted_record)
  let ?t = "map_option (task_state e' (director b1) v) (task_of i)"
  have s: "\<exists>d. resp' = last_op (reported ?t i) d" "inst_view b2 = (inst_view b1)(k := settled ?t i)"
    using LastOperation_spec [OF i(1) assms(4)] i(2) by simp_all
  have "reported ?t i = ''succeeded''"
    using s(1) assms(5) by (auto simp: last_op_def writeJSON_def)
  then have "inst_view b2 k = Some (set_state ''ready'' i)"
    using s(2) i(3) by (auto simp: reported_def settled_def split: if_splits)
  then obtain r where "lookup b2 k = Some r" "deref b2 r = set_state ''ready'' i"
    by (auto simp: inst_view_def)
  then have "Bind k b2 = writeJSON 201 (Credentials (bind_credentials (set_state ''ready'' i)))"
    by (simp add: Bind_def)
  then show ?thesis
    using i(4,5) that by blast
qed

lemma api_token_of_binding:
  "map_of (bind_credentials (set_state s i)) ''api_token'' = Some (JStr (i_GatewayToken i))"
  by (simp add: bind_credentials_def set_state_def)

lemma gateway_token_units: "list_all token_char (js (gateway_token tb))" "gateway_token tb \<noteq> []"
proof -
  have "token_char (of_char ch)" if "is_b64url ch" for ch
    using that by (auto simp: is_b64url_def token_char_def is_upper_def is_lower_def is_digit_def)
  then show "list_all token_char (js (gateway_token tb))"
    using gateway_token_chars [of tb] by (simp add: js_def list_all_iff)
qed (simp add: gateway_token_def)

section \<open>Properties\<close>


text \<open>A Director that reports task 7 as done.\<close>

definition done_world :: script where
  "done_world = script_start [json_reply 200 done_members]"

lemma done_task_state:
  "uaaURL c = [] \<Longrightarrow> urlOK script_ext (directorURL c @ ''/tasks/'' @ itoa 7) \<Longrightarrow>
   task_state script_ext c done_world 7 = ''done''"
  using script_TaskStatus_done [of c 7] by (auto simp: task_state_def done_world_def)

lemma sample_provisioned_and_polled:
  obtains resp b w resp' b' w' d where "Provision accepting_ext ''inst-1'' ''true'' (Some sample_request) sample_broker
      (script_start []) = (resp, b, w)" "status resp = 202"
    "LastOperation script_ext ''inst-1'' b done_world = (resp', b', w')" "content resp' = LastOp ''succeeded'' d"
proof -
  obtain resp b w where eq: "Provision accepting_ext ''inst-1'' ''true'' (Some sample_request) sample_broker
      (script_start []) = (resp, b, w)" and st: "status resp = 202"
    by (rule sample_provisioned)
  obtain i where i: "broker_wf b" "inst_view b ''inst-1'' = Some i" "i_State i = ''provisioning''"
    "task_given accepting_ext (director sample_broker) (i_BoshTaskID i)" "broker_frame sample_broker b"
    using Provision_accepted_record [OF sample_broker_wf eq st] by blast
  have c: "client_ident (director sample_broker) = (''https://10.0.0.6:25555'', ''admin'', ''secret'', [])"
    by code_simp
  have "urlOK script_ext (''https://10.0.0.6:25555'' @ ''/deployments'')"
    "urlOK script_ext (''https://10.0.0.6:25555'' @ ''/tasks/'' @ itoa 7)"
    by (code_simp, code_simp)
  then have "i_BoshTaskID i = 7" and "task_state script_ext (director b) done_world 7 = ''done''"
    using accepting_task_given [OF _ _ i(4)] done_task_state [of "director b"] c i(5)
    by (simp_all add: client_ident_def broker_frame_def)
  then have t: "map_option (task_state script_ext (director b) done_world) (task_of i) = Some ''done''"
    using i(3) by (simp add: task_of_def)
  obtain resp' b' w' where poll: "LastOperation script_ext ''inst-1'' b done_world = (resp', b', w')"
    by (metis prod_cases3)
  have "\<exists>d. resp' = last_op ''succeeded'' d"
    using LastOperation_spec [OF i(1) poll] i(2,3) by (auto simp: t reported_def settled_def)
  then show ?thesis
    using that [OF eq st poll] by (auto simp: last_op_def writeJSON_def)
qed


text \<open>
  C20. The token of a binding opens the agent: the gateway of the repository, when it runs with the token
  of the instance, lets in every request that carries the \<^verbatim>\<open>api_token\<close> of the binding as
  bearer token or in its query, as the dashboard address does; and the cookie it sets for the latter
  lets in every later request that sends it.
\<close>

theorem bound_token_opens_gateway:
  assumes "broker_wf b" and "Provision e k acc body b w = (resp, b1, w1)" and "status resp = 202"
    and "LastOperation e' k b1 v = (resp', b2, v')" and "content resp' = LastOp ''succeeded'' d"
    and "Bind k b2 = writeJSON 201 (Credentials cs)" and "map_of cs ''api_token'' = Some (JStr tok)" and "gw_token c = js tok"
  shows "(g_authorization r = js ''Bearer '' @ js tok \<or> g_query r ''token'' = Some (js tok) \<longrightarrow> fst (checkAuth c r))
    \<and> (\<forall>ck r' p. snd (checkAuth c r) = Some ck \<longrightarrow> p \<in> set (split_on 59 (g_cookie r'))
         \<longrightarrow> js_trim p = takeWhile (\<lambda>u. u \<noteq> 59) ck \<longrightarrow> fst (checkAuth c r'))"
proof -
  obtain i tb where i: "i_GatewayToken i = gateway_token tb"
    "Bind k b2 = writeJSON 201 (Credentials (bind_credentials (set_state ''ready'' i)))"
    using assms(1-5) by (rule provisioned_then_bound)
  then have "tok = gateway_token tb"
    using assms(6,7) api_token_of_binding [of "''ready''" i] by (auto simp: writeJSON_def)
  then have tok: "list_all token_char (gw_token c)"
    using assms(8) gateway_token_units by simp
  have "length (js ''Bearer '') = 7"
    by (simp add: js_def)
  then have "fst (checkAuth c r)" if "g_authorization r = js ''Bearer '' @ js tok \<or> g_query r ''token'' = Some (js tok)"
    using that assms(8) by (auto simp: checkAuth_def Let_def)
  moreover have "fst (checkAuth c r')" if "snd (checkAuth c r) = Some ck" "p \<in> set (split_on 59 (g_cookie r'))"
      "js_trim p = takeWhile (\<lambda>u. u \<noteq> 59) ck" for ck r' p
  proof -
    have "checkAuth c r = (True, Some ck)"
      using that(1) by (auto simp: checkAuth_def Let_def split: if_splits)
    then show ?thesis
      using tok that(2,3) by (rule login_cookie_accepted)
  qed
  ultimately show ?thesis
    by blast
qed

theorem bound_token_opens_gateway_witness:
  "\<exists>b cs tok. Bind ''inst-1'' b = writeJSON 201 (Credentials cs) \<and> map_of cs ''api_token'' = Some (JStr tok)
     \<and> fst (checkAuth (sample_gateway\<lparr>gw_token := js tok\<rparr>) (sample_get ''/'' (\<lambda>_. Some (js tok))))"
proof -
  obtain resp b w resp' b' w' d where run: "Provision accepting_ext ''inst-1'' ''true'' (Some sample_request) sample_broker
      (script_start []) = (resp, b, w)" "status resp = 202"
    "LastOperation script_ext ''inst-1'' b done_world = (resp', b', w')" "content resp' = LastOp ''succeeded'' d"
    by (rule sample_provisioned_and_polled)
  obtain i where bound: "Bind ''inst-1'' b' = writeJSON 201 (Credentials (bind_credentials (set_state ''ready'' i)))"
    using sample_broker_wf run by (rule provisioned_then_bound)
  let ?tok = "i_GatewayToken i"
  have "fst (checkAuth (sample_gateway\<lparr>gw_token := js ?tok\<rparr>) (sample_get ''/'' (\<lambda>_. Some (js ?tok))))"
    using bound_token_opens_gateway [OF sample_broker_wf run bound api_token_of_binding,
        of "sample_gateway\<lparr>gw_token := js ?tok\<rparr>" "sample_get ''/'' (\<lambda>_. Some (js ?tok))"]
    by (simp add: sample_get_def)
  then show ?thesis
    using bound api_token_of_binding by blast
qed

text \<open>
  A failed recovery never settles: when the redeployment of an instance the broker does not
  know fails, every later poll for it, in whatever environment, reports the operation as in progress
  and changes nothing.
\<close>

theorem failed_recovery_never_settles:
  assumes "broker_wf b" and "inst_view b k = None"
    and "Update e k acc (Some req) b w = (resp, b', w')" and "status resp = 500"
  shows "LastOperation e' k b' v = (last_op ''in progress'' ''Waiting for deployment task...'', b', v)"
proof -
  obtain i where i: "inst_view b' k = Some i" "i_State i = ''provisioning''" "i_BoshTaskID i = 0"
    using assms(1,3)
  proof (cases rule: Update_effect)
    case (failed req' i)
    then show ?thesis
      using that [of i] assms(2) by (auto simp: update_target_def simp del: inst_view_None)
  qed (use assms(4) in auto)
  then show ?thesis
    by (auto simp: LastOperation_def inst_view_def)
qed

theorem failed_recovery_never_settles_witness:
  "\<exists>b. LastOperation script_ext ''x'' b done_world
     = (last_op ''in progress'' ''Waiting for deployment task...'', b, done_world)"
proof -
  obtain resp b w where eq: "Update offline_ext ''x'' ''true'' (Some sample_update) sample_broker (script_start [])
      = (resp, b, w)"
    by (metis prod_cases3)
  then have "status resp = 500"
    using sample_recovery_fails by simp
  moreover have "inst_view sample_broker ''x'' = None"
    by (simp add: sample_broker_view)
  ultimately show ?thesis
    using failed_recovery_never_settles [OF sample_broker_wf _ eq, of script_ext done_world] by blast
qed

lemma sanitize_params_kept:
  "m_DeploymentName (sanitize_params p) = m_DeploymentName p"
  "m_OpenClawVersion (sanitize_params p) = m_OpenClawVersion p"
  by (simp_all add: sanitize_params_def)

lemma manifest_starts:
  "\<exists>rest. RenderAgentManifest p = Inr (''---'' @ [newline] @ ''name: '' @ m_DeploymentName p @ [newline] @ rest)"
  by (simp add: RenderAgentManifest_def manifest_lines_def manifest_head_def sanitize_params_kept strings_Join_Cons)

text \<open>
  The recovery path of Update has no guard against crafted identifiers: the manifest it hands
  to the Director begins with the identifier exactly as the path of the request has it, line breaks
  included, although Provision refuses the very same identifier in order to prevent YAML injection.
\<close>

theorem recovery_manifest_unvalidated:
  assumes "lookup b k = None" and "Update_prepare e k req b w = (Inr r, b1, w1)" and "\<not> validInstanceID k"
  shows "(\<exists>rest. RenderAgentManifest (buildManifestParams (config b1) (deref b1 r))
       = Inr (''---'' @ [newline] @ ''name: openclaw-agent-'' @ k @ [newline] @ rest))
    \<and> Provision e' k acc body b v = (writeJSON 400 (Error ''Invalid instance_id format''), b, v)"
proof -
  obtain plan tb sb where "r = length (heap b)" "b1 = snd (insert_instance k (recoveredInstance e (config b) k plan tb sb) b)"
    using assms(1,2) by (auto simp: Update_prepare_def Let_def insert_instance_def alloc_def split: option.splits prod.splits)
  then have "m_DeploymentName (buildManifestParams (config b1) (deref b1 r)) = ''openclaw-agent-'' @ k"
    by (simp add: deref_def buildManifestParams_def Let_def deploymentNameFor_def)
  then show ?thesis
    using manifest_starts [of "buildManifestParams (config b1) (deref b1 r)"] assms(3) by (simp add: Provision_def)
qed

theorem recovery_manifest_unvalidated_witness:
  "\<exists>p rest. RenderAgentManifest p = Inr (''---'' @ [newline] @ ''name: openclaw-agent-x'' @ [newline] @ ''injected: yes'' @ [newline] @ rest)"
proof -
  let ?k = "''x'' @ [newline] @ ''injected: yes''"
  obtain r b1 w1 where u: "Update_prepare offline_ext ?k sample_update sample_broker (script_start []) = (Inr r, b1, w1)"
    by (simp add: Update_prepare_def sample_broker_view recovery_plan_def sample_update_def sample_plan split_def Let_def)
  have "\<not> validInstanceID ?k"
    by code_simp
  from recovery_manifest_unvalidated [OF sample_broker_view(2) u this, of offline_ext "[]" None "script_start []"] show ?thesis
    by auto
qed

text \<open>
  C40. An upgrade deploys the old version: the manifest that AdminUpgrade hands to the Director for an
  instance still names the version the record had, while the record afterwards claims the configured
  version, so that the next upgrade passes the instance over.
\<close>

theorem upgrade_deploys_old_version:
  assumes "upgrade_one e v r b w = (True, b', w')" and "r < length (heap b)"
  shows "i_OpenClawVersion (deref b' r) = v \<and> \<not> outdated v (deref b' r)
    \<and> (\<exists>p t c. Deploy e (director b) (strings_Join [newline] (manifest_lines p)) w = (Inr t, c, w')
         \<and> i_BoshTaskID (deref b' r) = t
         \<and> ''            version: '' @ dq (i_OpenClawVersion (deref b r)) \<in> set (manifest_lines p))"
proof -
  let ?p = "sanitize_params (buildManifestParams (config b) (deref b r))"
  obtain t b1 where d: "deploy_instance e r b w = (Deployed t, b1, w')"
    "b' = track_upgrade (i_ID (deref b1 r)) t (modify r (upgraded t v) b1)"
    using assms(1) by (auto simp: upgrade_one_def split: prod.splits deploy_result.splits)
  obtain c where c: "Deploy e (director b) (strings_Join [newline] (manifest_lines ?p)) w = (Inr t, c, w')" "b1 = b\<lparr>director := c\<rparr>"
    using d(1) by (auto simp: deploy_instance_def RenderAgentManifest_def split: prod.splits sum.splits)
  have "''            version: '' @ dq (i_OpenClawVersion (deref b r)) \<in> set (manifest_lines ?p)"
    by (simp add: manifest_lines_def manifest_head_def sanitize_params_kept buildManifestParams_def Let_def)
  moreover have "deref b' r = upgraded t v (deref b r)"
    using d(2) c(2) assms(2) by (simp add: deref_modify)
  ultimately show ?thesis
    using c(1) by (auto simp: upgraded_def outdated_def)
qed

theorem upgrade_deploys_old_version_witness:
  "\<exists>b. i_OpenClawVersion (deref b 0) = ''2026.2.21''
    \<and> (\<exists>p. ''            version: '' @ dq ''2026.1.30'' \<in> set (manifest_lines p))"
proof -
  let ?b = "sample_with ''a-1'' ''ready'' 7"
  have "director_accepts accepting_ext (director ?b)"
    using sample_director_accepts by (simp add: sample_with_def)
  then have "fst (upgrade_one accepting_ext ''2026.2.21'' 0 ?b (script_start []))"
    by (rule upgrade_one_accepted)
  then obtain b w where u: "upgrade_one accepting_ext ''2026.2.21'' 0 ?b (script_start []) = (True, b, w)"
    by (metis prod.collapse)
  have h: "0 < length (heap ?b)" "i_OpenClawVersion (deref ?b 0) = ''2026.1.30''"
    by code_simp+
  from upgrade_deploys_old_version [OF u h(1)] h(2) show ?thesis
    by auto
qed

end
